theory Spec2Isabelle
  imports Main "HOL-Library.Word"
begin

section \<open>The flat-file session store of flow\<close>

text \<open>
  A shallow embedding of \<^verbatim>\<open>internal/infra/filesystem/session_fs_repository.go\<close>.
  Go strings are byte strings (\<open>string\<close>, a \<open>char list\<close>); \<open>int64\<close> is \<open>64 word\<close>,
  read as a signed number by \<open>sint\<close>. A call of \<open>log.Fatal\<close> ends the process: it is
  the \<open>Inl\<close> side of a result \<open>fatal + 'a\<close>. An \<open>error\<close> a function returns is a value.
\<close>

subsection \<open>Library functions the store calls\<close>

type_synonym int64 = "64 word"

datatype error =
    InvalidSessionFileName  \<comment> \<open>\<open>errors.New("invalid session file name")\<close>\<close>
  | ErrSyntax               \<comment> \<open>\<open>strconv.ParseInt\<close>: not a number\<close>
  | ErrRange                \<comment> \<open>\<open>strconv.ParseInt\<close>: out of the 64-bit range\<close>
  | NotFoundError string    \<comment> \<open>\<open>"session with id " + id + " not found"\<close>\<close>
  | PathError               \<comment> \<open>an error of the \<open>os\<close> package\<close>
  | MarshalerError          \<comment> \<open>\<open>json.MarshalIndent\<close> refuses the value\<close>
  | UnmarshalError          \<comment> \<open>\<open>json.Unmarshal\<close> refuses the bytes\<close>
  | ErrSessionAlreadyStarted  \<comment> \<open>the error of the start use case\<close>

text \<open>\<open>strings.Split(s, "-")\<close>, with the one-byte separator as a character: the pieces
  between the separators, so one piece more than there are separators.\<close>

fun Split :: "string \<Rightarrow> char \<Rightarrow> string list" where
  "Split [] sep = [[]]"
| "Split (c # cs) sep =
     (if c = sep then [] # Split cs sep
      else (case Split cs sep of
              [] \<Rightarrow> [[c]]
            | p # ps \<Rightarrow> (c # p) # ps))"

text \<open>\<open>strings.TrimSuffix(s, suffix)\<close>.\<close>

definition TrimSuffix :: "string \<Rightarrow> string \<Rightarrow> string" where
  "TrimSuffix s suffix =
     (if length suffix \<le> length s \<and> drop (length s - length suffix) s = suffix
      then take (length s - length suffix) s
      else s)"

definition is_digit :: "char \<Rightarrow> bool" where
  "is_digit c = (48 \<le> (of_char c :: int) \<and> (of_char c :: int) \<le> 57)"

definition digit_of :: "int \<Rightarrow> char" where
  "digit_of d = char_of (48 + d)"

text \<open>\<open>strconv.ParseUint(s, 10, 64)\<close> after its check for the empty string: the loop
  over the bytes, with its two overflow checks (\<open>cutoff\<close> is \<open>maxUint64/10 + 1\<close>). The
  \<open>uint64\<close> accumulator is an \<open>int\<close> here: the checks keep it below \<open>2 ^ 64\<close>.\<close>

fun ParseUint_loop :: "int \<Rightarrow> string \<Rightarrow> error + int" where
  "ParseUint_loop n [] = Inr n"
| "ParseUint_loop n (c # cs) =
     (if \<not> is_digit c then Inl ErrSyntax
      else if n \<ge> 18446744073709551615 div 10 + 1 then Inl ErrRange
      else (let n1 = n * 10 + (of_char c - 48)
            in if n1 > 18446744073709551615 then Inl ErrRange else ParseUint_loop n1 cs))"

definition ParseUint :: "string \<Rightarrow> error + int" where
  "ParseUint s = (if s = [] then Inl ErrSyntax else ParseUint_loop 0 s)"

text \<open>\<open>strconv.ParseInt(s, 10, 64)\<close>: an optional sign, then \<open>ParseUint\<close>, then the
  check against the signed range (\<open>cutoff\<close> is \<open>2 ^ 63\<close>).\<close>

definition ParseInt :: "string \<Rightarrow> error + int64" where
  "ParseInt s =
     (if s = [] then Inl ErrSyntax
      else (let neg = (hd s = CHR ''-'');
                s1 = (if hd s = CHR ''+'' \<or> hd s = CHR ''-'' then tl s else s)
            in case ParseUint s1 of
                 Inl e \<Rightarrow> Inl e
               | Inr un \<Rightarrow>
                   if \<not> neg \<and> un \<ge> 9223372036854775808 then Inl ErrRange
                   else if neg \<and> un > 9223372036854775808 then Inl ErrRange
                   else Inr (if neg then - word_of_int un else word_of_int un)))"

text \<open>\<open>strconv.FormatInt(i, 10)\<close>: the decimal digits, after a minus sign for a negative
  number.\<close>

function digits :: "int \<Rightarrow> string" where
  "digits n = (if n < 10 then [digit_of n] else digits (n div 10) @ [digit_of (n mod 10)])"
  by pat_completeness auto
termination
  by (relation "measure nat") auto

declare digits.simps [simp del]

definition FormatInt :: "int64 \<Rightarrow> string" where
  "FormatInt i = (if sint i < 0 then CHR ''-'' # digits (- sint i) else digits (sint i))"

subsection \<open>Time\<close>

text \<open>A \<open>time.Time\<close> without its location and monotonic reading: the seconds since
  January 1 of year 1 (what \<open>t.sec()\<close> returns, an \<open>int64\<close>) and the nanoseconds within
  the second.\<close>

record time =
  sec :: int64
  nsec :: int

definition unixToInternal :: int64 where
  "unixToInternal = 62135596800"

text \<open>\<open>time.Unix(sec, nsec)\<close> for \<open>0 \<le> nsec < 1e9\<close>, and \<open>t.Unix()\<close>:
  64-bit additions, which wrap.\<close>

definition time_Unix :: "int64 \<Rightarrow> int \<Rightarrow> time" where
  "time_Unix s n = \<lparr>sec = s + unixToInternal, nsec = n\<rparr>"

definition Unix :: "time \<Rightarrow> int64" where
  "Unix t = sec t - unixToInternal"

definition Before :: "time \<Rightarrow> time \<Rightarrow> bool" where
  "Before t u = (sint (sec t) < sint (sec u) \<or> (sec t = sec u \<and> nsec t < nsec u))"

definition After :: "time \<Rightarrow> time \<Rightarrow> bool" where
  "After t u = (sint (sec t) > sint (sec u) \<or> (sec t = sec u \<and> nsec t > nsec u))"

subsection \<open>Sessions and file names\<close>

text \<open>Modelled from the spec: the declaration of \<open>session.Session\<close> is not among the
  sources; the spec's data model and the test of the start use case give its fields.\<close>

record Session =
  Id :: string
  StartTime :: time
  Project :: string
  Tags :: "string list"

text \<open>\<open>SessionFilename\<close>; its fields carry the prefix \<open>fn_\<close>, the names without it
  being those of \<open>Session\<close>.\<close>

record SessionFilename =
  fn_StartTime :: time
  fn_Id :: string
  fn_Project :: string

definition is_alnum :: "char \<Rightarrow> bool" where
  "is_alnum c =
     (let n = (of_char c :: nat)
      in (97 \<le> n \<and> n \<le> 122) \<or> (65 \<le> n \<and> n \<le> 90) \<or> (48 \<le> n \<and> n \<le> 57))"

text \<open>\<open>regexp.MustCompile("[^a-zA-Z0-9]+").ReplaceAllString(project, "")\<close>: every
  maximal run of other bytes is replaced by nothing, which leaves the letters and digits.\<close>

definition StrippedProject :: "SessionFilename \<Rightarrow> string" where
  "StrippedProject s = filter is_alnum (fn_Project s)"

definition String :: "SessionFilename \<Rightarrow> string" where
  "String s = fn_Id s @ ''-'' @ StrippedProject s @ ''-'' @ FormatInt (Unix (fn_StartTime s)) @ ''.json''"

definition getSessionFileName :: "Session \<Rightarrow> string" where
  "getSessionFileName s =
     String \<lparr>fn_StartTime = StartTime s, fn_Id = Id s, fn_Project = Project s\<rparr>"

definition parseSessionFileName :: "string \<Rightarrow> error + SessionFilename" where
  "parseSessionFileName fileName =
     (let parts = Split fileName CHR ''-''
      in if length parts \<noteq> 3 then Inl InvalidSessionFileName
         else (case ParseInt (TrimSuffix (parts ! 2) ''.json'') of
                 Inl err \<Rightarrow> Inl err
               | Inr startTimeUnix \<Rightarrow>
                   Inr \<lparr>fn_StartTime = time_Unix startTimeUnix 0,
                        fn_Id = parts ! 0,
                        fn_Project = parts ! 1\<rparr>))"

subsection \<open>The flow folder\<close>

text \<open>\<open>utf8.DecodeRuneInString\<close>, as far as \<open>encoding/json\<close> asks it: the number of bytes of
  the UTF-8 encoding the string begins with, and 0 when it begins with none (where Go
  answers \<open>RuneError\<close> with size 1). The first byte gives the size and the range of the
  second byte; every later byte is a continuation byte.\<close>

definition between :: "nat \<Rightarrow> nat \<Rightarrow> char \<Rightarrow> bool" where
  "between lo hi c = (lo \<le> of_char c \<and> (of_char c :: nat) \<le> hi)"

fun rune_size :: "string \<Rightarrow> nat" where
  "rune_size [] = 0"
| "rune_size (c0 # cs) =
     (let x = (of_char c0 :: nat)
      in if x < 128 then 1
         else if 194 \<le> x \<and> x \<le> 223 then
           (case cs of
              c1 # rest \<Rightarrow> if between 128 191 c1 then 2 else 0
            | [] \<Rightarrow> 0)
         else if 224 \<le> x \<and> x \<le> 239 then
           (case cs of
              c1 # c2 # rest \<Rightarrow>
                if between (if x = 224 then 160 else 128) (if x = 237 then 159 else 191) c1 \<and>
                   between 128 191 c2
                then 3 else 0
            | _ \<Rightarrow> 0)
         else if 240 \<le> x \<and> x \<le> 244 then
           (case cs of
              c1 # c2 # c3 # rest \<Rightarrow>
                if between (if x = 240 then 144 else 128) (if x = 244 then 143 else 191) c1 \<and>
                   between 128 191 c2 \<and> between 128 191 c3
                then 4 else 0
            | _ \<Rightarrow> 0)
         else 0)"

text \<open>A string after \<open>json.MarshalIndent\<close> and \<open>json.Unmarshal\<close>: the encoder writes
  the escape of U+FFFD for each byte that does not begin a valid encoding, and the decoder
  reads that as the three bytes of U+FFFD; every other byte comes back. The counter is
  the number of bytes of the current encoding still to copy.\<close>

fun json_string_from :: "nat \<Rightarrow> string \<Rightarrow> string" where
  "json_string_from k [] = []"
| "json_string_from k (c # cs) =
     (case k of
        Suc j \<Rightarrow> c # json_string_from j cs
      | 0 \<Rightarrow>
          (let n = rune_size (c # cs)
           in if n = 0 then [CHR 0xEF, CHR 0xBF, CHR 0xBD] @ json_string_from 0 cs
              else c # json_string_from (n - 1) cs))"

definition json_string :: "string \<Rightarrow> string" where
  "json_string s = json_string_from 0 s"

text \<open>A \<open>time.Time\<close> after the same round trip. The model's \<open>time\<close> is the instant; the
  \<open>Location\<close> a Go time carries is read by \<open>json.MarshalIndent\<close> only, which here takes
  \<open>zone\<close>, the offset in seconds east of UTC that the location of \<open>StartTime\<close> gives at that
  instant (0 for UTC). The time is written as RFC 3339 with its nanoseconds, in its own
  zone, the offset as hours and minutes (\<open>offset / 60\<close>, rounded towards zero); reading it
  back gives the instant moved by the seconds of the offset that were not written.\<close>

definition zone_minutes :: "int \<Rightarrow> int" where
  "zone_minutes zone = (if zone < 0 then - ((- zone) div 60) else zone div 60)"

definition json_time :: "int \<Rightarrow> time \<Rightarrow> time" where
  "json_time zone t = t\<lparr>sec := sec t + word_of_int (zone - 60 * zone_minutes zone)\<rparr>"

definition json_roundtrip :: "int \<Rightarrow> Session \<Rightarrow> Session" where
  "json_roundtrip zone v =
     \<lparr>Id = json_string (Id v),
      StartTime = json_time zone (StartTime v),
      Project = json_string (Project v),
      Tags = map json_string (Tags v)\<rparr>"

text \<open>The bytes of a file are modelled by what \<open>json.Unmarshal\<close> makes of them: the
  session they decode to, or none. \<open>json.MarshalIndent\<close> refuses a time whose year, in its
  own zone, is outside 0 to 9999 (in seconds since year 1: from \<open>-31622400\<close> up to, not
  including, \<open>315537897600\<close>), and one whose zone is not UTC and has an hour beyond 23.\<close>

datatype raw = Marshaled Session | Malformed

definition json_MarshalIndent :: "int \<Rightarrow> Session \<Rightarrow> error + raw" where
  "json_MarshalIndent zone v =
     (let local = sint (sec (StartTime v)) + zone;
          hour = \<bar>zone_minutes zone\<bar> div 60
      in if local < - 31622400 \<or> 315537897600 \<le> local then Inl MarshalerError
         else if zone \<noteq> 0 \<and> 24 \<le> hour then Inl MarshalerError
         else Inr (Marshaled (json_roundtrip zone v)))"

fun json_Unmarshal :: "raw \<Rightarrow> error + Session" where
  "json_Unmarshal (Marshaled v) = Inr v"
| "json_Unmarshal Malformed = Inl UnmarshalError"

text \<open>The state of the repository is its folder \<open>FlowFolderPath\<close>: missing, or the
  entries in the order \<open>Readdir\<close> lists them, each a name with a regular file's bytes or
  the mark of a subdirectory, whose own entries the model does not hold. The names of a
  folder are distinct: the theorems that need it assume \<open>distinct (map fst es)\<close>.\<close>

datatype node = File raw | Dir

datatype fs = NoFolder | Folder "(string \<times> node) list"

record FileInfo =
  Name :: string
  IsDir :: bool

definition readFlowFolder :: "fs \<Rightarrow> error + FileInfo list" where
  "readFlowFolder r =
     (case r of
        NoFolder \<Rightarrow> Inl PathError
      | Folder es \<Rightarrow> Inr (map (\<lambda>(n, nd). \<lparr>Name = n, IsDir = (nd = Dir)\<rparr>) es))"

text \<open>\<open>os.ReadFile\<close> and \<open>os.Remove\<close> at \<open>filepath.Join(r.FlowFolderPath, name)\<close>, for a
  name that is an entry's name: the repository hands them names of the listing (and, in
  \<open>FindLastSession\<close>, a name encoded again from one).\<close>

definition os_ReadFile :: "fs \<Rightarrow> string \<Rightarrow> error + raw" where
  "os_ReadFile r name =
     (case r of
        NoFolder \<Rightarrow> Inl PathError
      | Folder es \<Rightarrow>
          (case map_of es name of
             Some (File b) \<Rightarrow> Inr b
           | Some Dir \<Rightarrow> Inl PathError
           | None \<Rightarrow> Inl PathError))"

definition os_Remove :: "fs \<Rightarrow> string \<Rightarrow> error option \<times> fs" where
  "os_Remove r name =
     (case r of
        NoFolder \<Rightarrow> (Some PathError, r)
      | Folder es \<Rightarrow>
          (case map_of es name of
             None \<Rightarrow> (Some PathError, r)
           | Some nd \<Rightarrow> (None, Folder (filter (\<lambda>(n, nd). n \<noteq> name) es))))"

text \<open>\<open>filepath.Join(r.FlowFolderPath, name)\<close> cleans the path it joins: empty elements and
  \<open>.\<close> go, and \<open>..\<close> goes with the element before it. \<open>below_folder\<close> gives the elements
  of the cleaned path below the folder, or \<open>None\<close> when a \<open>..\<close> climbs above the folder.\<close>

fun below_folder :: "string list \<Rightarrow> string list \<Rightarrow> string list option" where
  "below_folder stack [] = Some (rev stack)"
| "below_folder stack (elem # elems) =
     (if elem = [] \<or> elem = ''.'' then below_folder stack elems
      else if elem = ''..'' then
        (case stack of
           [] \<Rightarrow> None
         | elem0 # stack0 \<Rightarrow> below_folder stack0 elems)
      else below_folder (elem # stack) elems)"

text \<open>\<open>os.WriteFile(filepath.Join(r.FlowFolderPath, name), b, 0666)\<close>, on a file system
  with \<open>/\<close> as separator and case-sensitive names of at most 255 bytes, in a folder
  the process may write to. A name with a NUL byte is refused. A path that ends at an entry of the folder creates or rewrites that file: a
  rewritten file keeps its place in the listing, and a new file takes the place the file
  system gives it, which is the argument \<open>place\<close>. A path through an entry that is missing
  or a regular file fails. The result is \<open>None\<close> where what happens depends on what the
  model does not hold: a path into a subdirectory, or above the folder.\<close>

definition os_WriteFile :: "nat \<Rightarrow> fs \<Rightarrow> string \<Rightarrow> raw \<Rightarrow> (error option \<times> fs) option" where
  "os_WriteFile place r name b =
     (if list_ex (\<lambda>c. of_char c = (0 :: nat)) name then Some (Some PathError, r)
      else (case below_folder [] (Split name CHR ''/'') of
              None \<Rightarrow> None
            | Some [] \<Rightarrow> Some (Some PathError, r)
            | Some [entry] \<Rightarrow>
                (case r of
                   NoFolder \<Rightarrow> Some (Some PathError, r)
                 | Folder es \<Rightarrow>
                     if length entry > 255 then Some (Some PathError, r)
                     else (case map_of es entry of
                             Some Dir \<Rightarrow> Some (Some PathError, r)
                           | Some (File old) \<Rightarrow>
                               Some (None,
                                 Folder (map (\<lambda>(n, nd). if n = entry then (n, File b) else (n, nd)) es))
                           | None \<Rightarrow>
                               Some (None,
                                 Folder (take place es @ (entry, File b) # drop place es))))
            | Some (entry # below # rest) \<Rightarrow>
                (case r of
                   NoFolder \<Rightarrow> Some (Some PathError, r)
                 | Folder es \<Rightarrow>
                     (case map_of es entry of
                        Some Dir \<Rightarrow> None
                      | Some (File old) \<Rightarrow> Some (Some PathError, r)
                      | None \<Rightarrow> Some (Some PathError, r)))))"

subsection \<open>The repository\<close>

text \<open>What \<open>log.Fatal\<close> and \<open>log.Fatalf\<close> are called with.\<close>

datatype fatal =
    Fatal_readFlowFolder error
  | Fatal_parseFileName string error
  | Fatal_readFile string error
  | Fatal_invalidData string
  | Fatal_deleteFile string error

text \<open>A function that reads files returns, before its result, the names it has passed
  to \<open>os.ReadFile\<close>, in the order of the calls.\<close>

type_synonym 'a reading = "string list \<times> (fatal + 'a)"

definition rawFileToSession :: "raw \<Rightarrow> error + Session" where
  "rawFileToSession raw = json_Unmarshal raw"

fun FindById_loop :: "fs \<Rightarrow> string \<Rightarrow> FileInfo list \<Rightarrow> Session option reading" where
  "FindById_loop r ident [] = ([], Inr None)"
| "FindById_loop r ident (fileInfo # fileInfos) =
     (if IsDir fileInfo then FindById_loop r ident fileInfos
      else (case parseSessionFileName (Name fileInfo) of
              Inl err \<Rightarrow> ([], Inl (Fatal_parseFileName (Name fileInfo) err))
            | Inr sessionFilename \<Rightarrow>
                if fn_Id sessionFilename = ident
                then (case os_ReadFile r (Name fileInfo) of
                        Inl err \<Rightarrow> ([Name fileInfo], Inl (Fatal_readFile (Name fileInfo) err))
                      | Inr file \<Rightarrow>
                          (case rawFileToSession file of
                             Inl convertErr \<Rightarrow> ([Name fileInfo],
                                 Inl (Fatal_invalidData (Name fileInfo)))
                           | Inr session \<Rightarrow> ([Name fileInfo], Inr (Some session))))
                else FindById_loop r ident fileInfos))"

definition FindById :: "fs \<Rightarrow> string \<Rightarrow> Session option reading" where
  "FindById r ident =
     (case readFlowFolder r of
        Inl err \<Rightarrow> ([], Inl (Fatal_readFlowFolder err))
      | Inr fileInfos \<Rightarrow> FindById_loop r ident fileInfos)"

text \<open>\<open>Save\<close> and \<open>Delete\<close> return their \<open>error\<close> (\<open>None\<close> for \<open>nil\<close>) and the folder
  as they leave it. \<open>Save\<close> has the two arguments of what it calls: the place the file
  system gives a new file, and the zone of the session's \<open>StartTime\<close>.\<close>

definition Save :: "nat \<Rightarrow> int \<Rightarrow> fs \<Rightarrow> Session \<Rightarrow> (error option \<times> fs) option" where
  "Save place zone r sessionToSave =
     (case json_MarshalIndent zone sessionToSave of
        Inl marshaledErr \<Rightarrow> Some (Some marshaledErr, r)
      | Inr marshaled \<Rightarrow> os_WriteFile place r (getSessionFileName sessionToSave) marshaled)"

fun Delete_loop :: "fs \<Rightarrow> string \<Rightarrow> FileInfo list \<Rightarrow> fatal + (error option \<times> fs)" where
  "Delete_loop r ident [] = Inr (Some (NotFoundError ident), r)"
| "Delete_loop r ident (fileInfo # fileInfos) =
     (if IsDir fileInfo then Delete_loop r ident fileInfos
      else (case parseSessionFileName (Name fileInfo) of
              Inl err \<Rightarrow> Inl (Fatal_parseFileName (Name fileInfo) err)
            | Inr filenameInfo \<Rightarrow>
                if fn_Id filenameInfo = ident
                then (case os_Remove r (Name fileInfo) of
                        (Some deleteErr, r') \<Rightarrow> Inl (Fatal_deleteFile (Name fileInfo) deleteErr)
                      | (None, r') \<Rightarrow> Inr (None, r'))
                else Delete_loop r ident fileInfos))"

definition Delete :: "fs \<Rightarrow> string \<Rightarrow> fatal + (error option \<times> fs)" where
  "Delete r ident =
     (case readFlowFolder r of
        Inl err \<Rightarrow> Inl (Fatal_readFlowFolder err)
      | Inr fileInfos \<Rightarrow> Delete_loop r ident fileInfos)"

text \<open>Modelled from the spec: the package \<open>timerange\<close> is not among the sources. The
  spec gives a range an optional \<open>since\<close> and an optional \<open>until\<close>, and the four states
  unbounded, since-only, until-only and since-and-until.\<close>

record TimeRange =
  Since :: "time option"
  Until :: "time option"

definition IsZero :: "TimeRange \<Rightarrow> bool" where
  "IsZero t = (Since t = None \<and> Until t = None)"

definition JustSince :: "TimeRange \<Rightarrow> bool" where
  "JustSince t = (Since t \<noteq> None \<and> Until t = None)"

definition JustUntil :: "TimeRange \<Rightarrow> bool" where
  "JustUntil t = (Since t = None \<and> Until t \<noteq> None)"

definition SinceAndUntil :: "TimeRange \<Rightarrow> bool" where
  "SinceAndUntil t = (Since t \<noteq> None \<and> Until t \<noteq> None)"

text \<open>\<open>application.SessionsFilters\<close>: its declaration is not among the sources;
  \<open>FindAllSessions\<close> reads its fields \<open>Timerange\<close> and \<open>Project\<close> (here with the prefix
  \<open>f_\<close>). A \<open>nil\<close> pointer is \<open>None\<close>.\<close>

record SessionsFilters =
  f_Timerange :: TimeRange
  f_Project :: string

text \<open>The two filters: the loop of each, with the slice it appends to.\<close>

fun filterByProject_loop :: "FileInfo list \<Rightarrow> FileInfo list \<Rightarrow> string \<Rightarrow> fatal + FileInfo list" where
  "filterByProject_loop filteredFileInfos [] project = Inr filteredFileInfos"
| "filterByProject_loop filteredFileInfos (fileInfo # fileInfos) project =
     (case parseSessionFileName (Name fileInfo) of
        Inl err \<Rightarrow> Inl (Fatal_parseFileName (Name fileInfo) err)
      | Inr sessionFilename \<Rightarrow>
          if fn_Project sessionFilename = project
          then filterByProject_loop (filteredFileInfos @ [fileInfo]) fileInfos project
          else filterByProject_loop filteredFileInfos fileInfos project)"

definition filterByProject :: "FileInfo list \<Rightarrow> string \<Rightarrow> fatal + FileInfo list" where
  "filterByProject fileInfos project = filterByProject_loop [] fileInfos project"

fun filterByTimeRange_loop :: "FileInfo list \<Rightarrow> FileInfo list \<Rightarrow> TimeRange \<Rightarrow> fatal + FileInfo list" where
  "filterByTimeRange_loop filteredFileInfos [] timeRange = Inr filteredFileInfos"
| "filterByTimeRange_loop filteredFileInfos (fileInfo # fileInfos) timeRange =
     (case parseSessionFileName (Name fileInfo) of
        Inl err \<Rightarrow> Inl (Fatal_parseFileName (Name fileInfo) err)
      | Inr sessionFilename \<Rightarrow>
          (let keep =
             (if JustUntil timeRange then
                (case Until timeRange of
                   Some until \<Rightarrow> Before (fn_StartTime sessionFilename) until
                 | None \<Rightarrow> False)
              else if JustSince timeRange then
                (case Since timeRange of
                   Some since \<Rightarrow> After (fn_StartTime sessionFilename) since
                 | None \<Rightarrow> False)
              else if SinceAndUntil timeRange then
                (case (Since timeRange, Until timeRange) of
                   (Some since, Some until) \<Rightarrow>
                     After (fn_StartTime sessionFilename) since \<and>
                     Before (fn_StartTime sessionFilename) until
                 | _ \<Rightarrow> False)
              else True)
           in filterByTimeRange_loop
                (if keep then filteredFileInfos @ [fileInfo] else filteredFileInfos)
                fileInfos timeRange))"

definition filterByTimeRange :: "FileInfo list \<Rightarrow> TimeRange \<Rightarrow> fatal + FileInfo list" where
  "filterByTimeRange fileInfos timeRange = filterByTimeRange_loop [] fileInfos timeRange"

text \<open>\<open>sort.Sort\<close> and \<open>sort.Slice\<close> order a slice by its \<open>less\<close> (here \<open>lt\<close>);
  neither promises to be stable. They are modelled by an insertion sort. The theorems
  below rest only on the result being ordered and having the elements of the input, which
  every sort gives, and the examples have no two equal start times.\<close>

fun insert_less :: "('a \<Rightarrow> 'a \<Rightarrow> bool) \<Rightarrow> 'a \<Rightarrow> 'a list \<Rightarrow> 'a list" where
  "insert_less lt x [] = [x]"
| "insert_less lt x (y # ys) = (if lt x y then x # y # ys else y # insert_less lt x ys)"

definition sort_less :: "('a \<Rightarrow> 'a \<Rightarrow> bool) \<Rightarrow> 'a list \<Rightarrow> 'a list" where
  "sort_less lt xs = foldl (\<lambda>sorted x. insert_less lt x sorted) [] xs"

text \<open>\<open>Sessions.Less\<close>, and \<open>sort.Sort(sessions)\<close>.\<close>

definition Less :: "Session \<Rightarrow> Session \<Rightarrow> bool" where
  "Less si sj = Before (StartTime si) (StartTime sj)"

definition sort_Sort :: "Session list \<Rightarrow> Session list" where
  "sort_Sort sessions = sort_less Less sessions"

text \<open>The block of \<open>FindAllSessions\<close> under \<open>if filters != nil\<close>.\<close>

definition FindAllSessions_filters ::
    "FileInfo list \<Rightarrow> SessionsFilters option \<Rightarrow> fatal + FileInfo list" where
  "FindAllSessions_filters fileInfos filters =
     (case filters of
        None \<Rightarrow> Inr fileInfos
      | Some f \<Rightarrow>
          (case (if \<not> IsZero (f_Timerange f) then filterByTimeRange fileInfos (f_Timerange f)
                 else Inr fileInfos) of
             Inl ft \<Rightarrow> Inl ft
           | Inr fileInfos1 \<Rightarrow>
               if f_Project f \<noteq> [] then filterByProject fileInfos1 (f_Project f)
               else Inr fileInfos1))"

text \<open>The loop of \<open>FindAllSessions\<close> over the entries the filters left, with the names
  read so far and the slice \<open>sessions\<close>.\<close>

fun FindAllSessions_loop ::
    "fs \<Rightarrow> string list \<Rightarrow> Session list \<Rightarrow> FileInfo list \<Rightarrow> Session list reading" where
  "FindAllSessions_loop r reads sessions [] = (reads, Inr sessions)"
| "FindAllSessions_loop r reads sessions (fileInfo # fileInfos) =
     (if IsDir fileInfo then FindAllSessions_loop r reads sessions fileInfos
      else (case os_ReadFile r (Name fileInfo) of
              Inl err \<Rightarrow> (reads @ [Name fileInfo], Inl (Fatal_readFile (Name fileInfo) err))
            | Inr file \<Rightarrow>
                (case rawFileToSession file of
                   Inl convertErr \<Rightarrow> (reads @ [Name fileInfo],
                       Inl (Fatal_invalidData (Name fileInfo)))
                 | Inr session \<Rightarrow>
                     FindAllSessions_loop r (reads @ [Name fileInfo]) (sessions @ [session]) fileInfos)))"

definition FindAllSessions :: "fs \<Rightarrow> SessionsFilters option \<Rightarrow> Session list reading" where
  "FindAllSessions r filters =
     (case readFlowFolder r of
        Inl err \<Rightarrow> ([], Inl (Fatal_readFlowFolder err))
      | Inr fileInfos \<Rightarrow>
          (case FindAllSessions_filters fileInfos filters of
             Inl ft \<Rightarrow> ([], Inl ft)
           | Inr fileInfos1 \<Rightarrow>
               (case FindAllSessions_loop r [] [] fileInfos1 of
                  (reads, Inl ft) \<Rightarrow> (reads, Inl ft)
                | (reads, Inr sessions) \<Rightarrow> (reads, Inr (sort_Sort sessions)))))"

text \<open>The first loop of \<open>FindLastSession\<close>, which decodes the names of the entries that
  are not directories.\<close>

fun FindLastSession_loop :: "SessionFilename list \<Rightarrow> FileInfo list \<Rightarrow> fatal + SessionFilename list" where
  "FindLastSession_loop fileNames [] = Inr fileNames"
| "FindLastSession_loop fileNames (fileInfo # fileInfos) =
     (if \<not> IsDir fileInfo
      then (case parseSessionFileName (Name fileInfo) of
              Inl err \<Rightarrow> Inl (Fatal_parseFileName (Name fileInfo) err)
            | Inr filenameInfo \<Rightarrow> FindLastSession_loop (fileNames @ [filenameInfo]) fileInfos)
      else FindLastSession_loop fileNames fileInfos)"

definition FindLastSession :: "fs \<Rightarrow> Session option reading" where
  "FindLastSession r =
     (case readFlowFolder r of
        Inl err \<Rightarrow> ([], Inl (Fatal_readFlowFolder err))
      | Inr fileInfos \<Rightarrow>
          (case FindLastSession_loop [] fileInfos of
             Inl ft \<Rightarrow> ([], Inl ft)
           | Inr fileNames \<Rightarrow>
               if length fileNames = 0 then ([], Inr None)
               else (let sorted = sort_less (\<lambda>fi fj. Before (fn_StartTime fj) (fn_StartTime fi)) fileNames;
                         lastSessionFile = String (hd sorted)
                     in case os_ReadFile r lastSessionFile of
                          Inl err \<Rightarrow> ([lastSessionFile], Inl (Fatal_readFile lastSessionFile err))
                        | Inr fileData \<Rightarrow>
                            (case rawFileToSession fileData of
                               Inl convertErr \<Rightarrow> ([lastSessionFile],
                                   Inl (Fatal_invalidData lastSessionFile))
                             | Inr session \<Rightarrow> ([lastSessionFile], Inr (Some session))))))"

text \<open>\<open>FindAllProjectTags\<close>: the tags of the sessions \<open>FindAllSessions\<close> returns for the
  project, each once, in the order of their first occurrence.\<close>

fun FindAllProjectTags_loop :: "string list \<Rightarrow> string list \<Rightarrow> string list" where
  "FindAllProjectTags_loop tags [] = tags"
| "FindAllProjectTags_loop tags (tag # rest) =
     (if tag \<in> set tags then FindAllProjectTags_loop tags rest
      else FindAllProjectTags_loop (tags @ [tag]) rest)"

definition FindAllProjectTags :: "fs \<Rightarrow> string \<Rightarrow> string list reading" where
  "FindAllProjectTags r project =
     (case FindAllSessions r (Some \<lparr>f_Timerange = \<lparr>Since = None, Until = None\<rparr>,
         f_Project = project\<rparr>) of
        (reads, Inl ft) \<Rightarrow> (reads, Inl ft)
      | (reads, Inr sessionsForProject) \<Rightarrow>
          (reads, Inr (FindAllProjectTags_loop [] (concat (map Tags sessionsForProject)))))"

subsection \<open>The start use case\<close>

text \<open>\<open>startsession.Command\<close>, with the fields the test of the use case sets (here with
  the prefix \<open>c_\<close>).\<close>

record Command =
  c_Project :: string
  c_Tags :: "string list"

text \<open>Modelled from the spec: the start use case is not among the sources (only its test
  is). The spec: query the store for the most recent session (\<open>findLast\<close>); if one exists
  and is still active, fail with \<open>SessionAlreadyStarted\<close>; otherwise construct a session
  with a freshly generated id, the current time and the command's project and tags, persist
  it with the store's \<open>save\<close> and return it. What makes a session still active (its end
  marker), the clock (the time \<open>now\<close> and its \<open>zone\<close>) and the id generator are outside the
  sources and are parameters here; \<open>place\<close> is handed to \<open>Save\<close>.\<close>

definition start ::
    "(Session \<Rightarrow> bool) \<Rightarrow> time \<Rightarrow> int \<Rightarrow> string \<Rightarrow> nat \<Rightarrow> fs \<Rightarrow> Command \<Rightarrow>
       (fatal + ((error + Session) \<times> fs)) option" where
  "start active now zone newId place r command =
     (case snd (FindLastSession r) of
        Inl ft \<Rightarrow> Some (Inl ft)
      | Inr lastSession \<Rightarrow>
          if (case lastSession of Some l \<Rightarrow> active l | None \<Rightarrow> False)
          then Some (Inr (Inl ErrSessionAlreadyStarted, r))
          else (let session = \<lparr>Id = newId, StartTime = now,
                                Project = c_Project command, Tags = c_Tags command\<rparr>
                in case Save place zone r session of
                     None \<Rightarrow> None
                   | Some (Some err, r') \<Rightarrow> Some (Inr (Inl err, r'))
                   | Some (None, r') \<Rightarrow> Some (Inr (Inr session, r'))))"

subsection \<open>The specification's words\<close>

text \<open>The spec's time-range test, for the comparison with \<open>filterByTimeRange\<close>: a start
  time is kept when it is strictly after \<open>since\<close>, if that is set, and strictly before
  \<open>until\<close>, if that is set.\<close>

definition spec_in_range :: "TimeRange \<Rightarrow> time \<Rightarrow> bool" where
  "spec_in_range timeRange t =
     ((case Since timeRange of None \<Rightarrow> True | Some since \<Rightarrow> After t since) \<and>
      (case Until timeRange of None \<Rightarrow> True | Some until \<Rightarrow> Before t until))"

text \<open>The start time a file name decodes to, if it decodes.\<close>

definition decoded_StartTime :: "string \<Rightarrow> time option" where
  "decoded_StartTime fileName =
     (case parseSessionFileName fileName of
        Inl err \<Rightarrow> None
      | Inr sessionFilename \<Rightarrow> Some (fn_StartTime sessionFilename))"

text \<open>The spec's \<open>findAll\<close> for a filter with a project and a time range: the project
  filter, then the time-range filter, both on the listing, then the files that are left
  are read and the sessions sorted.\<close>

definition spec_findAll :: "fs \<Rightarrow> string \<Rightarrow> TimeRange \<Rightarrow> Session list reading" where
  "spec_findAll r project timeRange =
     (case readFlowFolder r of
        Inl err \<Rightarrow> ([], Inl (Fatal_readFlowFolder err))
      | Inr entries \<Rightarrow>
          (case filterByProject entries project of
             Inl ft \<Rightarrow> ([], Inl ft)
           | Inr entries1 \<Rightarrow>
               (case filterByTimeRange entries1 timeRange of
                  Inl ft \<Rightarrow> ([], Inl ft)
                | Inr entries2 \<Rightarrow>
                    (case FindAllSessions_loop r [] [] entries2 of
                       (reads, Inl ft) \<Rightarrow> (reads, Inl ft)
                     | (reads, Inr sessions) \<Rightarrow> (reads, Inr (sort_Sort sessions))))))"

text \<open>A regular file of the folder whose name decodes to the id; the names of all
  regular files decode; and each is the encoding of what it decodes to, as the names are
  that \<open>Save\<close> writes.\<close>

definition file_with_id :: "string \<Rightarrow> string \<times> node \<Rightarrow> bool" where
  "file_with_id ident e =
     (case snd e of
        Dir \<Rightarrow> False
      | File b \<Rightarrow>
          (case parseSessionFileName (fst e) of
             Inl err \<Rightarrow> False
           | Inr sessionFilename \<Rightarrow> fn_Id sessionFilename = ident))"

definition names_decode :: "(string \<times> node) list \<Rightarrow> bool" where
  "names_decode es =
     list_all (\<lambda>e. case snd e of
                      Dir \<Rightarrow> True
                    | File b \<Rightarrow>
                        (case parseSessionFileName (fst e) of
                           Inl err \<Rightarrow> False
                         | Inr sessionFilename \<Rightarrow> True)) es"

definition names_canonical :: "(string \<times> node) list \<Rightarrow> bool" where
  "names_canonical es =
     list_all (\<lambda>e. case snd e of
                      Dir \<Rightarrow> True
                    | File b \<Rightarrow>
                        (case parseSessionFileName (fst e) of
                           Inl err \<Rightarrow> False
                         | Inr sessionFilename \<Rightarrow> String sessionFilename = fst e)) es"

text \<open>The bytes of every regular file deserialize; and the name of every entry, the
  subdirectories included, decodes.\<close>

definition bodies_decode :: "(string \<times> node) list \<Rightarrow> bool" where
  "bodies_decode es =
     list_all (\<lambda>e. case snd e of
                      Dir \<Rightarrow> True
                    | File b \<Rightarrow>
                        (case json_Unmarshal b of
                           Inl err \<Rightarrow> False
                         | Inr session \<Rightarrow> True)) es"

definition all_names_decode :: "(string \<times> node) list \<Rightarrow> bool" where
  "all_names_decode es =
     list_all (\<lambda>e. case parseSessionFileName (fst e) of
                      Inl err \<Rightarrow> False
                    | Inr sessionFilename \<Rightarrow> True) es"

text \<open>A file name that is one path element of at most 255 bytes, without a NUL byte.\<close>

definition plain_name :: "string \<Rightarrow> bool" where
  "plain_name name =
     (list_all (\<lambda>c. c \<noteq> CHR ''/'' \<and> of_char c \<noteq> (0 :: nat)) name \<and> length name \<le> 255)"

text \<open>A regular file of the folder that is a most recent one: its name decodes, and to a
  start time that no regular file's decoded start time is after.\<close>

definition latest_file :: "(string \<times> node) list \<Rightarrow> string \<times> node \<Rightarrow> bool" where
  "latest_file es e =
     (case snd e of
        Dir \<Rightarrow> False
      | File b \<Rightarrow>
          (case decoded_StartTime (fst e) of
             None \<Rightarrow> False
           | Some t \<Rightarrow>
               list_ex (\<lambda>e'. e' = e) es \<and>
               list_all (\<lambda>e'. case snd e' of
                                 Dir \<Rightarrow> True
                               | File b' \<Rightarrow>
                                   (case decoded_StartTime (fst e') of
                                      None \<Rightarrow> False
                                    | Some t' \<Rightarrow> \<not> Before t t')) es))"

text \<open>The session in a file's bytes is active, or is not; both fail on a subdirectory and
  on bytes that do not deserialize.\<close>

definition holds_active :: "(Session \<Rightarrow> bool) \<Rightarrow> string \<times> node \<Rightarrow> bool" where
  "holds_active active e =
     (case snd e of
        Dir \<Rightarrow> False
      | File b \<Rightarrow> (case json_Unmarshal b of Inl err \<Rightarrow> False | Inr l \<Rightarrow> active l))"

definition holds_ended :: "(Session \<Rightarrow> bool) \<Rightarrow> string \<times> node \<Rightarrow> bool" where
  "holds_ended active e =
     (case snd e of
        Dir \<Rightarrow> False
      | File b \<Rightarrow> (case json_Unmarshal b of Inl err \<Rightarrow> False | Inr l \<Rightarrow> \<not> active l))"

section \<open>Properties\<close>

subsection \<open>The file name codec\<close>

lemma Split_nonempty: "Split s c \<noteq> []"
  by (induction s) (auto split: list.splits)

lemma length_Split: "length (Split s c) = Suc (length (filter (\<lambda>x. x = c) s))"
  by (induction s) (auto split: list.splits simp: Split_nonempty)

lemma Split_no_sep: "c \<notin> set s \<Longrightarrow> Split s c = [s]"
  by (induction s) auto

lemma Split_append: "c \<notin> set a \<Longrightarrow> Split (a @ c # b) c = a # Split b c"
  by (induction a) auto

lemma TrimSuffix_append: "TrimSuffix (a @ suf) suf = a"
  by (simp add: TrimSuffix_def)

lemma is_digit_digit_of: "0 \<le> d \<Longrightarrow> d < 10 \<Longrightarrow> is_digit (digit_of d)"
  unfolding is_digit_def digit_of_def
  by (simp add: take_bit_eq_mod)

lemma of_char_digit_of: "0 \<le> d \<Longrightarrow> d < 10 \<Longrightarrow> (of_char (digit_of d) :: int) = 48 + d"
  unfolding digit_of_def by simp

lemma digits_is_digit: "0 \<le> n \<Longrightarrow> list_all is_digit (digits n)"
proof (induction n rule: digits.induct)
  case (1 n)
  show ?case
  proof (cases "n < 10")
    case True
    with 1 show ?thesis by (simp add: digits.simps [of n] is_digit_digit_of)
  next
    case False
    with 1 have "list_all is_digit (digits (n div 10))" by simp
    moreover have "is_digit (digit_of (n mod 10))" by (rule is_digit_digit_of) simp_all
    ultimately show ?thesis using False by (simp add: digits.simps [of n])
  qed
qed

lemma digits_nonempty: "digits n \<noteq> []"
  by (subst digits.simps) simp

lemma ParseUint_loop_append:
  "ParseUint_loop n (xs @ ys) =
     (case ParseUint_loop n xs of Inl e \<Rightarrow> Inl e | Inr m \<Rightarrow> ParseUint_loop m ys)"
  by (induction xs arbitrary: n) (auto simp: Let_def)

lemma ParseUint_loop_digits:
  "0 \<le> n \<Longrightarrow> n \<le> 18446744073709551615 \<Longrightarrow> ParseUint_loop 0 (digits n) = Inr n"
proof (induction n rule: digits.induct)
  case (1 n)
  show ?case
  proof (cases "n < 10")
    case True
    with 1 show ?thesis
      by (simp add: digits.simps [of n] is_digit_digit_of of_char_digit_of)
  next
    case False
    have d: "is_digit (digit_of (n mod 10))" by (rule is_digit_digit_of) simp_all
    have v: "(of_char (digit_of (n mod 10)) :: int) = 48 + n mod 10"
      by (rule of_char_digit_of) simp_all
    from 1 False have "ParseUint_loop 0 (digits (n div 10)) = Inr (n div 10)" by simp
    moreover from 1 have "n div 10 < 18446744073709551615 div 10 + 1" by simp
    ultimately show ?thesis using False d v 1(3)
      by (simp add: digits.simps [of n] ParseUint_loop_append)
  qed
qed

lemma is_digit_not_sign: "is_digit c \<Longrightarrow> c \<noteq> CHR ''-'' \<and> c \<noteq> CHR ''+''"
  by (auto simp: is_digit_def)

lemma hd_digits: "0 \<le> n \<Longrightarrow> hd (digits n) \<noteq> CHR ''-'' \<and> hd (digits n) \<noteq> CHR ''+''"
  using digits_is_digit [of n] digits_nonempty [of n] is_digit_not_sign
  by (cases "digits n") auto

lemma dash_notin_digits: "0 \<le> n \<Longrightarrow> CHR ''-'' \<notin> set (digits n)"
  using digits_is_digit [of n] is_digit_not_sign by (auto simp: list_all_iff)

lemma ParseInt_FormatInt: "ParseInt (FormatInt i) = Inr i"
proof (cases "sint i < 0")
  case True
  have lo: "- (2 ^ 63) \<le> sint i" using sint_ge [of i] by simp
  then have "ParseUint_loop 0 (digits (- sint i)) = Inr (- sint i)"
    using True by (intro ParseUint_loop_digits) simp_all
  then show ?thesis using True lo
    by (simp add: ParseInt_def FormatInt_def ParseUint_def digits_nonempty)
next
  case False
  have hi: "sint i < 2 ^ 63" using sint_lt [of i] by simp
  then have "ParseUint_loop 0 (digits (sint i)) = Inr (sint i)"
    using False by (intro ParseUint_loop_digits) simp_all
  then show ?thesis using False hi hd_digits [of "sint i"]
    by (simp add: ParseInt_def FormatInt_def ParseUint_def digits_nonempty)
qed

lemma is_alnum_not_dash: "is_alnum c \<Longrightarrow> c \<noteq> CHR ''-''"
  by (auto simp: is_alnum_def Let_def)

lemma ParseUint_loop_error: "ParseUint_loop n s = Inl e \<Longrightarrow> e = ErrSyntax \<or> e = ErrRange"
  by (induction s arbitrary: n) (auto simp: Let_def split: if_splits)

lemma ParseInt_error: "ParseInt s = Inl e \<Longrightarrow> e = ErrSyntax \<or> e = ErrRange"
  by (auto simp: ParseInt_def ParseUint_def Let_def split: if_splits sum.splits
      dest: ParseUint_loop_error)

lemma Split_three:
  assumes "CHR ''-'' \<notin> set a" "CHR ''-'' \<notin> set b" "CHR ''-'' \<notin> set c"
  shows "Split (a @ ''-'' @ b @ ''-'' @ c) CHR ''-'' = [a, b, c]"
  using assms by (simp add: Split_append Split_no_sep)

lemma parseSessionFileName_parts:
  assumes "CHR ''-'' \<notin> set a" "CHR ''-'' \<notin> set b" "CHR ''-'' \<notin> set c"
  shows "parseSessionFileName (a @ ''-'' @ b @ ''-'' @ c) =
     (case ParseInt (TrimSuffix c ''.json'') of
        Inl err \<Rightarrow> Inl err
      | Inr k \<Rightarrow> Inr \<lparr>fn_StartTime = time_Unix k 0, fn_Id = a, fn_Project = b\<rparr>)"
  unfolding parseSessionFileName_def Split_three [OF assms]
  by (simp add: Let_def split: sum.splits)

lemma parseSessionFileName_invalid_iff:
  "parseSessionFileName n = Inl InvalidSessionFileName \<longleftrightarrow> length (Split n CHR ''-'') \<noteq> 3"
  by (auto simp: parseSessionFileName_def Let_def split: sum.splits dest: ParseInt_error)

lemma dashes_getSessionFileName:
  "length (filter (\<lambda>x. x = CHR ''-'') (getSessionFileName s)) \<ge>
     2 + length (filter (\<lambda>x. x = CHR ''-'') (Id s))"
  by (simp add: getSessionFileName_def String_def)

lemma filter_dash_pos: "c \<in> set xs \<Longrightarrow> 0 < length (filter (\<lambda>x. x = c) xs)"
  by (induction xs) auto

text \<open>Claim C8. Decoding splits the file name on \<open>-\<close> (one part more than the name
  has dashes) and fails with \<open>InvalidSessionFileName\<close> exactly when that does not give
  three parts; on three parts it fails with the error of \<open>ParseInt\<close> when the third part,
  its suffix \<open>.json\<close> stripped, is not a base-10 integer, and decodes otherwise. So for
  every session whose id contains a \<open>-\<close>, decoding the name that encoding gives fails.\<close>

theorem parseSessionFileName_three_parts:
  "(parseSessionFileName fileName = Inl InvalidSessionFileName
      \<longleftrightarrow> length (Split fileName CHR ''-'') \<noteq> 3)
   \<and> length (Split fileName CHR ''-'') = length (filter (\<lambda>x. x = CHR ''-'') fileName) + 1
   \<and> (\<forall>a b c. fileName = a @ ''-'' @ b @ ''-'' @ c \<and> CHR ''-'' \<notin> set (a @ b @ c) \<longrightarrow>
         parseSessionFileName fileName =
           (case ParseInt (TrimSuffix c ''.json'') of
              Inl err \<Rightarrow> Inl err
            | Inr k \<Rightarrow> Inr \<lparr>fn_StartTime = time_Unix k 0, fn_Id = a, fn_Project = b\<rparr>))
   \<and> (CHR ''-'' \<in> set (Id s) \<longrightarrow>
         parseSessionFileName (getSessionFileName s) = Inl InvalidSessionFileName)"
proof (intro conjI allI impI)
  show "parseSessionFileName fileName = Inl InvalidSessionFileName
      \<longleftrightarrow> length (Split fileName CHR ''-'') \<noteq> 3"
    by (rule parseSessionFileName_invalid_iff)
  show "length (Split fileName CHR ''-'') = length (filter (\<lambda>x. x = CHR ''-'') fileName) + 1"
    by (simp add: length_Split)
next
  fix a b c
  assume "fileName = a @ ''-'' @ b @ ''-'' @ c \<and> CHR ''-'' \<notin> set (a @ b @ c)"
  then show "parseSessionFileName fileName =
           (case ParseInt (TrimSuffix c ''.json'') of
              Inl err \<Rightarrow> Inl err
            | Inr k \<Rightarrow> Inr \<lparr>fn_StartTime = time_Unix k 0, fn_Id = a, fn_Project = b\<rparr>)"
    using parseSessionFileName_parts [of a b c] by simp
next
  assume "CHR ''-'' \<in> set (Id s)"
  then have "0 < length (filter (\<lambda>x. x = CHR ''-'') (Id s))" by (rule filter_dash_pos)
  with dashes_getSessionFileName [of s]
  have "3 \<le> length (filter (\<lambda>x. x = CHR ''-'') (getSessionFileName s))" by linarith
  then have "length (Split (getSessionFileName s) CHR ''-'') \<noteq> 3"
    unfolding length_Split by linarith
  then show "parseSessionFileName (getSessionFileName s) = Inl InvalidSessionFileName"
    by (simp add: parseSessionFileName_invalid_iff)
qed

theorem parseSessionFileName_three_parts_witness:
  "parseSessionFileName ''1-Flow-10.json'' =
     Inr \<lparr>fn_StartTime = time_Unix 10 0, fn_Id = ''1'', fn_Project = ''Flow''\<rparr>
   \<and> parseSessionFileName ''1-Flow-ten.json'' = Inl ErrSyntax
   \<and> parseSessionFileName ''1-Flow.json'' = Inl InvalidSessionFileName
   \<and> CHR ''-'' \<in> set (Id \<lparr>Id = ''id-1'', StartTime = time_Unix 1713028800 0, Project = ''Flow'',
       Tags = [''start'']\<rparr>)
   \<and> parseSessionFileName (getSessionFileName
        \<lparr>Id = ''id-1'', StartTime = time_Unix 1713028800 0, Project = ''Flow'', Tags = [''start'']\<rparr>)
       = Inl InvalidSessionFileName"
proof -
  let ?s = "\<lparr>Id = ''id-1'', StartTime = time_Unix 1713028800 0, Project = ''Flow'',
      Tags = [''start'']\<rparr>"
  have i10: "ParseInt (TrimSuffix ''10.json'' ''.json'') = Inr 10" by code_simp
  have iten: "ParseInt (TrimSuffix ''ten.json'' ''.json'') = Inl ErrSyntax" by code_simp
  have l2: "length (Split ''1-Flow.json'' CHR ''-'') \<noteq> 3" by simp
  have d: "CHR ''-'' \<in> set (Id ?s)" by simp
  note t1 = parseSessionFileName_three_parts [of "''1-Flow-10.json''" ?s]
  note t2 = parseSessionFileName_three_parts [of "''1-Flow-ten.json''" ?s]
  note t3 = parseSessionFileName_three_parts [of "''1-Flow.json''" ?s]
  have a: "parseSessionFileName ''1-Flow-10.json'' =
     Inr \<lparr>fn_StartTime = time_Unix 10 0, fn_Id = ''1'', fn_Project = ''Flow''\<rparr>"
    using t1 [THEN conjunct2, THEN conjunct2, THEN conjunct1, rule_format,
        of "''1''" "''Flow''" "''10.json''"] i10
    by simp
  have b: "parseSessionFileName ''1-Flow-ten.json'' = Inl ErrSyntax"
    using t2 [THEN conjunct2, THEN conjunct2, THEN conjunct1, rule_format,
        of "''1''" "''Flow''" "''ten.json''"] iten
    by simp
  have c: "parseSessionFileName ''1-Flow.json'' = Inl InvalidSessionFileName"
    using t3 [THEN conjunct1] l2 by simp
  have e: "parseSessionFileName (getSessionFileName ?s) = Inl InvalidSessionFileName"
    using t1 [THEN conjunct2, THEN conjunct2, THEN conjunct2] d by blast
  from a b c d e show ?thesis by blast
qed

subsection \<open>The time-range filter\<close>

lemma filterByTimeRange_loop_decodable:
  assumes "list_all (\<lambda>fi. decoded_StartTime (Name fi) \<noteq> None) fileInfos"
  shows "filterByTimeRange_loop filtered fileInfos timeRange =
     Inr (filtered @ filter (\<lambda>fi. case decoded_StartTime (Name fi) of
                                     Some t \<Rightarrow> spec_in_range timeRange t
                                   | None \<Rightarrow> False) fileInfos)"
  using assms
proof (induction fileInfos arbitrary: filtered)
  case Nil
  then show ?case by simp
next
  case (Cons fi fis)
  then obtain sf where sf: "parseSessionFileName (Name fi) = Inr sf"
    by (auto simp: decoded_StartTime_def split: sum.splits)
  have keep: "(if JustUntil timeRange then
                (case Until timeRange of
                   Some until \<Rightarrow> Before (fn_StartTime sf) until
                 | None \<Rightarrow> False)
              else if JustSince timeRange then
                (case Since timeRange of
                   Some since \<Rightarrow> After (fn_StartTime sf) since
                 | None \<Rightarrow> False)
              else if SinceAndUntil timeRange then
                (case (Since timeRange, Until timeRange) of
                   (Some since, Some until) \<Rightarrow>
                     After (fn_StartTime sf) since \<and>
                     Before (fn_StartTime sf) until
                 | _ \<Rightarrow> False)
              else True) = spec_in_range timeRange (fn_StartTime sf)"
    by (cases "Since timeRange"; cases "Until timeRange")
       (simp_all add: JustUntil_def JustSince_def SinceAndUntil_def spec_in_range_def)
  from Cons.prems have rest: "list_all (\<lambda>fi. decoded_StartTime (Name fi) \<noteq> None) fis" by simp
  show ?case
    using sf Cons.IH [OF rest]
    by (simp add: keep decoded_StartTime_def Let_def del: filterByTimeRange_loop.simps
             add: filterByTimeRange_loop.simps(2))
qed

text \<open>Claim C4. On entries whose names all decode, the time-range filter keeps exactly
  those whose decoded start time is strictly after \<open>since\<close> (when set) and strictly before
  \<open>until\<close> (when set), in the order of the listing; a start time equal to a bound is not
  kept. With files at 10, 20 and 30 seconds: \<open>until = 25\<close> keeps 10 and 20, \<open>since = 15\<close>
  keeps 20 and 30, both keep 20, and the unbounded range keeps all three.\<close>

theorem filterByTimeRange_keeps_exactly:
  "(list_all (\<lambda>fi. decoded_StartTime (Name fi) \<noteq> None) fileInfos \<longrightarrow>
      filterByTimeRange fileInfos timeRange =
        Inr (filter (\<lambda>fi. case decoded_StartTime (Name fi) of
                             Some t \<Rightarrow> spec_in_range timeRange t
                           | None \<Rightarrow> False) fileInfos))
   \<and> (spec_in_range timeRange t \<longrightarrow> Since timeRange \<noteq> Some t \<and> Until timeRange \<noteq> Some t)
   \<and> filterByTimeRange
       [\<lparr>Name = ''a-Flow-10.json'', IsDir = False\<rparr>,
        \<lparr>Name = ''b-Flow-20.json'', IsDir = False\<rparr>,
        \<lparr>Name = ''c-Flow-30.json'', IsDir = False\<rparr>]
       \<lparr>Since = None, Until = Some (time_Unix 25 0)\<rparr>
     = Inr [\<lparr>Name = ''a-Flow-10.json'', IsDir = False\<rparr>,
        \<lparr>Name = ''b-Flow-20.json'', IsDir = False\<rparr>]
   \<and> filterByTimeRange
       [\<lparr>Name = ''a-Flow-10.json'', IsDir = False\<rparr>,
        \<lparr>Name = ''b-Flow-20.json'', IsDir = False\<rparr>,
        \<lparr>Name = ''c-Flow-30.json'', IsDir = False\<rparr>]
       \<lparr>Since = Some (time_Unix 15 0), Until = None\<rparr>
     = Inr [\<lparr>Name = ''b-Flow-20.json'', IsDir = False\<rparr>,
        \<lparr>Name = ''c-Flow-30.json'', IsDir = False\<rparr>]
   \<and> filterByTimeRange
       [\<lparr>Name = ''a-Flow-10.json'', IsDir = False\<rparr>,
        \<lparr>Name = ''b-Flow-20.json'', IsDir = False\<rparr>,
        \<lparr>Name = ''c-Flow-30.json'', IsDir = False\<rparr>]
       \<lparr>Since = Some (time_Unix 15 0), Until = Some (time_Unix 25 0)\<rparr>
     = Inr [\<lparr>Name = ''b-Flow-20.json'', IsDir = False\<rparr>]
   \<and> filterByTimeRange
       [\<lparr>Name = ''a-Flow-10.json'', IsDir = False\<rparr>,
        \<lparr>Name = ''b-Flow-20.json'', IsDir = False\<rparr>,
        \<lparr>Name = ''c-Flow-30.json'', IsDir = False\<rparr>]
       \<lparr>Since = None, Until = None\<rparr>
     = Inr [\<lparr>Name = ''a-Flow-10.json'', IsDir = False\<rparr>,
        \<lparr>Name = ''b-Flow-20.json'', IsDir = False\<rparr>,
        \<lparr>Name = ''c-Flow-30.json'', IsDir = False\<rparr>]"
proof (intro conjI impI)
  assume "list_all (\<lambda>fi. decoded_StartTime (Name fi) \<noteq> None) fileInfos"
  then show "filterByTimeRange fileInfos timeRange =
        Inr (filter (\<lambda>fi. case decoded_StartTime (Name fi) of
                             Some t \<Rightarrow> spec_in_range timeRange t
                           | None \<Rightarrow> False) fileInfos)"
    unfolding filterByTimeRange_def
    by (simp add: filterByTimeRange_loop_decodable)
next
  assume r: "spec_in_range timeRange t"
  show "Since timeRange \<noteq> Some t"
    using r by (auto simp: spec_in_range_def After_def)
  show "Until timeRange \<noteq> Some t"
    using r by (auto simp: spec_in_range_def Before_def)
next
  show "filterByTimeRange
       [\<lparr>Name = ''a-Flow-10.json'', IsDir = False\<rparr>,
        \<lparr>Name = ''b-Flow-20.json'', IsDir = False\<rparr>,
        \<lparr>Name = ''c-Flow-30.json'', IsDir = False\<rparr>]
       \<lparr>Since = None, Until = Some (time_Unix 25 0)\<rparr>
     = Inr [\<lparr>Name = ''a-Flow-10.json'', IsDir = False\<rparr>,
        \<lparr>Name = ''b-Flow-20.json'', IsDir = False\<rparr>]"
    by code_simp
  show "filterByTimeRange
       [\<lparr>Name = ''a-Flow-10.json'', IsDir = False\<rparr>,
        \<lparr>Name = ''b-Flow-20.json'', IsDir = False\<rparr>,
        \<lparr>Name = ''c-Flow-30.json'', IsDir = False\<rparr>]
       \<lparr>Since = Some (time_Unix 15 0), Until = None\<rparr>
     = Inr [\<lparr>Name = ''b-Flow-20.json'', IsDir = False\<rparr>,
        \<lparr>Name = ''c-Flow-30.json'', IsDir = False\<rparr>]"
    by code_simp
  show "filterByTimeRange
       [\<lparr>Name = ''a-Flow-10.json'', IsDir = False\<rparr>,
        \<lparr>Name = ''b-Flow-20.json'', IsDir = False\<rparr>,
        \<lparr>Name = ''c-Flow-30.json'', IsDir = False\<rparr>]
       \<lparr>Since = Some (time_Unix 15 0), Until = Some (time_Unix 25 0)\<rparr>
     = Inr [\<lparr>Name = ''b-Flow-20.json'', IsDir = False\<rparr>]"
    by code_simp
  show "filterByTimeRange
       [\<lparr>Name = ''a-Flow-10.json'', IsDir = False\<rparr>,
        \<lparr>Name = ''b-Flow-20.json'', IsDir = False\<rparr>,
        \<lparr>Name = ''c-Flow-30.json'', IsDir = False\<rparr>]
       \<lparr>Since = None, Until = None\<rparr>
     = Inr [\<lparr>Name = ''a-Flow-10.json'', IsDir = False\<rparr>,
        \<lparr>Name = ''b-Flow-20.json'', IsDir = False\<rparr>,
        \<lparr>Name = ''c-Flow-30.json'', IsDir = False\<rparr>]"
    by code_simp
qed

theorem filterByTimeRange_keeps_exactly_witness:
  "list_all (\<lambda>fi. decoded_StartTime (Name fi) \<noteq> None)
       [\<lparr>Name = ''a-Flow-10.json'', IsDir = False\<rparr>,
        \<lparr>Name = ''b-Flow-20.json'', IsDir = False\<rparr>,
        \<lparr>Name = ''c-Flow-30.json'', IsDir = False\<rparr>]
   \<and> filterByTimeRange
       [\<lparr>Name = ''a-Flow-10.json'', IsDir = False\<rparr>,
        \<lparr>Name = ''b-Flow-20.json'', IsDir = False\<rparr>,
        \<lparr>Name = ''c-Flow-30.json'', IsDir = False\<rparr>]
       \<lparr>Since = Some (time_Unix 15 0), Until = Some (time_Unix 25 0)\<rparr>
     = Inr [\<lparr>Name = ''b-Flow-20.json'', IsDir = False\<rparr>]"
proof -
  let ?fis = "[\<lparr>Name = ''a-Flow-10.json'', IsDir = False\<rparr>,
        \<lparr>Name = ''b-Flow-20.json'', IsDir = False\<rparr>,
        \<lparr>Name = ''c-Flow-30.json'', IsDir = False\<rparr>]"
  let ?tr = "\<lparr>Since = Some (time_Unix 15 0), Until = Some (time_Unix 25 0)\<rparr>"
  have d: "list_all (\<lambda>fi. decoded_StartTime (Name fi) \<noteq> None) ?fis"
    by code_simp
  have f: "filter (\<lambda>fi. case decoded_StartTime (Name fi) of
                             Some t \<Rightarrow> spec_in_range ?tr t
                           | None \<Rightarrow> False) ?fis = [\<lparr>Name = ''b-Flow-20.json'', IsDir = False\<rparr>]"
    by code_simp
  from filterByTimeRange_keeps_exactly [of ?fis ?tr, THEN conjunct1, rule_format, OF d]
  have "filterByTimeRange ?fis ?tr = Inr [\<lparr>Name = ''b-Flow-20.json'', IsDir = False\<rparr>]"
    unfolding f .
  with d show ?thesis by simp
qed

subsection \<open>The filters of \<open>FindAllSessions\<close>\<close>

lemma filterByProject_loop_eq:
  "filterByProject_loop filtered fileInfos project =
     (case find (\<lambda>fi. isl (parseSessionFileName (Name fi))) fileInfos of
        Some fi \<Rightarrow> Inl (Fatal_parseFileName (Name fi) (projl (parseSessionFileName (Name fi))))
      | None \<Rightarrow>
          Inr (filtered @
               filter (\<lambda>fi. fn_Project (projr (parseSessionFileName (Name fi))) = project) fileInfos))"
proof (induction fileInfos arbitrary: filtered)
  case Nil
  then show ?case by simp
next
  case (Cons fi fis)
  show ?case
    by (cases "parseSessionFileName (Name fi)") (simp_all add: Cons.IH split: option.splits)
qed

lemma filterByTimeRange_loop_eq:
  "filterByTimeRange_loop filtered fileInfos timeRange =
     (case find (\<lambda>fi. isl (parseSessionFileName (Name fi))) fileInfos of
        Some fi \<Rightarrow> Inl (Fatal_parseFileName (Name fi) (projl (parseSessionFileName (Name fi))))
      | None \<Rightarrow>
          Inr (filtered @
               filter (\<lambda>fi. spec_in_range timeRange
                              (fn_StartTime (projr (parseSessionFileName (Name fi))))) fileInfos))"
proof (induction fileInfos arbitrary: filtered)
  case Nil
  then show ?case by simp
next
  case (Cons fi fis)
  show ?case
  proof (cases "parseSessionFileName (Name fi)")
    case (Inl e)
    then show ?thesis by simp
  next
    case (Inr sf)
    have keep: "(if JustUntil timeRange then
                (case Until timeRange of
                   Some until \<Rightarrow> Before (fn_StartTime sf) until
                 | None \<Rightarrow> False)
              else if JustSince timeRange then
                (case Since timeRange of
                   Some since \<Rightarrow> After (fn_StartTime sf) since
                 | None \<Rightarrow> False)
              else if SinceAndUntil timeRange then
                (case (Since timeRange, Until timeRange) of
                   (Some since, Some until) \<Rightarrow>
                     After (fn_StartTime sf) since \<and>
                     Before (fn_StartTime sf) until
                 | _ \<Rightarrow> False)
              else True) = spec_in_range timeRange (fn_StartTime sf)"
      by (cases "Since timeRange"; cases "Until timeRange")
         (simp_all add: JustUntil_def JustSince_def SinceAndUntil_def spec_in_range_def)
    show ?thesis
      using Inr by (simp add: keep Cons.IH Let_def split: option.splits)
  qed
qed

lemma find_filter_None:
  "find P xs = None \<Longrightarrow> find P (filter Q xs) = None"
  by (auto simp: find_None_iff)

lemma filters_commute:
  "(case filterByTimeRange fileInfos timeRange of
      Inl ft \<Rightarrow> Inl ft
    | Inr fileInfos1 \<Rightarrow> filterByProject fileInfos1 project) =
   (case filterByProject fileInfos project of
      Inl ft \<Rightarrow> Inl ft
    | Inr fileInfos1 \<Rightarrow> filterByTimeRange fileInfos1 timeRange)"
proof (cases "find (\<lambda>fi. isl (parseSessionFileName (Name fi))) fileInfos")
  case None
  then show ?thesis
    unfolding filterByTimeRange_def filterByProject_def
      filterByProject_loop_eq filterByTimeRange_loop_eq
    by (auto simp: find_filter_None intro!: filter_cong)
next
  case (Some fi)
  then show ?thesis
    unfolding filterByTimeRange_def filterByProject_def
      filterByProject_loop_eq filterByTimeRange_loop_eq
    by simp
qed

lemma find_undecodable:
  assumes "fi \<in> set fileInfos" "parseSessionFileName (Name fi) = Inl e"
  shows "\<exists>fj. find (\<lambda>fi. isl (parseSessionFileName (Name fi))) fileInfos = Some fj"
proof (cases "find (\<lambda>fi. isl (parseSessionFileName (Name fi))) fileInfos")
  case None
  with assms show ?thesis by (auto simp: find_None_iff)
next
  case (Some fj)
  then show ?thesis by simp
qed

lemma FindAllSessions_loop_reads:
  "set (fst (FindAllSessions_loop r reads sessions fileInfos)) \<subseteq> set reads \<union> Name ` set fileInfos"
proof (induction fileInfos arbitrary: reads sessions)
  case Nil
  then show ?case by simp
next
  case (Cons fi fis)
  show ?case
  proof (cases "IsDir fi")
    case True
    then show ?thesis using Cons.IH [of reads sessions] by auto
  next
    case False
    show ?thesis
    proof (cases "os_ReadFile r (Name fi)")
      case (Inl e)
      with False show ?thesis by auto
    next
      case (Inr bytes)
      show ?thesis
      proof (cases "rawFileToSession bytes")
        case (Inl e)
        with False Inr show ?thesis by auto
      next
        case s: (Inr session)
        with False Inr Cons.IH [of "reads @ [Name fi]" "sessions @ [session]"]
        show ?thesis by auto
      qed
    qed
  qed
qed

lemma FindAllSessions_both_filters:
  assumes "f_Project f \<noteq> []" "\<not> IsZero (f_Timerange f)"
  shows "FindAllSessions r (Some f) = spec_findAll r (f_Project f) (f_Timerange f)"
proof (cases "readFlowFolder r")
  case (Inl e)
  then show ?thesis by (simp add: FindAllSessions_def spec_findAll_def)
next
  case (Inr fileInfos)
  have "FindAllSessions_filters fileInfos (Some f) =
      (case filterByTimeRange fileInfos (f_Timerange f) of
         Inl ft \<Rightarrow> Inl ft
       | Inr fileInfos1 \<Rightarrow> filterByProject fileInfos1 (f_Project f))"
    using assms by (simp add: FindAllSessions_filters_def split: sum.splits)
  also have "\<dots> =
      (case filterByProject fileInfos (f_Project f) of
         Inl ft \<Rightarrow> Inl ft
       | Inr fileInfos1 \<Rightarrow> filterByTimeRange fileInfos1 (f_Timerange f))"
    by (rule filters_commute)
  finally have "FindAllSessions_filters fileInfos (Some f) =
      (case filterByProject fileInfos (f_Project f) of
         Inl ft \<Rightarrow> Inl ft
       | Inr fileInfos1 \<Rightarrow> filterByTimeRange fileInfos1 (f_Timerange f))" .
  then show ?thesis
    using Inr by (simp add: FindAllSessions_def spec_findAll_def split: sum.splits)
qed

lemma FindAllSessions_reads_filtered:
  assumes "f_Project f \<noteq> []" "\<not> IsZero (f_Timerange f)"
  shows "list_all (\<lambda>n. case parseSessionFileName n of
                          Inl err \<Rightarrow> False
                        | Inr sf \<Rightarrow> fn_Project sf = f_Project f \<and>
                                    spec_in_range (f_Timerange f) (fn_StartTime sf))
           (fst (FindAllSessions r (Some f)))"
proof -
  let ?ok = "\<lambda>n. case parseSessionFileName n of
                          Inl err \<Rightarrow> False
                        | Inr sf \<Rightarrow> fn_Project sf = f_Project f \<and>
                                    spec_in_range (f_Timerange f) (fn_StartTime sf)"
  let ?bad = "\<lambda>fi. isl (parseSessionFileName (Name fi))"
  show ?thesis
  proof (cases "readFlowFolder r")
    case (Inl e)
    then show ?thesis
      by (simp add: FindAllSessions_both_filters [OF assms] spec_findAll_def)
  next
    case (Inr entries)
    show ?thesis
    proof (cases "find ?bad entries")
      case (Some fi)
      then show ?thesis
        using Inr
        by (simp add: FindAllSessions_both_filters [OF assms] spec_findAll_def
            filterByProject_def filterByProject_loop_eq)
    next
      case None
      define entries1 where
        "entries1 = filter (\<lambda>fi. fn_Project (projr (parseSessionFileName (Name fi))) = f_Project f) entries"
      define entries2 where
        "entries2 = filter (\<lambda>fi. spec_in_range (f_Timerange f)
                       (fn_StartTime (projr (parseSessionFileName (Name fi))))) entries1"
      have p: "filterByProject entries (f_Project f) = Inr entries1"
        using None by (simp add: filterByProject_def filterByProject_loop_eq entries1_def)
      have "find ?bad entries1 = None"
        unfolding entries1_def using None by (rule find_filter_None)
      then have t: "filterByTimeRange entries1 (f_Timerange f) = Inr entries2"
        by (simp add: filterByTimeRange_def filterByTimeRange_loop_eq entries2_def)
      have ok: "?ok (Name fi)" if "fi \<in> set entries2" for fi
      proof -
        from that have m: "fi \<in> set entries"
          and a: "fn_Project (projr (parseSessionFileName (Name fi))) = f_Project f"
          and b: "spec_in_range (f_Timerange f) (fn_StartTime (projr (parseSessionFileName (Name fi))))"
          by (auto simp: entries2_def entries1_def)
        from None m have "\<not> isl (parseSessionFileName (Name fi))"
          by (auto simp: find_None_iff)
        then obtain sf where "parseSessionFileName (Name fi) = Inr sf"
          by (cases "parseSessionFileName (Name fi)") auto
        with a b show ?thesis by simp
      qed
      have "set (fst (FindAllSessions_loop r [] [] entries2)) \<subseteq> Name ` set entries2"
        using FindAllSessions_loop_reads [of r "[]" "[]" entries2] by simp
      then have l: "list_all ?ok (fst (FindAllSessions_loop r [] [] entries2))"
        using ok by (auto simp: list_all_iff)
      obtain reads res where L: "FindAllSessions_loop r [] [] entries2 = (reads, res)"
        by (cases "FindAllSessions_loop r [] [] entries2") auto
      have "fst (FindAllSessions r (Some f)) = reads"
        using Inr p t L
        by (cases res) (simp_all add: FindAllSessions_both_filters [OF assms] spec_findAll_def)
      with l L show ?thesis by simp
    qed
  qed
qed

text \<open>Claim C9. For a filter with a project and a time range, \<open>FindAllSessions\<close> is the
  spec's pipeline: the project filter, then the time-range filter, both on the names of
  the listing, then the reading of what is left. No file is read when a filter fails, and
  every file that is read has a name that passes both filters. (The source calls the
  time-range filter before the project filter; the two orders give the same result, also
  when a name does not decode, by \<open>filters_commute\<close>.)\<close>

theorem FindAllSessions_project_then_timerange:
  "f_Project f \<noteq> [] \<and> \<not> IsZero (f_Timerange f) \<longrightarrow>
     FindAllSessions r (Some f) = spec_findAll r (f_Project f) (f_Timerange f) \<and>
     list_all (\<lambda>n. case parseSessionFileName n of
                      Inl err \<Rightarrow> False
                    | Inr sf \<Rightarrow> fn_Project sf = f_Project f \<and>
                                spec_in_range (f_Timerange f) (fn_StartTime sf))
       (fst (FindAllSessions r (Some f)))"
  using FindAllSessions_both_filters [of f r] FindAllSessions_reads_filtered [of f r]
  by blast

theorem FindAllSessions_project_then_timerange_witness:
  "f_Project \<lparr>f_Timerange = \<lparr>Since = Some (time_Unix 15 0), Until = Some (time_Unix 25 0)\<rparr>,
         f_Project = ''Flow''\<rparr> \<noteq> []
   \<and> \<not> IsZero (f_Timerange \<lparr>f_Timerange = \<lparr>Since = Some (time_Unix 15 0),
       Until = Some (time_Unix 25 0)\<rparr>,
         f_Project = ''Flow''\<rparr>)
   \<and> FindAllSessions (Folder [(''a-Flow-10.json'', File (Marshaled \<lparr>Id = ''a'',
       StartTime = time_Unix 10 0, Project = ''Flow'', Tags = []\<rparr>)),
              (''b-Flow-20.json'', File (Marshaled \<lparr>Id = ''b'', StartTime = time_Unix 20 0,
                  Project = ''Flow'', Tags = []\<rparr>)),
              (''c-Other-20.json'', File (Marshaled \<lparr>Id = ''c'', StartTime = time_Unix 20 0,
                  Project = ''Other'',
                  Tags = []\<rparr>))]) (Some \<lparr>f_Timerange = \<lparr>Since = Some (time_Unix 15 0),
                  Until = Some (time_Unix 25 0)\<rparr>,
         f_Project = ''Flow''\<rparr>) = spec_findAll (Folder [(''a-Flow-10.json'',
             File (Marshaled \<lparr>Id = ''a'', StartTime = time_Unix 10 0, Project = ''Flow'',
             Tags = []\<rparr>)),
              (''b-Flow-20.json'', File (Marshaled \<lparr>Id = ''b'', StartTime = time_Unix 20 0,
                  Project = ''Flow'', Tags = []\<rparr>)),
              (''c-Other-20.json'', File (Marshaled \<lparr>Id = ''c'', StartTime = time_Unix 20 0,
                  Project = ''Other'', Tags = []\<rparr>))]) ''Flow'' \<lparr>Since = Some (time_Unix 15 0),
                  Until = Some (time_Unix 25 0)\<rparr>
   \<and> spec_findAll (Folder [(''a-Flow-10.json'', File (Marshaled \<lparr>Id = ''a'',
       StartTime = time_Unix 10 0, Project = ''Flow'', Tags = []\<rparr>)),
              (''b-Flow-20.json'', File (Marshaled \<lparr>Id = ''b'', StartTime = time_Unix 20 0,
                  Project = ''Flow'', Tags = []\<rparr>)),
              (''c-Other-20.json'', File (Marshaled \<lparr>Id = ''c'', StartTime = time_Unix 20 0,
                  Project = ''Other'', Tags = []\<rparr>))]) ''Flow'' \<lparr>Since = Some (time_Unix 15 0),
                  Until = Some (time_Unix 25 0)\<rparr>
       = ([''b-Flow-20.json''], Inr [\<lparr>Id = ''b'', StartTime = time_Unix 20 0, Project = ''Flow'',
           Tags = []\<rparr>])"
proof -
  let ?f = "\<lparr>f_Timerange = \<lparr>Since = Some (time_Unix 15 0), Until = Some (time_Unix 25 0)\<rparr>,
         f_Project = ''Flow''\<rparr>"
  let ?r = "(Folder [(''a-Flow-10.json'', File (Marshaled \<lparr>Id = ''a'',
      StartTime = time_Unix 10 0, Project = ''Flow'', Tags = []\<rparr>)),
              (''b-Flow-20.json'', File (Marshaled \<lparr>Id = ''b'', StartTime = time_Unix 20 0,
                  Project = ''Flow'', Tags = []\<rparr>)),
              (''c-Other-20.json'', File (Marshaled \<lparr>Id = ''c'', StartTime = time_Unix 20 0,
                  Project = ''Other'', Tags = []\<rparr>))])"
  have a: "f_Project ?f \<noteq> []" by simp
  have b: "\<not> IsZero (f_Timerange ?f)" by (simp add: IsZero_def)
  have c: "spec_findAll ?r ''Flow'' \<lparr>Since = Some (time_Unix 15 0), Until = Some (time_Unix 25 0)\<rparr>
       = ([''b-Flow-20.json''], Inr [\<lparr>Id = ''b'', StartTime = time_Unix 20 0, Project = ''Flow'',
           Tags = []\<rparr>])"
    by code_simp
  from FindAllSessions_project_then_timerange [of ?f ?r] a b
  have "FindAllSessions ?r (Some ?f) = spec_findAll ?r (f_Project ?f) (f_Timerange ?f)"
    by blast
  then have d: "FindAllSessions ?r (Some ?f) =
      spec_findAll ?r ''Flow'' \<lparr>Since = Some (time_Unix 15 0), Until = Some (time_Unix 25 0)\<rparr>"
    by simp
  from a b c d show ?thesis by blast
qed

subsection \<open>Directories in the listing\<close>

lemma readFlowFolder_Folder:
  "readFlowFolder (Folder es) = Inr (map (\<lambda>(n, nd). \<lparr>Name = n, IsDir = (nd = Dir)\<rparr>) es)"
  by (simp add: readFlowFolder_def)

lemma os_ReadFile_File:
  "distinct (map fst es) \<Longrightarrow> (n, File b) \<in> set es \<Longrightarrow> os_ReadFile (Folder es) n = Inr b"
  by (simp add: os_ReadFile_def)

lemma FindAllSessions_loop_skips_dirs:
  assumes "\<And>fi. fi \<in> set fileInfos \<Longrightarrow> \<not> IsDir fi \<Longrightarrow>
             os_ReadFile r (Name fi) = os_ReadFile r' (Name fi)"
  shows "FindAllSessions_loop r reads sessions fileInfos =
         FindAllSessions_loop r' reads sessions (filter (\<lambda>fi. \<not> IsDir fi) fileInfos)"
  using assms
proof (induction fileInfos arbitrary: reads sessions)
  case Nil
  then show ?case by simp
next
  case (Cons fi fis)
  have rest: "\<And>reads sessions. FindAllSessions_loop r reads sessions fis =
         FindAllSessions_loop r' reads sessions (filter (\<lambda>fi. \<not> IsDir fi) fis)"
    using Cons.prems by (intro Cons.IH) simp_all
  show ?case
  proof (cases "IsDir fi")
    case True
    then show ?thesis by (simp add: rest)
  next
    case False
    then have "os_ReadFile r (Name fi) = os_ReadFile r' (Name fi)"
      using Cons.prems by simp
    then show ?thesis
      using False by (simp add: rest split: sum.splits)
  qed
qed

lemma FindAllSessions_no_filter_skips_dirs:
  assumes "distinct (map fst es)"
  shows "FindAllSessions (Folder es) None =
         FindAllSessions (Folder (filter (\<lambda>(n, nd). nd \<noteq> Dir) es)) None"
proof -
  let ?mk = "\<lambda>(n, nd). \<lparr>Name = n, IsDir = (nd = Dir)\<rparr>"
  let ?es' = "filter (\<lambda>(n, nd). nd \<noteq> Dir) es"
  have d': "distinct (map fst ?es')"
    using assms by (rule distinct_map_filter)
  have same: "os_ReadFile (Folder es) (Name fi) = os_ReadFile (Folder ?es') (Name fi)"
    if "fi \<in> set (map ?mk es)" "\<not> IsDir fi" for fi
  proof -
    from that obtain n nd where m: "(n, nd) \<in> set es" and fi: "fi = ?mk (n, nd)" by auto
    with that(2) obtain b where nd: "nd = File b" by (cases nd) auto
    from m nd have "(n, File b) \<in> set ?es'" by simp
    with d' have "os_ReadFile (Folder ?es') n = Inr b" by (rule os_ReadFile_File)
    moreover from assms m nd have "os_ReadFile (Folder es) n = Inr b"
      by (simp add: os_ReadFile_File)
    ultimately show ?thesis using fi by simp
  qed
  have l: "filter (\<lambda>fi. \<not> IsDir fi) (map ?mk es) = map ?mk ?es'"
    by (induction es) auto
  have "FindAllSessions_loop (Folder es) [] [] (map ?mk es) =
        FindAllSessions_loop (Folder ?es') [] [] (map ?mk ?es')"
    using FindAllSessions_loop_skips_dirs [of "map ?mk es" "Folder es" "Folder ?es'" "[]" "[]"] same
    unfolding l by blast
  then show ?thesis
    by (simp add: FindAllSessions_def readFlowFolder_Folder FindAllSessions_filters_def)
qed

lemma FindAllSessions_filters_fails:
  assumes "fi \<in> set fileInfos" "parseSessionFileName (Name fi) = Inl e"
    and "\<not> IsZero (f_Timerange f) \<or> f_Project f \<noteq> []"
  shows "\<exists>n err. FindAllSessions_filters fileInfos (Some f) = Inl (Fatal_parseFileName n err)"
proof -
  from find_undecodable [OF assms(1,2)] obtain fj where
    fj: "find (\<lambda>fi. isl (parseSessionFileName (Name fi))) fileInfos = Some fj" by blast
  show ?thesis
  proof (cases "IsZero (f_Timerange f)")
    case True
    with assms(3) have "f_Project f \<noteq> []" by simp
    with True fj show ?thesis
      by (simp add: FindAllSessions_filters_def filterByProject_def filterByProject_loop_eq)
  next
    case False
    with fj show ?thesis
      by (simp add: FindAllSessions_filters_def filterByTimeRange_def filterByTimeRange_loop_eq)
  qed
qed

text \<open>Claim C10. \<open>FindAllSessions\<close> skips directories only in its reading loop. With a
  time range or a project in the filter, the filter decodes the name of every entry of
  the listing, subdirectories too: a subdirectory whose name does not decode makes the
  call end in \<open>log.Fatalf\<close>, before any file is read. Without a filter the same folder
  gives what it gives without its subdirectories.\<close>

theorem FindAllSessions_filters_decode_directories:
  "distinct (map fst es) \<and> (d, Dir) \<in> set es \<and> parseSessionFileName d = Inl e \<longrightarrow>
     ((\<not> IsZero (f_Timerange f) \<or> f_Project f \<noteq> []) \<longrightarrow>
        (\<exists>n err. FindAllSessions (Folder es) (Some f) = ([], Inl (Fatal_parseFileName n err))))
     \<and> FindAllSessions (Folder es) None =
         FindAllSessions (Folder (filter (\<lambda>(n, nd). nd \<noteq> Dir) es)) None"
proof (intro impI conjI)
  assume h: "distinct (map fst es) \<and> (d, Dir) \<in> set es \<and> parseSessionFileName d = Inl e"
  then show "FindAllSessions (Folder es) None =
         FindAllSessions (Folder (filter (\<lambda>(n, nd). nd \<noteq> Dir) es)) None"
    by (simp add: FindAllSessions_no_filter_skips_dirs)
  assume f: "\<not> IsZero (f_Timerange f) \<or> f_Project f \<noteq> []"
  let ?fis = "map (\<lambda>(n, nd). \<lparr>Name = n, IsDir = (nd = Dir)\<rparr>) es"
  from h have "\<lparr>Name = d, IsDir = True\<rparr> \<in> set ?fis" by force
  moreover from h have "parseSessionFileName (Name \<lparr>Name = d, IsDir = True\<rparr>) = Inl e" by simp
  ultimately obtain n err where
    "FindAllSessions_filters ?fis (Some f) = Inl (Fatal_parseFileName n err)"
    using FindAllSessions_filters_fails [OF _ _ f] by blast
  then have "FindAllSessions (Folder es) (Some f) = ([], Inl (Fatal_parseFileName n err))"
    by (simp add: FindAllSessions_def readFlowFolder_Folder)
  then show "\<exists>n err. FindAllSessions (Folder es) (Some f) = ([], Inl (Fatal_parseFileName n err))"
    by blast
qed

theorem FindAllSessions_filters_decode_directories_witness:
  "distinct (map fst [(''1-Flow-10.json'', File (Marshaled \<lparr>Id = ''1'',
      StartTime = time_Unix 10 0, Project = ''Flow'', Tags = [''start'']\<rparr>)),
         (''archive'', Dir)])
   \<and> (''archive'', Dir) \<in> set [(''1-Flow-10.json'', File (Marshaled \<lparr>Id = ''1'',
       StartTime = time_Unix 10 0, Project = ''Flow'', Tags = [''start'']\<rparr>)),
         (''archive'', Dir)]
   \<and> parseSessionFileName ''archive'' = Inl InvalidSessionFileName
   \<and> (\<exists>n err. FindAllSessions (Folder [(''1-Flow-10.json'', File (Marshaled \<lparr>Id = ''1'',
       StartTime = time_Unix 10 0, Project = ''Flow'', Tags = [''start'']\<rparr>)),
         (''archive'', Dir)]) (Some \<lparr>f_Timerange = \<lparr>Since = None, Until = None\<rparr>,
             f_Project = ''Flow''\<rparr>) = ([], Inl (Fatal_parseFileName n err)))
   \<and> FindAllSessions (Folder [(''1-Flow-10.json'', File (Marshaled \<lparr>Id = ''1'',
       StartTime = time_Unix 10 0, Project = ''Flow'', Tags = [''start'']\<rparr>)),
         (''archive'', Dir)]) None = FindAllSessions (Folder [(''1-Flow-10.json'',
             File (Marshaled \<lparr>Id = ''1'', StartTime = time_Unix 10 0, Project = ''Flow'',
             Tags = [''start'']\<rparr>))]) None
   \<and> FindAllSessions (Folder [(''1-Flow-10.json'', File (Marshaled \<lparr>Id = ''1'',
       StartTime = time_Unix 10 0, Project = ''Flow'',
       Tags = [''start'']\<rparr>))]) None = ([''1-Flow-10.json''], Inr [\<lparr>Id = ''1'',
       StartTime = time_Unix 10 0, Project = ''Flow'', Tags = [''start'']\<rparr>])"
proof -
  let ?es = "[(''1-Flow-10.json'', File (Marshaled \<lparr>Id = ''1'', StartTime = time_Unix 10 0,
      Project = ''Flow'', Tags = [''start'']\<rparr>)),
         (''archive'', Dir)]"
  let ?f = "\<lparr>f_Timerange = \<lparr>Since = None, Until = None\<rparr>, f_Project = ''Flow''\<rparr>"
  have a: "distinct (map fst ?es)" by simp
  have b: "(''archive'', Dir) \<in> set ?es" by simp
  have c: "parseSessionFileName ''archive'' = Inl InvalidSessionFileName" by code_simp
  have d: "\<not> IsZero (f_Timerange ?f) \<or> f_Project ?f \<noteq> []" by simp
  note t = FindAllSessions_filters_decode_directories
    [of ?es "''archive''" InvalidSessionFileName ?f, rule_format, OF conjI [OF a conjI [OF b c]]]
  from t [THEN conjunct1, rule_format, OF d]
  have e: "\<exists>n err. FindAllSessions (Folder ?es) (Some ?f) = ([], Inl (Fatal_parseFileName n err))" .
  from t [THEN conjunct2]
  have g: "FindAllSessions (Folder ?es) None = FindAllSessions (Folder [(''1-Flow-10.json'',
      File (Marshaled \<lparr>Id = ''1'', StartTime = time_Unix 10 0, Project = ''Flow'',
      Tags = [''start'']\<rparr>))]) None"
    by simp
  have h: "FindAllSessions (Folder [(''1-Flow-10.json'', File (Marshaled \<lparr>Id = ''1'',
      StartTime = time_Unix 10 0, Project = ''Flow'',
      Tags = [''start'']\<rparr>))]) None = ([''1-Flow-10.json''], Inr [\<lparr>Id = ''1'',
      StartTime = time_Unix 10 0, Project = ''Flow'', Tags = [''start'']\<rparr>])"
    by code_simp
  from a b c e g h show ?thesis by blast
qed

subsection \<open>The order of \<open>FindAllSessions\<close>\<close>

lemma Before_trans: "Before t u \<Longrightarrow> Before u v \<Longrightarrow> Before t v"
  by (auto simp: Before_def)

lemma Before_asym: "Before t u \<Longrightarrow> \<not> Before u t"
  by (auto simp: Before_def)

lemma set_insert_less: "set (insert_less lt x ys) = insert x (set ys)"
  by (induction ys) auto

lemma length_insert_less: "length (insert_less lt x ys) = Suc (length ys)"
  by (induction ys) auto

lemma sorted_insert_less:
  assumes lt_trans: "\<And>a b c. lt a b \<Longrightarrow> lt b c \<Longrightarrow> lt a c"
    and lt_asym: "\<And>a b. lt a b \<Longrightarrow> \<not> lt b a"
    and sorted: "sorted_wrt (\<lambda>a b. \<not> lt b a) ys"
  shows "sorted_wrt (\<lambda>a b. \<not> lt b a) (insert_less lt x ys)"
  using sorted
proof (induction ys)
  case Nil
  then show ?case by simp
next
  case (Cons y ys)
  show ?case
  proof (cases "lt x y")
    case True
    have "\<not> lt z x" if "z \<in> set ys" for z
    proof
      assume "lt z x"
      from this True have "lt z y" by (rule lt_trans)
      with Cons.prems that show False by simp
    qed
    with True Cons.prems lt_asym [OF True] show ?thesis by auto
  next
    case False
    with Cons show ?thesis by (auto simp: set_insert_less)
  qed
qed

lemma foldl_insert_less:
  assumes lt_trans: "\<And>a b c. lt a b \<Longrightarrow> lt b c \<Longrightarrow> lt a c"
    and lt_asym: "\<And>a b. lt a b \<Longrightarrow> \<not> lt b a"
    and sorted: "sorted_wrt (\<lambda>a b. \<not> lt b a) acc"
  shows "sorted_wrt (\<lambda>a b. \<not> lt b a) (foldl (\<lambda>sorted x. insert_less lt x sorted) acc xs)
     \<and> set (foldl (\<lambda>sorted x. insert_less lt x sorted) acc xs) = set acc \<union> set xs
     \<and> length (foldl (\<lambda>sorted x. insert_less lt x sorted) acc xs) = length acc + length xs"
  using sorted
proof (induction xs arbitrary: acc)
  case Nil
  then show ?case by simp
next
  case (Cons x xs)
  have "sorted_wrt (\<lambda>a b. \<not> lt b a) (insert_less lt x acc)"
    using lt_trans lt_asym Cons.prems by (rule sorted_insert_less)
  from Cons.IH [OF this] show ?case
    by (simp add: set_insert_less length_insert_less)
qed

lemma sort_less_sorted:
  assumes lt_trans: "\<And>a b c. lt a b \<Longrightarrow> lt b c \<Longrightarrow> lt a c"
    and lt_asym: "\<And>a b. lt a b \<Longrightarrow> \<not> lt b a"
  shows "sorted_wrt (\<lambda>a b. \<not> lt b a) (sort_less lt xs)
     \<and> set (sort_less lt xs) = set xs
     \<and> length (sort_less lt xs) = length xs"
proof -
  have "sorted_wrt (\<lambda>a b. \<not> lt b a) []" by simp
  with lt_trans lt_asym
  have "sorted_wrt (\<lambda>a b. \<not> lt b a) (foldl (\<lambda>sorted x. insert_less lt x sorted) [] xs)
     \<and> set (foldl (\<lambda>sorted x. insert_less lt x sorted) [] xs) = set [] \<union> set xs
     \<and> length (foldl (\<lambda>sorted x. insert_less lt x sorted) [] xs) = length ([] :: 'a list) + length xs"
    by (rule foldl_insert_less)
  then show ?thesis by (simp add: sort_less_def)
qed

lemma sort_Sort_sorted:
  "sorted_wrt (\<lambda>si sj. \<not> Before (StartTime sj) (StartTime si)) (sort_Sort sessions)"
proof -
  have "sorted_wrt (\<lambda>a b. \<not> Less b a) (sort_less Less sessions)
     \<and> set (sort_less Less sessions) = set sessions
     \<and> length (sort_less Less sessions) = length sessions"
  proof (rule sort_less_sorted)
    show "\<And>a b c. Less a b \<Longrightarrow> Less b c \<Longrightarrow> Less a c"
      unfolding Less_def by (rule Before_trans)
    show "\<And>a b. Less a b \<Longrightarrow> \<not> Less b a"
      unfolding Less_def by (rule Before_asym)
  qed
  then show ?thesis by (simp add: sort_Sort_def Less_def)
qed

lemma FindAllSessions_loop_returns:
  assumes "\<And>fi. fi \<in> set fileInfos \<Longrightarrow> \<not> IsDir fi \<Longrightarrow>
             \<exists>b s. os_ReadFile r (Name fi) = Inr b \<and> json_Unmarshal b = Inr s"
  shows "\<exists>reads' sessions'.
           FindAllSessions_loop r reads sessions fileInfos = (reads', Inr sessions')"
  using assms
proof (induction fileInfos arbitrary: reads sessions)
  case Nil
  then show ?case by simp
next
  case (Cons fi fis)
  have rest: "\<exists>reads' sessions'.
           FindAllSessions_loop r reads sessions fis = (reads', Inr sessions')"
    for reads sessions
    using Cons.prems by (intro Cons.IH) simp_all
  show ?case
  proof (cases "IsDir fi")
    case True
    then show ?thesis using rest by simp
  next
    case False
    with Cons.prems obtain b s where "os_ReadFile r (Name fi) = Inr b" "json_Unmarshal b = Inr s"
      by (meson list.set_intros(1))
    with False show ?thesis
      using rest [of "reads @ [Name fi]" "sessions @ [s]"]
      by (simp add: rawFileToSession_def)
  qed
qed

lemma FindAllSessions_filters_subset:
  assumes "FindAllSessions_filters fileInfos filters = Inr fileInfos1"
  shows "set fileInfos1 \<subseteq> set fileInfos"
proof (cases filters)
  case None
  with assms show ?thesis by (simp add: FindAllSessions_filters_def)
next
  case (Some f)
  have t: "set x \<subseteq> set fis" if "filterByTimeRange fis tr = Inr x" for fis tr x
    using that unfolding filterByTimeRange_def filterByTimeRange_loop_eq
    by (auto split: option.splits)
  have p: "set x \<subseteq> set fis" if "filterByProject fis pr = Inr x" for fis pr x
    using that unfolding filterByProject_def filterByProject_loop_eq
    by (auto split: option.splits)
  from assms Some show ?thesis
    unfolding FindAllSessions_filters_def
    by (auto split: if_splits sum.splits dest!: t p)
qed

lemma FindAllSessions_filters_returns:
  assumes "find (\<lambda>fi. isl (parseSessionFileName (Name fi))) fileInfos = None"
  shows "\<exists>fileInfos1. FindAllSessions_filters fileInfos filters = Inr fileInfos1"
proof (cases filters)
  case None
  then show ?thesis by (simp add: FindAllSessions_filters_def)
next
  case (Some f)
  with assms show ?thesis
    unfolding FindAllSessions_filters_def filterByTimeRange_def filterByTimeRange_loop_eq
      filterByProject_def filterByProject_loop_eq
    by (simp add: find_filter_None)
qed

lemma FindAllSessions_returns:
  assumes "distinct (map fst es)" "bodies_decode es" "filters = None \<or> all_names_decode es"
  shows "\<exists>reads sessions. FindAllSessions (Folder es) filters = (reads, Inr sessions)"
proof -
  let ?mk = "\<lambda>(n, nd). \<lparr>Name = n, IsDir = (nd = Dir)\<rparr>"
  have "\<exists>fileInfos1. FindAllSessions_filters (map ?mk es) filters = Inr fileInfos1"
  proof (cases filters)
    case None
    then show ?thesis by (simp add: FindAllSessions_filters_def)
  next
    case (Some f)
    with assms(3) have "all_names_decode es" by simp
    then have "\<not> isl (parseSessionFileName (fst e))" if "e \<in> set es" for e
      using that by (cases "parseSessionFileName (fst e)")
        (auto simp: all_names_decode_def list_all_iff)
    then have "find (\<lambda>fi. isl (parseSessionFileName (Name fi))) (map ?mk es) = None"
      by (auto simp: find_None_iff)
    then show ?thesis by (rule FindAllSessions_filters_returns)
  qed
  then obtain fileInfos1 where f1: "FindAllSessions_filters (map ?mk es) filters = Inr fileInfos1"
    by blast
  then have sub: "set fileInfos1 \<subseteq> set (map ?mk es)" by (rule FindAllSessions_filters_subset)
  have "\<exists>b s. os_ReadFile (Folder es) (Name fi) = Inr b \<and> json_Unmarshal b = Inr s"
    if "fi \<in> set fileInfos1" "\<not> IsDir fi" for fi
  proof -
    from that sub obtain n nd where e: "(n, nd) \<in> set es" "fi = \<lparr>Name = n, IsDir = (nd = Dir)\<rparr>"
      by auto
    with that(2) obtain b where b: "nd = File b" by (cases nd) auto
    from assms(1) e(1) b have "os_ReadFile (Folder es) n = Inr b" by (simp add: os_ReadFile_File)
    moreover from assms(2) e(1) b obtain s where "json_Unmarshal b = Inr s"
      by (cases "json_Unmarshal b") (auto simp: bodies_decode_def list_all_iff)
    ultimately show ?thesis using e by simp
  qed
  then obtain reads sessions where
    "FindAllSessions_loop (Folder es) [] [] fileInfos1 = (reads, Inr sessions)"
    using FindAllSessions_loop_returns [of fileInfos1 "Folder es" "[]" "[]"] by blast
  with f1 show ?thesis
    by (simp add: FindAllSessions_def readFlowFolder_Folder)
qed

text \<open>Claim C6. Whatever the folder and the filter (or none), the list \<open>FindAllSessions\<close>
  returns is non-decreasing by \<open>StartTime\<close>: no session starts before one that stands
  earlier in the list. And it does return a list when the names of the folder are
  distinct, the bytes of every regular file deserialize and, if there is a filter, the
  name of every entry decodes.\<close>

theorem FindAllSessions_sorted:
  "(FindAllSessions r filters = (reads, Inr sessions) \<longrightarrow>
      sorted_wrt (\<lambda>si sj. \<not> Before (StartTime sj) (StartTime si)) sessions)
   \<and> (distinct (map fst es) \<and> bodies_decode es \<and> (filters = None \<or> all_names_decode es) \<longrightarrow>
        (\<exists>reads' sessions'.
           FindAllSessions (Folder es) filters = (reads', Inr sessions') \<and>
           sorted_wrt (\<lambda>si sj. \<not> Before (StartTime sj) (StartTime si)) sessions'))"
proof (intro conjI impI)
  assume "FindAllSessions r filters = (reads, Inr sessions)"
  then show "sorted_wrt (\<lambda>si sj. \<not> Before (StartTime sj) (StartTime si)) sessions"
    by (auto simp: FindAllSessions_def sort_Sort_sorted split: sum.splits prod.splits)
next
  assume "distinct (map fst es) \<and> bodies_decode es \<and> (filters = None \<or> all_names_decode es)"
  then obtain reads' sessions' where
    r: "FindAllSessions (Folder es) filters = (reads', Inr sessions')"
    using FindAllSessions_returns [of es filters] by blast
  then have "sorted_wrt (\<lambda>si sj. \<not> Before (StartTime sj) (StartTime si)) sessions'"
    by (auto simp: FindAllSessions_def sort_Sort_sorted split: sum.splits prod.splits)
  with r show "\<exists>reads' sessions'.
           FindAllSessions (Folder es) filters = (reads', Inr sessions') \<and>
           sorted_wrt (\<lambda>si sj. \<not> Before (StartTime sj) (StartTime si)) sessions'"
    by blast
qed

theorem FindAllSessions_sorted_witness:
  "FindAllSessions (Folder [(''b-Flow-20.json'', File (Marshaled \<lparr>Id = ''b'',
      StartTime = time_Unix 20 500, Project = ''Flow'', Tags = []\<rparr>)),
         (''c-Other-20.json'', File (Marshaled \<lparr>Id = ''c'', StartTime = time_Unix 20 0,
             Project = ''Other'', Tags = []\<rparr>)),
         (''a-Flow-10.json'', File (Marshaled \<lparr>Id = ''a'', StartTime = time_Unix 10 0,
             Project = ''Flow'', Tags = []\<rparr>))]) None =
     ([''b-Flow-20.json'', ''c-Other-20.json'', ''a-Flow-10.json''], Inr [\<lparr>Id = ''a'',
         StartTime = time_Unix 10 0, Project = ''Flow'', Tags = []\<rparr>,
         \<lparr>Id = ''c'', StartTime = time_Unix 20 0, Project = ''Other'', Tags = []\<rparr>,
         \<lparr>Id = ''b'', StartTime = time_Unix 20 500, Project = ''Flow'', Tags = []\<rparr>])
   \<and> sorted_wrt (\<lambda>si sj. \<not> Before (StartTime sj) (StartTime si)) [\<lparr>Id = ''a'',
       StartTime = time_Unix 10 0, Project = ''Flow'', Tags = []\<rparr>,
         \<lparr>Id = ''c'', StartTime = time_Unix 20 0, Project = ''Other'', Tags = []\<rparr>,
         \<lparr>Id = ''b'', StartTime = time_Unix 20 500, Project = ''Flow'', Tags = []\<rparr>]
   \<and> distinct (map fst [(''b-Flow-20.json'', File (Marshaled \<lparr>Id = ''b'',
       StartTime = time_Unix 20 500, Project = ''Flow'', Tags = []\<rparr>)),
         (''c-Other-20.json'', File (Marshaled \<lparr>Id = ''c'', StartTime = time_Unix 20 0,
             Project = ''Other'', Tags = []\<rparr>)),
         (''a-Flow-10.json'', File (Marshaled \<lparr>Id = ''a'', StartTime = time_Unix 10 0,
             Project = ''Flow'', Tags = []\<rparr>))])
   \<and> bodies_decode [(''b-Flow-20.json'', File (Marshaled \<lparr>Id = ''b'',
       StartTime = time_Unix 20 500, Project = ''Flow'', Tags = []\<rparr>)),
         (''c-Other-20.json'', File (Marshaled \<lparr>Id = ''c'', StartTime = time_Unix 20 0,
             Project = ''Other'', Tags = []\<rparr>)),
         (''a-Flow-10.json'', File (Marshaled \<lparr>Id = ''a'', StartTime = time_Unix 10 0,
             Project = ''Flow'', Tags = []\<rparr>))]
   \<and> all_names_decode [(''b-Flow-20.json'', File (Marshaled \<lparr>Id = ''b'',
       StartTime = time_Unix 20 500, Project = ''Flow'', Tags = []\<rparr>)),
         (''c-Other-20.json'', File (Marshaled \<lparr>Id = ''c'', StartTime = time_Unix 20 0,
             Project = ''Other'', Tags = []\<rparr>)),
         (''a-Flow-10.json'', File (Marshaled \<lparr>Id = ''a'', StartTime = time_Unix 10 0,
             Project = ''Flow'', Tags = []\<rparr>))]
   \<and> (\<exists>reads' sessions'.
         FindAllSessions (Folder [(''b-Flow-20.json'', File (Marshaled \<lparr>Id = ''b'',
             StartTime = time_Unix 20 500, Project = ''Flow'', Tags = []\<rparr>)),
         (''c-Other-20.json'', File (Marshaled \<lparr>Id = ''c'', StartTime = time_Unix 20 0,
             Project = ''Other'', Tags = []\<rparr>)),
         (''a-Flow-10.json'', File (Marshaled \<lparr>Id = ''a'', StartTime = time_Unix 10 0,
             Project = ''Flow'', Tags = []\<rparr>))])
           (Some \<lparr>f_Timerange = \<lparr>Since = None, Until = None\<rparr>, f_Project = ''Flow''\<rparr>)
           = (reads', Inr sessions') \<and>
         sorted_wrt (\<lambda>si sj. \<not> Before (StartTime sj) (StartTime si)) sessions')"
proof -
  let ?es = "[(''b-Flow-20.json'', File (Marshaled \<lparr>Id = ''b'', StartTime = time_Unix 20 500,
      Project = ''Flow'', Tags = []\<rparr>)),
         (''c-Other-20.json'', File (Marshaled \<lparr>Id = ''c'', StartTime = time_Unix 20 0,
             Project = ''Other'', Tags = []\<rparr>)),
         (''a-Flow-10.json'', File (Marshaled \<lparr>Id = ''a'', StartTime = time_Unix 10 0,
             Project = ''Flow'', Tags = []\<rparr>))]"
  let ?f = "Some \<lparr>f_Timerange = \<lparr>Since = None, Until = None\<rparr>, f_Project = ''Flow''\<rparr>"
  have a: "FindAllSessions (Folder ?es) None =
     ([''b-Flow-20.json'', ''c-Other-20.json'', ''a-Flow-10.json''], Inr [\<lparr>Id = ''a'',
         StartTime = time_Unix 10 0, Project = ''Flow'', Tags = []\<rparr>,
         \<lparr>Id = ''c'', StartTime = time_Unix 20 0, Project = ''Other'', Tags = []\<rparr>,
         \<lparr>Id = ''b'', StartTime = time_Unix 20 500, Project = ''Flow'', Tags = []\<rparr>])"
    by code_simp
  have b: "distinct (map fst ?es)" by simp
  have c: "bodies_decode ?es" by code_simp
  have d: "all_names_decode ?es" by code_simp
  from b c d have h: "distinct (map fst ?es) \<and> bodies_decode ?es \<and> (?f = None \<or> all_names_decode ?es)"
    by blast
  note t = FindAllSessions_sorted [where es = "?es" and filters = "?f"
      and r = "Folder ?es" and reads = "[''b-Flow-20.json'', ''c-Other-20.json'',
          ''a-Flow-10.json'']"
      and sessions = "[\<lparr>Id = ''a'', StartTime = time_Unix 10 0, Project = ''Flow'', Tags = []\<rparr>,
         \<lparr>Id = ''c'', StartTime = time_Unix 20 0, Project = ''Other'', Tags = []\<rparr>,
         \<lparr>Id = ''b'', StartTime = time_Unix 20 500, Project = ''Flow'', Tags = []\<rparr>]"]
  note u = FindAllSessions_sorted [where r = "Folder ?es" and filters = None
      and reads = "[''b-Flow-20.json'', ''c-Other-20.json'', ''a-Flow-10.json'']"
      and sessions = "[\<lparr>Id = ''a'', StartTime = time_Unix 10 0, Project = ''Flow'', Tags = []\<rparr>,
         \<lparr>Id = ''c'', StartTime = time_Unix 20 0, Project = ''Other'', Tags = []\<rparr>,
         \<lparr>Id = ''b'', StartTime = time_Unix 20 500, Project = ''Flow'', Tags = []\<rparr>]"]
  from u [THEN conjunct1, rule_format, OF a]
  have e: "sorted_wrt (\<lambda>si sj. \<not> Before (StartTime sj) (StartTime si)) [\<lparr>Id = ''a'',
      StartTime = time_Unix 10 0, Project = ''Flow'', Tags = []\<rparr>,
         \<lparr>Id = ''c'', StartTime = time_Unix 20 0, Project = ''Other'', Tags = []\<rparr>,
         \<lparr>Id = ''b'', StartTime = time_Unix 20 500, Project = ''Flow'', Tags = []\<rparr>]" .
  from t [THEN conjunct2, rule_format, OF h]
  have f: "\<exists>reads' sessions'.
         FindAllSessions (Folder ?es) ?f = (reads', Inr sessions') \<and>
         sorted_wrt (\<lambda>si sj. \<not> Before (StartTime sj) (StartTime si)) sessions'" .
  from a e b c d f show ?thesis by blast
qed

subsection \<open>The project filter\<close>

text \<open>Claim C2. \<open>filterByProject\<close> keeps the entries whose decoded project component
  equals the project it is given, as it is given: the component is sanitized (\<open>String\<close>
  strips the project when it encodes), the argument is not. A session saved under
  \<open>My Project\<close> has the file name \<open>1-MyProject-10.json\<close>; filtering by \<open>My Project\<close>
  drops it, so \<open>FindAllSessions\<close> and \<open>FindAllProjectTags\<close> for that project find
  nothing, while filtering by \<open>MyProject\<close> keeps it.\<close>

theorem filterByProject_unsanitized:
  "Save 0 0 (Folder []) \<lparr>Id = ''1'', StartTime = time_Unix 10 0, Project = ''My Project'',
      Tags = [''start'']\<rparr> = Some (None, Folder [(''1-MyProject-10.json'',
      File (Marshaled \<lparr>Id = ''1'', StartTime = time_Unix 10 0, Project = ''My Project'',
      Tags = [''start'']\<rparr>))])
   \<and> filterByProject [\<lparr>Name = ''1-MyProject-10.json'', IsDir = False\<rparr>] ''My Project'' = Inr []
   \<and> filterByProject [\<lparr>Name = ''1-MyProject-10.json'',
       IsDir = False\<rparr>] ''MyProject'' = Inr [\<lparr>Name = ''1-MyProject-10.json'', IsDir = False\<rparr>]
   \<and> FindAllSessions (Folder [(''1-MyProject-10.json'', File (Marshaled \<lparr>Id = ''1'',
       StartTime = time_Unix 10 0, Project = ''My Project'', Tags = [''start'']\<rparr>))])
        (Some \<lparr>f_Timerange = \<lparr>Since = None, Until = None\<rparr>, f_Project = ''My Project''\<rparr>)
       = ([], Inr [])
   \<and> FindAllProjectTags (Folder [(''1-MyProject-10.json'', File (Marshaled \<lparr>Id = ''1'',
       StartTime = time_Unix 10 0, Project = ''My Project'',
       Tags = [''start'']\<rparr>))]) ''My Project'' = ([], Inr [])"
proof (intro conjI)
  show "Save 0 0 (Folder []) \<lparr>Id = ''1'', StartTime = time_Unix 10 0, Project = ''My Project'',
      Tags = [''start'']\<rparr> = Some (None, Folder [(''1-MyProject-10.json'',
      File (Marshaled \<lparr>Id = ''1'', StartTime = time_Unix 10 0, Project = ''My Project'',
      Tags = [''start'']\<rparr>))])"
    by code_simp
  show "filterByProject [\<lparr>Name = ''1-MyProject-10.json'', IsDir = False\<rparr>] ''My Project'' = Inr []"
    by code_simp
  show "filterByProject [\<lparr>Name = ''1-MyProject-10.json'',
      IsDir = False\<rparr>] ''MyProject'' = Inr [\<lparr>Name = ''1-MyProject-10.json'', IsDir = False\<rparr>]"
    by code_simp
  show "FindAllSessions (Folder [(''1-MyProject-10.json'', File (Marshaled \<lparr>Id = ''1'',
      StartTime = time_Unix 10 0, Project = ''My Project'', Tags = [''start'']\<rparr>))])
        (Some \<lparr>f_Timerange = \<lparr>Since = None, Until = None\<rparr>, f_Project = ''My Project''\<rparr>)
       = ([], Inr [])"
    by code_simp
  show "FindAllProjectTags (Folder [(''1-MyProject-10.json'', File (Marshaled \<lparr>Id = ''1'',
      StartTime = time_Unix 10 0, Project = ''My Project'',
      Tags = [''start'']\<rparr>))]) ''My Project'' = ([], Inr [])"
    by code_simp
qed

subsection \<open>Lookup and deletion by id\<close>

lemma mk_FileInfo [simp]:
  "Name ((\<lambda>(n, nd). \<lparr>Name = n, IsDir = (nd = Dir)\<rparr>) e) = fst e"
  "IsDir ((\<lambda>(n, nd). \<lparr>Name = n, IsDir = (nd = Dir)\<rparr>) e) = (snd e = Dir)"
  by (cases e; simp)+

lemma names_decode_Cons:
  "names_decode (e # es) \<longleftrightarrow>
     (snd e = Dir \<or> (\<exists>sf. parseSessionFileName (fst e) = Inr sf)) \<and> names_decode es"
  by (cases "snd e"; cases "parseSessionFileName (fst e)") (auto simp: names_decode_def)

lemma file_with_id_iff:
  "file_with_id ident e \<longleftrightarrow>
     snd e \<noteq> Dir \<and> (\<exists>sf. parseSessionFileName (fst e) = Inr sf \<and> fn_Id sf = ident)"
  by (cases "snd e"; cases "parseSessionFileName (fst e)") (auto simp: file_with_id_def)

lemma FindById_loop_eq:
  assumes "names_decode es"
  shows "FindById_loop r ident (map (\<lambda>(n, nd). \<lparr>Name = n, IsDir = (nd = Dir)\<rparr>) es) =
     (case find (file_with_id ident) es of
        None \<Rightarrow> ([], Inr None)
      | Some e \<Rightarrow>
          (case os_ReadFile r (fst e) of
             Inl err \<Rightarrow> ([fst e], Inl (Fatal_readFile (fst e) err))
           | Inr bytes \<Rightarrow>
               (case rawFileToSession bytes of
                  Inl convertErr \<Rightarrow> ([fst e], Inl (Fatal_invalidData (fst e)))
                | Inr session \<Rightarrow> ([fst e], Inr (Some session)))))"
  using assms
proof (induction es)
  case Nil
  then show ?case by simp
next
  case (Cons e es)
  from Cons.prems have d: "names_decode es" by (simp add: names_decode_Cons)
  note IH = Cons.IH [OF d]
  show ?case
  proof (cases "snd e = Dir")
    case True
    then have "\<not> file_with_id ident e" by (simp add: file_with_id_iff)
    with True IH show ?thesis by simp
  next
    case False
    with Cons.prems obtain sf where sf: "parseSessionFileName (fst e) = Inr sf"
      by (auto simp: names_decode_Cons)
    show ?thesis
    proof (cases "fn_Id sf = ident")
      case True
      with False sf have "file_with_id ident e" by (simp add: file_with_id_iff)
      with False sf True show ?thesis by (simp split: sum.splits)
    next
      case F: False
      with sf have "\<not> file_with_id ident e" by (simp add: file_with_id_iff)
      with False sf F IH show ?thesis by simp
    qed
  qed
qed

lemma Delete_loop_eq:
  assumes "names_decode es"
  shows "Delete_loop r ident (map (\<lambda>(n, nd). \<lparr>Name = n, IsDir = (nd = Dir)\<rparr>) es) =
     (case find (file_with_id ident) es of
        None \<Rightarrow> Inr (Some (NotFoundError ident), r)
      | Some e \<Rightarrow>
          (case os_Remove r (fst e) of
             (Some deleteErr, r') \<Rightarrow> Inl (Fatal_deleteFile (fst e) deleteErr)
           | (None, r') \<Rightarrow> Inr (None, r')))"
  using assms
proof (induction es)
  case Nil
  then show ?case by simp
next
  case (Cons e es)
  from Cons.prems have d: "names_decode es" by (simp add: names_decode_Cons)
  note IH = Cons.IH [OF d]
  show ?case
  proof (cases "snd e = Dir")
    case True
    then have "\<not> file_with_id ident e" by (simp add: file_with_id_iff)
    with True IH show ?thesis by simp
  next
    case False
    with Cons.prems obtain sf where sf: "parseSessionFileName (fst e) = Inr sf"
      by (auto simp: names_decode_Cons)
    show ?thesis
    proof (cases "fn_Id sf = ident")
      case True
      with False sf have "file_with_id ident e" by (simp add: file_with_id_iff)
      with False sf True show ?thesis by (simp split: prod.splits option.splits)
    next
      case F: False
      with sf have "\<not> file_with_id ident e" by (simp add: file_with_id_iff)
      with False sf F IH show ?thesis by simp
    qed
  qed
qed

lemma filter_name_remove1:
  "distinct (map fst es) \<Longrightarrow> e \<in> set es \<Longrightarrow>
     filter (\<lambda>x. fst x \<noteq> fst e) es = remove1 e es"
proof (induction es)
  case Nil
  then show ?case by simp
next
  case (Cons x xs)
  show ?case
  proof (cases "x = e")
    case True
    with Cons.prems have "fst e \<notin> fst ` set xs" by simp
    then have "\<forall>y \<in> set xs. fst y \<noteq> fst e" by (metis imageI)
    then have "filter (\<lambda>x. fst x \<noteq> fst e) xs = xs"
      by (simp add: filter_id_conv)
    with True show ?thesis by simp
  next
    case False
    with Cons.prems have m: "e \<in> set xs" by simp
    from Cons.prems have "fst x \<notin> fst ` set xs" by simp
    with m have "fst x \<noteq> fst e" by (metis imageI)
    with False Cons.IH m Cons.prems show ?thesis by simp
  qed
qed

lemma os_Remove_member:
  assumes "distinct (map fst es)" "e \<in> set es"
  shows "os_Remove (Folder es) (fst e) = (None, Folder (remove1 e es))"
proof -
  from assms have "map_of es (fst e) = Some (snd e)" by simp
  then show ?thesis
    using filter_name_remove1 [OF assms] by (simp add: os_Remove_def split_def)
qed

lemma names_decode_remove1: "names_decode es \<Longrightarrow> names_decode (remove1 e es)"
  unfolding names_decode_def list_all_iff using set_remove1_subset [of e es] by blast

lemma find_None_list_all: "find P xs = None \<longleftrightarrow> list_all (\<lambda>x. \<not> P x) xs"
  by (auto simp: find_None_iff list_all_iff)

lemma find_first:
  "list_all (\<lambda>x. \<not> P x) pre \<Longrightarrow> P e \<Longrightarrow> find P (pre @ e # post) = Some e"
  by (induction pre) auto

lemma remove1_first:
  "list_all (\<lambda>x. \<not> P x) pre \<Longrightarrow> P e \<Longrightarrow> remove1 e (pre @ e # post) = pre @ post"
  by (induction pre) auto

text \<open>Claim C7, as amended. In a folder with distinct names where the name of every
  regular file decodes: when no file decodes to the id, \<open>Delete\<close> returns
  \<open>NotFoundError id\<close> and leaves the folder as it is; when some file does, \<open>Delete\<close>
  returns \<open>nil\<close> and removes exactly one entry, the first of the listing that decodes to
  the id, every other entry staying where it is; and when that file is the only one with
  the id, as the ids of the data model are, \<open>FindById\<close> then returns \<open>nil\<close>, reading
  nothing.\<close>

theorem Delete_by_id:
  "distinct (map fst es) \<and> names_decode es \<longrightarrow>
     (list_all (\<lambda>e. \<not> file_with_id ident e) es \<longrightarrow>
        Delete (Folder es) ident = Inr (Some (NotFoundError ident), Folder es))
   \<and> (\<not> list_all (\<lambda>e. \<not> file_with_id ident e) es \<longrightarrow>
        (\<exists>pre e post. es = pre @ e # post \<and>
             list_all (\<lambda>x. \<not> file_with_id ident x) pre \<and> file_with_id ident e \<and>
             Delete (Folder es) ident = Inr (None, Folder (pre @ post))))
   \<and> (e \<in> set es \<and> file_with_id ident e \<and>
        list_all (\<lambda>e'. e' = e \<or> \<not> file_with_id ident e') es \<longrightarrow>
        Delete (Folder es) ident = Inr (None, Folder (remove1 e es)) \<and>
        FindById (Folder (remove1 e es)) ident = ([], Inr None))"
proof (intro impI conjI)
  assume h: "distinct (map fst es) \<and> names_decode es"
  then have dl: "Delete (Folder es) ident =
     (case find (file_with_id ident) es of
        None \<Rightarrow> Inr (Some (NotFoundError ident), Folder es)
      | Some e \<Rightarrow>
          (case os_Remove (Folder es) (fst e) of
             (Some deleteErr, r') \<Rightarrow> Inl (Fatal_deleteFile (fst e) deleteErr)
           | (None, r') \<Rightarrow> Inr (None, r')))"
    by (simp add: Delete_def readFlowFolder_Folder Delete_loop_eq)
  have found: "Delete (Folder es) ident = Inr (None, Folder (remove1 x es))"
    if "find (file_with_id ident) es = Some x" for x
  proof -
    from that have "x \<in> set es" by (auto simp: find_Some_iff)
    with h have "os_Remove (Folder es) (fst x) = (None, Folder (remove1 x es))"
      by (simp add: os_Remove_member)
    with that dl show ?thesis by simp
  qed
  {
    assume "list_all (\<lambda>e. \<not> file_with_id ident e) es"
    then have "find (file_with_id ident) es = None" by (simp add: find_None_list_all)
    with dl show "Delete (Folder es) ident = Inr (Some (NotFoundError ident), Folder es)"
      by simp
  }
  {
    assume "\<not> list_all (\<lambda>e. \<not> file_with_id ident e) es"
    then have "\<exists>x \<in> set es. file_with_id ident x" by (simp add: list_all_iff)
    then obtain pre x post where s: "es = pre @ x # post" and w: "file_with_id ident x"
      and f: "\<forall>y \<in> set pre. \<not> file_with_id ident y"
      using split_list_first_prop [of es "file_with_id ident"] by blast
    from f have p: "list_all (\<lambda>x. \<not> file_with_id ident x) pre" by (simp add: list_all_iff)
    from p w have "find (file_with_id ident) es = Some x"
      unfolding s by (rule find_first)
    then have "Delete (Folder es) ident = Inr (None, Folder (remove1 x es))" by (rule found)
    moreover from p w have "remove1 x es = pre @ post"
      unfolding s by (rule remove1_first)
    ultimately have "Delete (Folder es) ident = Inr (None, Folder (pre @ post))" by simp
    with s p w
    show "\<exists>pre e post. es = pre @ e # post \<and>
             list_all (\<lambda>x. \<not> file_with_id ident x) pre \<and> file_with_id ident e \<and>
             Delete (Folder es) ident = Inr (None, Folder (pre @ post))"
      by blast
  }
  {
    assume u: "e \<in> set es \<and> file_with_id ident e \<and>
        list_all (\<lambda>e'. e' = e \<or> \<not> file_with_id ident e') es"
    then have only: "\<And>x. x \<in> set es \<Longrightarrow> file_with_id ident x \<Longrightarrow> x = e"
      by (auto simp: list_all_iff)
    from u have "find (file_with_id ident) es \<noteq> None"
      unfolding find_None_iff by blast
    then obtain x where x: "find (file_with_id ident) es = Some x" by blast
    then have "x \<in> set es" and "file_with_id ident x" by (auto simp: find_Some_iff)
    then have "x = e" by (rule only)
    with found [OF x]
    show "Delete (Folder es) ident = Inr (None, Folder (remove1 e es))" by simp
    from h have "distinct es" by (simp add: distinct_map)
    then have "set (remove1 e es) = set es - {e}" by simp
    with only have "find (file_with_id ident) (remove1 e es) = None"
      by (auto simp: find_None_iff)
    moreover from h have "names_decode (remove1 e es)" by (simp add: names_decode_remove1)
    ultimately show "FindById (Folder (remove1 e es)) ident = ([], Inr None)"
      by (simp add: FindById_def readFlowFolder_Folder FindById_loop_eq)
  }
qed

theorem Delete_by_id_witness:
  "distinct (map fst [(''1-A-10.json'', File (Marshaled \<lparr>Id = ''1'', StartTime = time_Unix 10 0,
      Project = ''A'', Tags = []\<rparr>)), (''2-B-20.json'', File (Marshaled \<lparr>Id = ''2'',
      StartTime = time_Unix 20 0, Project = ''B'', Tags = []\<rparr>)), (''3-C-30.json'',
      File (Marshaled \<lparr>Id = ''3'', StartTime = time_Unix 30 0, Project = ''C'', Tags = []\<rparr>))])
   \<and> names_decode [(''1-A-10.json'', File (Marshaled \<lparr>Id = ''1'', StartTime = time_Unix 10 0,
       Project = ''A'', Tags = []\<rparr>)), (''2-B-20.json'', File (Marshaled \<lparr>Id = ''2'',
       StartTime = time_Unix 20 0, Project = ''B'', Tags = []\<rparr>)), (''3-C-30.json'',
       File (Marshaled \<lparr>Id = ''3'', StartTime = time_Unix 30 0, Project = ''C'', Tags = []\<rparr>))]
   \<and> list_all (\<lambda>e. \<not> file_with_id ''4'' e) [(''1-A-10.json'', File (Marshaled \<lparr>Id = ''1'',
       StartTime = time_Unix 10 0, Project = ''A'', Tags = []\<rparr>)), (''2-B-20.json'',
       File (Marshaled \<lparr>Id = ''2'', StartTime = time_Unix 20 0, Project = ''B'', Tags = []\<rparr>)),
       (''3-C-30.json'', File (Marshaled \<lparr>Id = ''3'', StartTime = time_Unix 30 0,
       Project = ''C'', Tags = []\<rparr>))]
   \<and> Delete (Folder [(''1-A-10.json'', File (Marshaled \<lparr>Id = ''1'', StartTime = time_Unix 10 0,
       Project = ''A'', Tags = []\<rparr>)), (''2-B-20.json'', File (Marshaled \<lparr>Id = ''2'',
       StartTime = time_Unix 20 0, Project = ''B'', Tags = []\<rparr>)), (''3-C-30.json'',
       File (Marshaled \<lparr>Id = ''3'', StartTime = time_Unix 30 0, Project = ''C'',
       Tags = []\<rparr>))]) ''4'' = Inr (Some (NotFoundError ''4''), Folder [(''1-A-10.json'',
       File (Marshaled \<lparr>Id = ''1'', StartTime = time_Unix 10 0, Project = ''A'', Tags = []\<rparr>)),
       (''2-B-20.json'', File (Marshaled \<lparr>Id = ''2'', StartTime = time_Unix 20 0,
       Project = ''B'', Tags = []\<rparr>)), (''3-C-30.json'', File (Marshaled \<lparr>Id = ''3'',
       StartTime = time_Unix 30 0, Project = ''C'', Tags = []\<rparr>))])
   \<and> \<not> list_all (\<lambda>e. \<not> file_with_id ''2'' e) [(''1-A-10.json'', File (Marshaled \<lparr>Id = ''1'',
       StartTime = time_Unix 10 0, Project = ''A'', Tags = []\<rparr>)), (''2-B-20.json'',
       File (Marshaled \<lparr>Id = ''2'', StartTime = time_Unix 20 0, Project = ''B'', Tags = []\<rparr>)),
       (''3-C-30.json'', File (Marshaled \<lparr>Id = ''3'', StartTime = time_Unix 30 0,
       Project = ''C'', Tags = []\<rparr>))]
   \<and> (\<exists>pre e post. [(''1-A-10.json'', File (Marshaled \<lparr>Id = ''1'', StartTime = time_Unix 10 0,
       Project = ''A'', Tags = []\<rparr>)), (''2-B-20.json'', File (Marshaled \<lparr>Id = ''2'',
       StartTime = time_Unix 20 0, Project = ''B'', Tags = []\<rparr>)), (''3-C-30.json'',
       File (Marshaled \<lparr>Id = ''3'', StartTime = time_Unix 30 0, Project = ''C'',
       Tags = []\<rparr>))] = pre @ e # post \<and>
         list_all (\<lambda>x. \<not> file_with_id ''2'' x) pre \<and> file_with_id ''2'' e \<and>
         Delete (Folder [(''1-A-10.json'', File (Marshaled \<lparr>Id = ''1'',
             StartTime = time_Unix 10 0, Project = ''A'', Tags = []\<rparr>)), (''2-B-20.json'',
             File (Marshaled \<lparr>Id = ''2'', StartTime = time_Unix 20 0, Project = ''B'',
             Tags = []\<rparr>)), (''3-C-30.json'', File (Marshaled \<lparr>Id = ''3'',
             StartTime = time_Unix 30 0, Project = ''C'', Tags = []\<rparr>))]) ''2'' = Inr (None,
             Folder (pre @ post)))
   \<and> list_all (\<lambda>e'. e' = (''2-B-20.json'', File (Marshaled \<lparr>Id = ''2'',
       StartTime = time_Unix 20 0, Project = ''B'',
       Tags = []\<rparr>)) \<or> \<not> file_with_id ''2'' e') [(''1-A-10.json'', File (Marshaled \<lparr>Id = ''1'',
       StartTime = time_Unix 10 0, Project = ''A'', Tags = []\<rparr>)), (''2-B-20.json'',
       File (Marshaled \<lparr>Id = ''2'', StartTime = time_Unix 20 0, Project = ''B'', Tags = []\<rparr>)),
       (''3-C-30.json'', File (Marshaled \<lparr>Id = ''3'', StartTime = time_Unix 30 0,
       Project = ''C'', Tags = []\<rparr>))]
   \<and> Delete (Folder [(''1-A-10.json'', File (Marshaled \<lparr>Id = ''1'', StartTime = time_Unix 10 0,
       Project = ''A'', Tags = []\<rparr>)), (''2-B-20.json'', File (Marshaled \<lparr>Id = ''2'',
       StartTime = time_Unix 20 0, Project = ''B'', Tags = []\<rparr>)), (''3-C-30.json'',
       File (Marshaled \<lparr>Id = ''3'', StartTime = time_Unix 30 0, Project = ''C'',
       Tags = []\<rparr>))]) ''2'' = Inr (None, Folder [(''1-A-10.json'', File (Marshaled \<lparr>Id = ''1'',
       StartTime = time_Unix 10 0, Project = ''A'', Tags = []\<rparr>)), (''3-C-30.json'',
       File (Marshaled \<lparr>Id = ''3'', StartTime = time_Unix 30 0, Project = ''C'', Tags = []\<rparr>))])
   \<and> FindById (Folder [(''1-A-10.json'', File (Marshaled \<lparr>Id = ''1'', StartTime = time_Unix 10 0,
       Project = ''A'', Tags = []\<rparr>)), (''3-C-30.json'', File (Marshaled \<lparr>Id = ''3'',
       StartTime = time_Unix 30 0, Project = ''C'', Tags = []\<rparr>))]) ''2'' = ([], Inr None)"
proof -
  let ?e1 = "(''1-A-10.json'', File (Marshaled \<lparr>Id = ''1'', StartTime = time_Unix 10 0,
      Project = ''A'', Tags = []\<rparr>))"
  let ?e2 = "(''2-B-20.json'', File (Marshaled \<lparr>Id = ''2'', StartTime = time_Unix 20 0,
      Project = ''B'', Tags = []\<rparr>))"
  let ?e3 = "(''3-C-30.json'', File (Marshaled \<lparr>Id = ''3'', StartTime = time_Unix 30 0,
      Project = ''C'', Tags = []\<rparr>))"
  let ?es = "[?e1, ?e2, ?e3]"
  have h: "distinct (map fst ?es) \<and> names_decode ?es" by code_simp
  have n4: "list_all (\<lambda>e. \<not> file_with_id ''4'' e) ?es" by code_simp
  have n2: "\<not> list_all (\<lambda>e. \<not> file_with_id ''2'' e) ?es" by code_simp
  have o2: "list_all (\<lambda>e'. e' = ?e2 \<or> \<not> file_with_id ''2'' e') ?es" by code_simp
  have w2: "file_with_id ''2'' ?e2" by code_simp
  have u2: "?e2 \<in> set ?es \<and> file_with_id ''2'' ?e2 \<and>
        list_all (\<lambda>e'. e' = ?e2 \<or> \<not> file_with_id ''2'' e') ?es"
    using o2 w2 by simp
  have r: "remove1 ?e2 ?es = [?e1, ?e3]" by simp
  from Delete_by_id [of ?es "''4''" ?e1, rule_format, OF h, THEN conjunct1, rule_format, OF n4]
  have a: "Delete (Folder ?es) ''4'' = Inr (Some (NotFoundError ''4''), Folder ?es)" .
  from Delete_by_id [of ?es "''2''" ?e2, rule_format, OF h, THEN conjunct2, THEN conjunct1,
      rule_format, OF n2]
  have b: "\<exists>pre e post. ?es = pre @ e # post \<and>
         list_all (\<lambda>x. \<not> file_with_id ''2'' x) pre \<and> file_with_id ''2'' e \<and>
         Delete (Folder ?es) ''2'' = Inr (None, Folder (pre @ post))" .
  from Delete_by_id [of ?es "''2''" ?e2, rule_format, OF h, THEN conjunct2, THEN conjunct2,
      rule_format, OF u2]
  have c: "Delete (Folder ?es) ''2'' = Inr (None, Folder [?e1, ?e3]) \<and>
        FindById (Folder [?e1, ?e3]) ''2'' = ([], Inr None)"
    unfolding r .
  from h n4 n2 o2 a b c show ?thesis by blast
qed

theorem Delete_by_id_counterexample:
  "Save 0 0 (Folder []) \<lparr>Id = ''id-1'', StartTime = time_Unix 10 0, Project = ''Flow'',
      Tags = []\<rparr> = Some (None, Folder [(''id-1-Flow-10.json'', File (Marshaled \<lparr>Id = ''id-1'',
      StartTime = time_Unix 10 0, Project = ''Flow'', Tags = []\<rparr>))])
   \<and> Delete (Folder [(''id-1-Flow-10.json'', File (Marshaled \<lparr>Id = ''id-1'',
       StartTime = time_Unix 10 0, Project = ''Flow'',
       Tags = []\<rparr>))]) ''id-1'' = Inl (Fatal_parseFileName ''id-1-Flow-10.json'' InvalidSessionFileName)
   \<and> list_all (\<lambda>e. \<not> file_with_id ''2'' e) [(''id-1-Flow-10.json'',
       File (Marshaled \<lparr>Id = ''id-1'', StartTime = time_Unix 10 0, Project = ''Flow'', Tags = []\<rparr>))]
   \<and> Delete (Folder [(''id-1-Flow-10.json'', File (Marshaled \<lparr>Id = ''id-1'',
       StartTime = time_Unix 10 0, Project = ''Flow'',
       Tags = []\<rparr>))]) ''2'' = Inl (Fatal_parseFileName ''id-1-Flow-10.json'' InvalidSessionFileName)
   \<and> file_with_id ''1'' (''1-A-10.json'', File (Marshaled \<lparr>Id = ''1'',
       StartTime = time_Unix 10 0, Project = ''A'', Tags = []\<rparr>))
   \<and> Delete (Folder [(''id-1-Flow-10.json'', File (Marshaled \<lparr>Id = ''id-1'',
       StartTime = time_Unix 10 0, Project = ''Flow'', Tags = []\<rparr>)), (''1-A-10.json'',
       File (Marshaled \<lparr>Id = ''1'', StartTime = time_Unix 10 0, Project = ''A'',
       Tags = []\<rparr>))]) ''1'' = Inl (Fatal_parseFileName ''id-1-Flow-10.json'' InvalidSessionFileName)
   \<and> Delete (Folder [(''1-A-10.json'', File (Marshaled \<lparr>Id = ''1'', StartTime = time_Unix 10 0,
       Project = ''A'', Tags = []\<rparr>)), (''id-1-Flow-10.json'', File (Marshaled \<lparr>Id = ''id-1'',
       StartTime = time_Unix 10 0, Project = ''Flow'', Tags = []\<rparr>))]) ''1'' = Inr (None,
       Folder [(''id-1-Flow-10.json'', File (Marshaled \<lparr>Id = ''id-1'',
       StartTime = time_Unix 10 0, Project = ''Flow'', Tags = []\<rparr>))])
   \<and> FindById (Folder [(''id-1-Flow-10.json'', File (Marshaled \<lparr>Id = ''id-1'',
       StartTime = time_Unix 10 0, Project = ''Flow'', Tags = []\<rparr>))]) ''1'' = ([],
       Inl (Fatal_parseFileName ''id-1-Flow-10.json'' InvalidSessionFileName))"
proof (intro conjI)
  show "Save 0 0 (Folder []) \<lparr>Id = ''id-1'', StartTime = time_Unix 10 0, Project = ''Flow'',
      Tags = []\<rparr> = Some (None, Folder [(''id-1-Flow-10.json'', File (Marshaled \<lparr>Id = ''id-1'',
      StartTime = time_Unix 10 0, Project = ''Flow'', Tags = []\<rparr>))])"
    by code_simp
  show "Delete (Folder [(''id-1-Flow-10.json'', File (Marshaled \<lparr>Id = ''id-1'',
      StartTime = time_Unix 10 0, Project = ''Flow'',
      Tags = []\<rparr>))]) ''id-1'' = Inl (Fatal_parseFileName ''id-1-Flow-10.json'' InvalidSessionFileName)"
    by code_simp
  show "list_all (\<lambda>e. \<not> file_with_id ''2'' e) [(''id-1-Flow-10.json'',
      File (Marshaled \<lparr>Id = ''id-1'', StartTime = time_Unix 10 0, Project = ''Flow'', Tags = []\<rparr>))]"
    by code_simp
  show "Delete (Folder [(''id-1-Flow-10.json'', File (Marshaled \<lparr>Id = ''id-1'',
      StartTime = time_Unix 10 0, Project = ''Flow'',
      Tags = []\<rparr>))]) ''2'' = Inl (Fatal_parseFileName ''id-1-Flow-10.json'' InvalidSessionFileName)"
    by code_simp
  show "file_with_id ''1'' (''1-A-10.json'', File (Marshaled \<lparr>Id = ''1'',
      StartTime = time_Unix 10 0, Project = ''A'', Tags = []\<rparr>))"
    by code_simp
  show "Delete (Folder [(''id-1-Flow-10.json'', File (Marshaled \<lparr>Id = ''id-1'',
      StartTime = time_Unix 10 0, Project = ''Flow'', Tags = []\<rparr>)), (''1-A-10.json'',
      File (Marshaled \<lparr>Id = ''1'', StartTime = time_Unix 10 0, Project = ''A'',
      Tags = []\<rparr>))]) ''1'' = Inl (Fatal_parseFileName ''id-1-Flow-10.json'' InvalidSessionFileName)"
    by code_simp
  show "Delete (Folder [(''1-A-10.json'', File (Marshaled \<lparr>Id = ''1'',
      StartTime = time_Unix 10 0, Project = ''A'', Tags = []\<rparr>)), (''id-1-Flow-10.json'',
      File (Marshaled \<lparr>Id = ''id-1'', StartTime = time_Unix 10 0, Project = ''Flow'',
      Tags = []\<rparr>))]) ''1'' = Inr (None, Folder [(''id-1-Flow-10.json'',
      File (Marshaled \<lparr>Id = ''id-1'', StartTime = time_Unix 10 0, Project = ''Flow'',
      Tags = []\<rparr>))])"
    by code_simp
  show "FindById (Folder [(''id-1-Flow-10.json'', File (Marshaled \<lparr>Id = ''id-1'',
      StartTime = time_Unix 10 0, Project = ''Flow'', Tags = []\<rparr>))]) ''1'' = ([],
      Inl (Fatal_parseFileName ''id-1-Flow-10.json'' InvalidSessionFileName))"
    by code_simp
qed

subsection \<open>Saving and finding again\<close>

lemma parse_getSessionFileName:
  assumes "CHR ''-'' \<notin> set (Id s)" "0 \<le> sint (Unix (StartTime s))"
  shows "parseSessionFileName (getSessionFileName s) =
     Inr \<lparr>fn_StartTime = time_Unix (Unix (StartTime s)) 0,
          fn_Id = Id s,
          fn_Project = filter is_alnum (Project s)\<rparr>"
proof -
  let ?p = "filter is_alnum (Project s)"
  let ?c = "FormatInt (Unix (StartTime s)) @ ''.json''"
  have n: "getSessionFileName s = Id s @ ''-'' @ ?p @ ''-'' @ ?c"
    by (simp add: getSessionFileName_def String_def StrippedProject_def)
  have p: "CHR ''-'' \<notin> set ?p"
    using is_alnum_not_dash by auto
  have "CHR ''-'' \<notin> set (FormatInt (Unix (StartTime s)))"
    using assms(2) dash_notin_digits [of "sint (Unix (StartTime s))"] by (simp add: FormatInt_def)
  then have c: "CHR ''-'' \<notin> set ?c" by simp
  have "ParseInt (TrimSuffix ?c ''.json'') = Inr (Unix (StartTime s))"
    by (simp only: TrimSuffix_append ParseInt_FormatInt)
  then show ?thesis
    unfolding n parseSessionFileName_parts [OF assms(1) p c] by simp
qed

lemma dash_in_getSessionFileName: "CHR ''-'' \<in> set (getSessionFileName s)"
  by (simp add: getSessionFileName_def String_def)

lemma below_folder_plain:
  assumes "plain_name name" "CHR ''-'' \<in> set name"
  shows "below_folder [] (Split name CHR ''/'') = Some [name]"
proof -
  from assms(1) have "CHR ''/'' \<notin> set name"
    by (auto simp: plain_name_def list_all_iff)
  then have s: "Split name CHR ''/'' = [name]" by (rule Split_no_sep)
  from assms(2) have "name \<noteq> []" "name \<noteq> ''.''" "name \<noteq> ''..''" by auto
  with s show ?thesis by simp
qed

lemma map_of_rewrite:
  "map_of es name = Some nd \<Longrightarrow>
   map_of (map (\<lambda>(n, nd). if n = name then (n, File b) else (n, nd)) es) name = Some (File b)"
  by (induction es) (auto split: if_splits)

lemma map_of_placed:
  assumes "map_of es name = None"
  shows "map_of (take place es @ (name, v) # drop place es) name = Some v"
proof -
  from assms have "name \<notin> fst ` set es" by (simp add: map_of_eq_None_iff)
  then have "name \<notin> fst ` set (take place es)"
    using set_take_subset [of place es] by blast
  then have "map_of (take place es) name = None" by (simp add: map_of_eq_None_iff)
  then show ?thesis by (simp add: map_add_def)
qed

lemma os_WriteFile_plain:
  assumes "plain_name name" "CHR ''-'' \<in> set name"
  shows "os_WriteFile place (Folder es) name b =
     (case map_of es name of
        Some Dir \<Rightarrow> Some (Some PathError, Folder es)
      | Some (File old) \<Rightarrow>
          Some (None, Folder (map (\<lambda>(n, nd). if n = name then (n, File b) else (n, nd)) es))
      | None \<Rightarrow> Some (None, Folder (take place es @ (name, File b) # drop place es)))"
proof -
  from assms(1) have nul: "\<not> list_ex (\<lambda>c. of_char c = (0 :: nat)) name"
    and len: "\<not> length name > 255"
    by (auto simp: plain_name_def list_all_iff list_ex_iff)
  show ?thesis
    unfolding os_WriteFile_def using nul len
    by (simp add: below_folder_plain [OF assms])
qed

lemma os_WriteFile_written:
  assumes "plain_name name" "CHR ''-'' \<in> set name" "map_of es name \<noteq> Some Dir"
  shows "\<exists>es'. os_WriteFile place (Folder es) name b = Some (None, Folder es') \<and>
           map_of es' name = Some (File b) \<and>
           (name, File b) \<in> set es' \<and>
           (\<forall>e \<in> set es'. e \<in> set es \<or> e = (name, File b))"
proof (cases "map_of es name")
  case None
  let ?es' = "take place es @ (name, File b) # drop place es"
  from None have w: "os_WriteFile place (Folder es) name b = Some (None, Folder ?es')"
    by (simp add: os_WriteFile_plain [OF assms(1,2)])
  from None have m: "map_of ?es' name = Some (File b)" by (rule map_of_placed)
  have "\<forall>e \<in> set ?es'. e \<in> set es \<or> e = (name, File b)"
    using set_take_subset [of place es] set_drop_subset [of place es] by auto
  with w m show ?thesis by auto
next
  case (Some nd)
  with assms(3) obtain old where old: "nd = File old" by (cases nd) auto
  let ?es' = "map (\<lambda>(n, nd). if n = name then (n, File b) else (n, nd)) es"
  from Some old have w: "os_WriteFile place (Folder es) name b = Some (None, Folder ?es')"
    by (simp add: os_WriteFile_plain [OF assms(1,2)])
  from Some have m: "map_of ?es' name = Some (File b)" by (rule map_of_rewrite)
  then have i: "(name, File b) \<in> set ?es'" by (rule map_of_SomeD)
  have "\<forall>e \<in> set ?es'. e \<in> set es \<or> e = (name, File b)" by (auto split: if_splits)
  with w m i show ?thesis by blast
qed

lemma json_time_whole_minutes: "60 dvd zone \<Longrightarrow> json_time zone t = t"
proof -
  assume "60 dvd zone"
  then have "zone - 60 * zone_minutes zone = 0"
    by (auto simp: zone_minutes_def)
  then show ?thesis by (simp add: json_time_def)
qed

text \<open>Claim C1, as amended. For every session whose id has no \<open>-\<close>, whose file name is
  one path element (no \<open>/\<close> and no NUL byte in the id, at most 255 bytes), whose start time
  is not before the Unix epoch and which the JSON encoder accepts, for every folder where
  the name of every regular file decodes, where no file under another name decodes to
  the session's id and where the session's file name is not that of a subdirectory, and
  wherever the file system places a new file: \<open>Save\<close> returns \<open>nil\<close>, and \<open>FindById\<close> with
  the session's id then reads the one file \<open>Save\<close> wrote and returns what the JSON round
  trip makes of the session. That is the session itself, all fields equal, the
  nanoseconds of \<open>StartTime\<close> included, when its strings are valid UTF-8 and the offset of
  its zone is whole minutes.\<close>

theorem Save_then_FindById:
  "(CHR ''-'' \<notin> set (Id s) \<and> 0 \<le> sint (Unix (StartTime s)) \<and>
    plain_name (getSessionFileName s) \<and>
    json_MarshalIndent zone s = Inr b \<and>
    names_decode es \<and> map_of es (getSessionFileName s) \<noteq> Some Dir \<and>
    list_all (\<lambda>e. fst e = getSessionFileName s \<or> \<not> file_with_id (Id s) e) es
    \<longrightarrow> (\<exists>es'. Save place zone (Folder es) s = Some (None, Folder es') \<and>
               FindById (Folder es') (Id s) =
                 ([getSessionFileName s], Inr (Some (json_roundtrip zone s)))))
   \<and> (json_string (Id s) = Id s \<and> json_string (Project s) = Project s \<and>
       list_all (\<lambda>tag. json_string tag = tag) (Tags s) \<and> 60 dvd zone
       \<longrightarrow> json_roundtrip zone s = s)"
proof (intro conjI impI)
  assume h: "CHR ''-'' \<notin> set (Id s) \<and> 0 \<le> sint (Unix (StartTime s)) \<and>
    plain_name (getSessionFileName s) \<and>
    json_MarshalIndent zone s = Inr b \<and>
    names_decode es \<and> map_of es (getSessionFileName s) \<noteq> Some Dir \<and>
    list_all (\<lambda>e. fst e = getSessionFileName s \<or> \<not> file_with_id (Id s) e) es"
  let ?name = "getSessionFileName s"
  let ?b = "Marshaled (json_roundtrip zone s)"
  from h have "json_MarshalIndent zone s = Inr b" by blast
  then have mb: "json_MarshalIndent zone s = Inr ?b"
    by (auto simp: json_MarshalIndent_def Let_def split: if_splits)
  from h have p: "parseSessionFileName ?name =
     Inr \<lparr>fn_StartTime = time_Unix (Unix (StartTime s)) 0,
          fn_Id = Id s, fn_Project = filter is_alnum (Project s)\<rparr>"
    by (simp add: parse_getSessionFileName)
  then have new: "file_with_id (Id s) (?name, File ?b)"
    by (simp add: file_with_id_iff)
  from h have pl: "plain_name ?name" and nodir: "map_of es ?name \<noteq> Some Dir" by blast+
  from os_WriteFile_written [OF pl dash_in_getSessionFileName nodir, of place ?b] obtain es' where
    w: "os_WriteFile place (Folder es) ?name ?b = Some (None, Folder es')"
    and m: "map_of es' ?name = Some (File ?b)"
    and i: "(?name, File ?b) \<in> set es'"
    and o: "\<forall>e \<in> set es'. e \<in> set es \<or> e = (?name, File ?b)"
    by blast
  from mb w have sv: "Save place zone (Folder es) s = Some (None, Folder es')"
    by (simp add: Save_def)
  have nd: "names_decode es'"
    unfolding names_decode_def list_all_iff
  proof
    fix e assume "e \<in> set es'"
    with o have "e \<in> set es \<or> e = (?name, File ?b)" by blast
    then show "case snd e of
                 File b \<Rightarrow> (case parseSessionFileName (fst e) of
                              Inl err \<Rightarrow> False | Inr sessionFilename \<Rightarrow> True)
               | Dir \<Rightarrow> True"
    proof
      assume "e \<in> set es"
      with h show ?thesis by (simp add: names_decode_def list_all_iff)
    next
      assume "e = (?name, File ?b)"
      with p show ?thesis by simp
    qed
  qed
  from i new have "find (file_with_id (Id s)) es' \<noteq> None"
    unfolding find_None_iff by blast
  then obtain e where e: "find (file_with_id (Id s)) es' = Some e" by blast
  then have "e \<in> set es'" and fe: "file_with_id (Id s) e" by (auto simp: find_Some_iff)
  with o have "e \<in> set es \<or> e = (?name, File ?b)" by blast
  then have "fst e = ?name"
  proof
    assume "e \<in> set es"
    with h fe show ?thesis by (auto simp: list_all_iff)
  next
    assume "e = (?name, File ?b)"
    then show ?thesis by simp
  qed
  with e m have "FindById (Folder es') (Id s) = ([?name], Inr (Some (json_roundtrip zone s)))"
    by (simp add: FindById_def readFlowFolder_Folder FindById_loop_eq [OF nd]
        os_ReadFile_def rawFileToSession_def)
  with sv show "\<exists>es'. Save place zone (Folder es) s = Some (None, Folder es') \<and>
               FindById (Folder es') (Id s) =
                 ([?name], Inr (Some (json_roundtrip zone s)))"
    by blast
next
  assume v: "json_string (Id s) = Id s \<and> json_string (Project s) = Project s \<and>
       list_all (\<lambda>tag. json_string tag = tag) (Tags s) \<and> 60 dvd zone"
  then have "map json_string (Tags s) = Tags s"
    by (simp add: list_all_iff map_idI)
  with v show "json_roundtrip zone s = s"
    by (simp add: json_roundtrip_def json_time_whole_minutes)
qed

theorem Save_then_FindById_witness:
  "CHR ''-'' \<notin> set (Id \<lparr>Id = ''1'', StartTime = \<lparr>sec = 62135596810, nsec = 500000000\<rparr>,
      Project = ''My Project'', Tags = [''start'']\<rparr>)
   \<and> 0 \<le> sint (Unix (StartTime \<lparr>Id = ''1'', StartTime = \<lparr>sec = 62135596810, nsec = 500000000\<rparr>,
       Project = ''My Project'', Tags = [''start'']\<rparr>))
   \<and> plain_name (getSessionFileName \<lparr>Id = ''1'', StartTime = \<lparr>sec = 62135596810,
       nsec = 500000000\<rparr>, Project = ''My Project'', Tags = [''start'']\<rparr>)
   \<and> json_MarshalIndent 3600 \<lparr>Id = ''1'', StartTime = \<lparr>sec = 62135596810, nsec = 500000000\<rparr>,
       Project = ''My Project'', Tags = [''start'']\<rparr> = Inr (Marshaled \<lparr>Id = ''1'',
       StartTime = \<lparr>sec = 62135596810, nsec = 500000000\<rparr>, Project = ''My Project'',
       Tags = [''start'']\<rparr>)
   \<and> names_decode [(''2-Flow-20.json'', File (Marshaled \<lparr>Id = ''2'', StartTime = time_Unix 20 0,
       Project = ''Flow'', Tags = []\<rparr>)), (''archive'', Dir)]
   \<and> map_of [(''2-Flow-20.json'', File (Marshaled \<lparr>Id = ''2'', StartTime = time_Unix 20 0,
       Project = ''Flow'', Tags = []\<rparr>)), (''archive'', Dir)] (getSessionFileName \<lparr>Id = ''1'',
       StartTime = \<lparr>sec = 62135596810, nsec = 500000000\<rparr>, Project = ''My Project'',
       Tags = [''start'']\<rparr>) \<noteq> Some Dir
   \<and> list_all (\<lambda>e. fst e = getSessionFileName \<lparr>Id = ''1'', StartTime = \<lparr>sec = 62135596810,
       nsec = 500000000\<rparr>, Project = ''My Project'',
       Tags = [''start'']\<rparr> \<or> \<not> file_with_id (Id \<lparr>Id = ''1'', StartTime = \<lparr>sec = 62135596810,
       nsec = 500000000\<rparr>, Project = ''My Project'', Tags = [''start'']\<rparr>) e) [(''2-Flow-20.json'',
       File (Marshaled \<lparr>Id = ''2'', StartTime = time_Unix 20 0, Project = ''Flow'', Tags = []\<rparr>)),
       (''archive'', Dir)]
   \<and> json_string (Id \<lparr>Id = ''1'', StartTime = \<lparr>sec = 62135596810, nsec = 500000000\<rparr>,
       Project = ''My Project'', Tags = [''start'']\<rparr>) = Id \<lparr>Id = ''1'',
       StartTime = \<lparr>sec = 62135596810, nsec = 500000000\<rparr>, Project = ''My Project'',
       Tags = [''start'']\<rparr>
   \<and> json_string (Project \<lparr>Id = ''1'', StartTime = \<lparr>sec = 62135596810, nsec = 500000000\<rparr>,
       Project = ''My Project'', Tags = [''start'']\<rparr>) = Project \<lparr>Id = ''1'',
       StartTime = \<lparr>sec = 62135596810, nsec = 500000000\<rparr>, Project = ''My Project'',
       Tags = [''start'']\<rparr>
   \<and> list_all (\<lambda>tag. json_string tag = tag) (Tags \<lparr>Id = ''1'', StartTime = \<lparr>sec = 62135596810,
       nsec = 500000000\<rparr>, Project = ''My Project'', Tags = [''start'']\<rparr>)
   \<and> json_roundtrip 3600 \<lparr>Id = ''1'', StartTime = \<lparr>sec = 62135596810, nsec = 500000000\<rparr>,
       Project = ''My Project'', Tags = [''start'']\<rparr> = \<lparr>Id = ''1'',
       StartTime = \<lparr>sec = 62135596810, nsec = 500000000\<rparr>, Project = ''My Project'',
       Tags = [''start'']\<rparr>
   \<and> Save 1 3600 (Folder [(''2-Flow-20.json'', File (Marshaled \<lparr>Id = ''2'',
       StartTime = time_Unix 20 0, Project = ''Flow'', Tags = []\<rparr>)), (''archive'',
       Dir)]) \<lparr>Id = ''1'', StartTime = \<lparr>sec = 62135596810, nsec = 500000000\<rparr>,
       Project = ''My Project'', Tags = [''start'']\<rparr> = Some (None, Folder [(''2-Flow-20.json'',
       File (Marshaled \<lparr>Id = ''2'', StartTime = time_Unix 20 0, Project = ''Flow'', Tags = []\<rparr>)),
       (''1-MyProject-10.json'', File (Marshaled \<lparr>Id = ''1'', StartTime = \<lparr>sec = 62135596810,
       nsec = 500000000\<rparr>, Project = ''My Project'', Tags = [''start'']\<rparr>)), (''archive'', Dir)])
   \<and> (\<exists>es'. Save 1 3600 (Folder [(''2-Flow-20.json'', File (Marshaled \<lparr>Id = ''2'',
       StartTime = time_Unix 20 0, Project = ''Flow'', Tags = []\<rparr>)), (''archive'',
       Dir)]) \<lparr>Id = ''1'', StartTime = \<lparr>sec = 62135596810, nsec = 500000000\<rparr>,
       Project = ''My Project'', Tags = [''start'']\<rparr> = Some (None, Folder es') \<and>
             FindById (Folder es') (Id \<lparr>Id = ''1'', StartTime = \<lparr>sec = 62135596810,
                 nsec = 500000000\<rparr>, Project = ''My Project'',
                 Tags = [''start'']\<rparr>) = ([getSessionFileName \<lparr>Id = ''1'',
                 StartTime = \<lparr>sec = 62135596810, nsec = 500000000\<rparr>, Project = ''My Project'',
                 Tags = [''start'']\<rparr>], Inr (Some \<lparr>Id = ''1'', StartTime = \<lparr>sec = 62135596810,
                 nsec = 500000000\<rparr>, Project = ''My Project'', Tags = [''start'']\<rparr>)))"
proof -
  let ?s = "\<lparr>Id = ''1'', StartTime = \<lparr>sec = 62135596810, nsec = 500000000\<rparr>,
      Project = ''My Project'', Tags = [''start'']\<rparr>"
  let ?es = "[(''2-Flow-20.json'', File (Marshaled \<lparr>Id = ''2'', StartTime = time_Unix 20 0,
      Project = ''Flow'', Tags = []\<rparr>)), (''archive'', Dir)]"
  have a: "CHR ''-'' \<notin> set (Id ?s)" by simp
  have b: "0 \<le> sint (Unix (StartTime ?s))" by code_simp
  have p: "plain_name (getSessionFileName ?s)" by code_simp
  have c: "json_MarshalIndent 3600 ?s = Inr (Marshaled ?s)" by code_simp
  have d: "names_decode ?es" by code_simp
  have e: "map_of ?es (getSessionFileName ?s) \<noteq> Some Dir" by code_simp
  have f: "list_all (\<lambda>e. fst e = getSessionFileName ?s \<or> \<not> file_with_id (Id ?s) e) ?es"
    by code_simp
  have u1: "json_string (Id ?s) = Id ?s" by code_simp
  have u2: "json_string (Project ?s) = Project ?s" by code_simp
  have u3: "list_all (\<lambda>tag. json_string tag = tag) (Tags ?s)" by code_simp
  have z: "(60 :: int) dvd 3600" by simp
  have g: "Save 1 3600 (Folder ?es) ?s = Some (None, Folder [(''2-Flow-20.json'',
      File (Marshaled \<lparr>Id = ''2'', StartTime = time_Unix 20 0, Project = ''Flow'', Tags = []\<rparr>)),
      (''1-MyProject-10.json'', File (Marshaled \<lparr>Id = ''1'', StartTime = \<lparr>sec = 62135596810,
      nsec = 500000000\<rparr>, Project = ''My Project'', Tags = [''start'']\<rparr>)), (''archive'', Dir)])"
    by code_simp
  note t = Save_then_FindById [where s = "?s" and es = "?es" and zone = 3600 and place = 1
      and b = "Marshaled ?s"]
  from t [THEN conjunct2] u1 u2 u3 z
  have r: "json_roundtrip 3600 ?s = ?s" by blast
  from t [THEN conjunct1] a b p c d e f
  have "\<exists>es'. Save 1 3600 (Folder ?es) ?s = Some (None, Folder es') \<and>
             FindById (Folder es') (Id ?s) =
               ([getSessionFileName ?s], Inr (Some (json_roundtrip 3600 ?s)))"
    by blast
  then have k: "\<exists>es'. Save 1 3600 (Folder ?es) ?s = Some (None, Folder es') \<and>
             FindById (Folder es') (Id ?s) = ([getSessionFileName ?s], Inr (Some ?s))"
    unfolding r .
  from a b p c d e f u1 u2 u3 r g k show ?thesis by blast
qed

theorem Save_then_FindById_counterexample:
  "Save 0 0 (Folder []) \<lparr>Id = ''1'', StartTime = \<lparr>sec = 62135596810, nsec = 500000000\<rparr>,
      Project = ''My Project'', Tags = [''start'']\<rparr> = Some (None,
      Folder [(''1-MyProject-10.json'', File (Marshaled \<lparr>Id = ''1'',
      StartTime = \<lparr>sec = 62135596810, nsec = 500000000\<rparr>, Project = ''My Project'',
      Tags = [''start'']\<rparr>))])
   \<and> FindById (Folder [(''1-MyProject-10.json'', File (Marshaled \<lparr>Id = ''1'',
       StartTime = \<lparr>sec = 62135596810, nsec = 500000000\<rparr>, Project = ''My Project'',
       Tags = [''start'']\<rparr>))]) ''1'' = ([''1-MyProject-10.json''], Inr (Some \<lparr>Id = ''1'',
       StartTime = \<lparr>sec = 62135596810, nsec = 500000000\<rparr>, Project = ''My Project'',
       Tags = [''start'']\<rparr>))
   \<and> nsec (StartTime \<lparr>Id = ''1'', StartTime = \<lparr>sec = 62135596810, nsec = 500000000\<rparr>,
       Project = ''My Project'', Tags = [''start'']\<rparr>) = 500000000
   \<and> snd (FindById (Folder [(''1-MyProject-10.json'', File (Marshaled \<lparr>Id = ''1'',
       StartTime = \<lparr>sec = 62135596810, nsec = 500000000\<rparr>, Project = ''My Project'',
       Tags = [''start'']\<rparr>))]) ''1'')
       \<noteq> Inr (Some (\<lparr>Id = ''1'', StartTime = \<lparr>sec = 62135596810, nsec = 500000000\<rparr>,
           Project = ''My Project'',
           Tags = [''start'']\<rparr>\<lparr>StartTime := time_Unix (Unix (StartTime \<lparr>Id = ''1'',
           StartTime = \<lparr>sec = 62135596810, nsec = 500000000\<rparr>, Project = ''My Project'',
           Tags = [''start'']\<rparr>)) 0\<rparr>))
   \<and> Save 0 0 (Folder []) \<lparr>Id = ''1'', StartTime = time_Unix (- 5) 0, Project = ''My Project'',
       Tags = [''start'']\<rparr> = Some (None, Folder [(''1-MyProject--5.json'',
       File (Marshaled \<lparr>Id = ''1'', StartTime = time_Unix (- 5) 0, Project = ''My Project'',
       Tags = [''start'']\<rparr>))])
   \<and> FindById (Folder [(''1-MyProject--5.json'', File (Marshaled \<lparr>Id = ''1'',
       StartTime = time_Unix (- 5) 0, Project = ''My Project'', Tags = [''start'']\<rparr>))]) ''1''
       = ([], Inl (Fatal_parseFileName ''1-MyProject--5.json'' InvalidSessionFileName))
   \<and> Save 0 0 (Folder []) \<lparr>Id = ''a/b'', StartTime = time_Unix 10 0, Project = ''Flow'',
       Tags = []\<rparr> = Some (Some PathError, Folder [])
   \<and> Save 0 0 (Folder []) \<lparr>Id = ''1'', StartTime = time_Unix 10 0, Project = [CHR ''F'',
       CHR 0xFF], Tags = []\<rparr> = Some (None, Folder [(''1-F-10.json'', File (Marshaled \<lparr>Id = ''1'',
       StartTime = time_Unix 10 0, Project = [CHR ''F'', CHR 0xEF, CHR 0xBF, CHR 0xBD],
       Tags = []\<rparr>))])
   \<and> FindById (Folder [(''1-F-10.json'', File (Marshaled \<lparr>Id = ''1'', StartTime = time_Unix 10 0,
       Project = [CHR ''F'', CHR 0xEF, CHR 0xBF, CHR 0xBD],
       Tags = []\<rparr>))]) ''1'' = ([''1-F-10.json''], Inr (Some \<lparr>Id = ''1'',
       StartTime = time_Unix 10 0, Project = [CHR ''F'', CHR 0xEF, CHR 0xBF, CHR 0xBD],
       Tags = []\<rparr>))"
proof (intro conjI)
  show "Save 0 0 (Folder []) \<lparr>Id = ''1'', StartTime = \<lparr>sec = 62135596810, nsec = 500000000\<rparr>,
      Project = ''My Project'', Tags = [''start'']\<rparr> = Some (None,
      Folder [(''1-MyProject-10.json'', File (Marshaled \<lparr>Id = ''1'',
      StartTime = \<lparr>sec = 62135596810, nsec = 500000000\<rparr>, Project = ''My Project'',
      Tags = [''start'']\<rparr>))])"
    by code_simp
  show "FindById (Folder [(''1-MyProject-10.json'', File (Marshaled \<lparr>Id = ''1'',
      StartTime = \<lparr>sec = 62135596810, nsec = 500000000\<rparr>, Project = ''My Project'',
      Tags = [''start'']\<rparr>))]) ''1'' = ([''1-MyProject-10.json''], Inr (Some \<lparr>Id = ''1'',
      StartTime = \<lparr>sec = 62135596810, nsec = 500000000\<rparr>, Project = ''My Project'',
      Tags = [''start'']\<rparr>))"
    by code_simp
  show "nsec (StartTime \<lparr>Id = ''1'', StartTime = \<lparr>sec = 62135596810, nsec = 500000000\<rparr>,
      Project = ''My Project'', Tags = [''start'']\<rparr>) = 500000000"
    by simp
  have "FindById (Folder [(''1-MyProject-10.json'', File (Marshaled \<lparr>Id = ''1'',
      StartTime = \<lparr>sec = 62135596810, nsec = 500000000\<rparr>, Project = ''My Project'',
      Tags = [''start'']\<rparr>))]) ''1'' = ([''1-MyProject-10.json''], Inr (Some \<lparr>Id = ''1'',
      StartTime = \<lparr>sec = 62135596810, nsec = 500000000\<rparr>, Project = ''My Project'',
      Tags = [''start'']\<rparr>))"
    by code_simp
  then show "snd (FindById (Folder [(''1-MyProject-10.json'', File (Marshaled \<lparr>Id = ''1'',
      StartTime = \<lparr>sec = 62135596810, nsec = 500000000\<rparr>, Project = ''My Project'',
      Tags = [''start'']\<rparr>))]) ''1'')
       \<noteq> Inr (Some (\<lparr>Id = ''1'', StartTime = \<lparr>sec = 62135596810, nsec = 500000000\<rparr>,
           Project = ''My Project'',
           Tags = [''start'']\<rparr>\<lparr>StartTime := time_Unix (Unix (StartTime \<lparr>Id = ''1'',
           StartTime = \<lparr>sec = 62135596810, nsec = 500000000\<rparr>, Project = ''My Project'',
           Tags = [''start'']\<rparr>)) 0\<rparr>))"
    by (simp add: time_Unix_def)
  show "Save 0 0 (Folder []) \<lparr>Id = ''1'', StartTime = time_Unix (- 5) 0,
      Project = ''My Project'', Tags = [''start'']\<rparr> = Some (None,
      Folder [(''1-MyProject--5.json'', File (Marshaled \<lparr>Id = ''1'',
      StartTime = time_Unix (- 5) 0, Project = ''My Project'', Tags = [''start'']\<rparr>))])"
    by code_simp
  show "FindById (Folder [(''1-MyProject--5.json'', File (Marshaled \<lparr>Id = ''1'',
      StartTime = time_Unix (- 5) 0, Project = ''My Project'', Tags = [''start'']\<rparr>))]) ''1''
       = ([], Inl (Fatal_parseFileName ''1-MyProject--5.json'' InvalidSessionFileName))"
    by code_simp
  show "Save 0 0 (Folder []) \<lparr>Id = ''a/b'', StartTime = time_Unix 10 0, Project = ''Flow'',
      Tags = []\<rparr> = Some (Some PathError, Folder [])"
    by code_simp
  show "Save 0 0 (Folder []) \<lparr>Id = ''1'', StartTime = time_Unix 10 0, Project = [CHR ''F'',
      CHR 0xFF], Tags = []\<rparr> = Some (None, Folder [(''1-F-10.json'', File (Marshaled \<lparr>Id = ''1'',
      StartTime = time_Unix 10 0, Project = [CHR ''F'', CHR 0xEF, CHR 0xBF, CHR 0xBD],
      Tags = []\<rparr>))])"
    by code_simp
  show "FindById (Folder [(''1-F-10.json'', File (Marshaled \<lparr>Id = ''1'',
      StartTime = time_Unix 10 0, Project = [CHR ''F'', CHR 0xEF, CHR 0xBF, CHR 0xBD],
      Tags = []\<rparr>))]) ''1'' = ([''1-F-10.json''], Inr (Some \<lparr>Id = ''1'',
      StartTime = time_Unix 10 0, Project = [CHR ''F'', CHR 0xEF, CHR 0xBF, CHR 0xBD], Tags = []\<rparr>))"
    by code_simp
qed

subsection \<open>The last session\<close>

lemma names_canonical_Cons:
  "names_canonical (e # es) \<longleftrightarrow>
     (snd e = Dir \<or> (\<exists>sf. parseSessionFileName (fst e) = Inr sf \<and> String sf = fst e))
     \<and> names_canonical es"
  by (cases "snd e"; cases "parseSessionFileName (fst e)") (auto simp: names_canonical_def)

lemma names_canonical_decode: "names_canonical es \<Longrightarrow> names_decode es"
proof (induction es)
  case Nil
  then show ?case by (simp add: names_decode_def)
next
  case (Cons e es)
  then show ?case
    unfolding names_canonical_Cons names_decode_Cons by blast
qed

lemma names_canonical_member:
  "names_canonical es \<Longrightarrow> (n, File b) \<in> set es \<Longrightarrow>
     \<exists>sf. parseSessionFileName n = Inr sf \<and> String sf = n"
  by (induction es) (auto simp: names_canonical_Cons)

lemma names_decode_member:
  "names_decode es \<Longrightarrow> e \<in> set es \<Longrightarrow> snd e \<noteq> Dir \<Longrightarrow>
     \<exists>sf. parseSessionFileName (fst e) = Inr sf"
  by (induction es) (auto simp: names_decode_Cons)

lemma FindLastSession_loop_eq:
  assumes "names_decode es"
  shows "FindLastSession_loop fileNames (map (\<lambda>(n, nd). \<lparr>Name = n, IsDir = (nd = Dir)\<rparr>) es) =
     Inr (fileNames @ map (\<lambda>e. projr (parseSessionFileName (fst e)))
                         (filter (\<lambda>e. snd e \<noteq> Dir) es))"
  using assms
proof (induction es arbitrary: fileNames)
  case Nil
  then show ?case by simp
next
  case (Cons e es)
  from Cons.prems have d: "names_decode es" by (simp add: names_decode_Cons)
  show ?case
  proof (cases "snd e = Dir")
    case True
    then show ?thesis by (simp add: Cons.IH [OF d])
  next
    case False
    with Cons.prems obtain sf where "parseSessionFileName (fst e) = Inr sf"
      by (auto simp: names_decode_Cons)
    with False show ?thesis by (simp add: Cons.IH [OF d])
  qed
qed

lemma hd_sort_less_latest:
  assumes "fileNames \<noteq> []"
  shows "hd (sort_less (\<lambda>fi fj. Before (fn_StartTime fj) (fn_StartTime fi)) fileNames) \<in> set fileNames
     \<and> (\<forall>g \<in> set fileNames.
          \<not> Before (fn_StartTime (hd (sort_less (\<lambda>fi fj. Before (fn_StartTime fj) (fn_StartTime fi)) fileNames)))
                   (fn_StartTime g))"
proof -
  let ?lt = "\<lambda>fi fj. Before (fn_StartTime fj) (fn_StartTime fi)"
  let ?sorted = "sort_less ?lt fileNames"
  have s: "sorted_wrt (\<lambda>a b. \<not> ?lt b a) ?sorted
     \<and> set ?sorted = set fileNames
     \<and> length ?sorted = length fileNames"
  proof (rule sort_less_sorted)
    show "\<And>a b c. ?lt a b \<Longrightarrow> ?lt b c \<Longrightarrow> ?lt a c"
      by (blast intro: Before_trans)
    show "\<And>a b. ?lt a b \<Longrightarrow> \<not> ?lt b a"
      by (blast dest: Before_asym)
  qed
  with assms obtain x xs where c: "?sorted = x # xs" by (cases ?sorted) auto
  with s have x: "x \<in> set fileNames" by auto
  have "\<not> Before (fn_StartTime x) (fn_StartTime g)" if "g \<in> set fileNames" for g
  proof (cases "g = x")
    case True
    then show ?thesis using Before_asym by blast
  next
    case False
    with that s c have "g \<in> set xs" by auto
    with s c show ?thesis by simp
  qed
  with x c show ?thesis by simp
qed

lemma FindLastSession_no_file:
  assumes "names_canonical es" "list_all (\<lambda>e. snd e = Dir) es"
  shows "FindLastSession (Folder es) = ([], Inr None)"
proof -
  from assms(1) have nd: "names_decode es" by (rule names_canonical_decode)
  from assms(2) have "filter (\<lambda>e. snd e \<noteq> Dir) es = []"
    by (auto simp: list_all_iff filter_empty_conv)
  with FindLastSession_loop_eq [OF nd, of "[]"] show ?thesis
    by (simp add: FindLastSession_def readFlowFolder_Folder)
qed

lemma FindLastSession_reads_latest:
  assumes "distinct (map fst es)" "names_canonical es" "\<not> list_all (\<lambda>e. snd e = Dir) es"
  shows "\<exists>n b t. (n, File b) \<in> set es \<and> decoded_StartTime n = Some t \<and>
              list_all (\<lambda>e. snd e = Dir \<or>
                            (case decoded_StartTime (fst e) of
                               None \<Rightarrow> False
                             | Some t' \<Rightarrow> \<not> Before t t')) es \<and>
              FindLastSession (Folder es) =
                ([n], case json_Unmarshal b of
                        Inl err \<Rightarrow> Inl (Fatal_invalidData n)
                      | Inr session \<Rightarrow> Inr (Some session))"
proof -
  from assms(2) have nd: "names_decode es" by (rule names_canonical_decode)
  let ?dec = "\<lambda>e. projr (parseSessionFileName (fst e))"
  let ?files = "filter (\<lambda>e. snd e \<noteq> Dir) es"
  let ?fileNames = "map ?dec ?files"
  have lp: "FindLastSession_loop [] (map (\<lambda>(n, nd). \<lparr>Name = n,
      IsDir = (nd = Dir)\<rparr>) es) = Inr ?fileNames"
    using FindLastSession_loop_eq [OF nd, of "[]"] by simp
  from assms(3) have ne: "?fileNames \<noteq> []" by (auto simp: list_all_iff filter_empty_conv)
  let ?sorted = "sort_less (\<lambda>fi fj. Before (fn_StartTime fj) (fn_StartTime fi)) ?fileNames"
  from hd_sort_less_latest [OF ne]
  have hm: "hd ?sorted \<in> set ?fileNames"
    and mx: "\<forall>g \<in> set ?fileNames. \<not> Before (fn_StartTime (hd ?sorted)) (fn_StartTime g)"
    by blast+
  from hm obtain e where e: "e \<in> set es" "snd e \<noteq> Dir" "hd ?sorted = ?dec e" by auto
  from e(2) obtain b where sb: "snd e = File b" by (cases "snd e") auto
  define n where "n = fst e"
  have nb: "e = (n, File b)" using sb by (simp add: n_def prod_eq_iff)
  from assms(2) e(1) nb obtain sf where sf: "parseSessionFileName n = Inr sf" "String sf = n"
    using names_canonical_member [of es n b] by blast
  with e(3) nb have hs: "hd ?sorted = sf" by simp
  have t: "decoded_StartTime n = Some (fn_StartTime sf)"
    using sf by (simp add: decoded_StartTime_def)
  have all: "list_all (\<lambda>e. snd e = Dir \<or>
                          (case decoded_StartTime (fst e) of
                             None \<Rightarrow> False
                           | Some t' \<Rightarrow> \<not> Before (fn_StartTime sf) t')) es"
    unfolding list_all_iff
  proof
    fix x assume x: "x \<in> set es"
    show "snd x = Dir \<or> (case decoded_StartTime (fst x) of
                             None \<Rightarrow> False
                           | Some t' \<Rightarrow> \<not> Before (fn_StartTime sf) t')"
    proof (cases "snd x = Dir")
      case True
      then show ?thesis by simp
    next
      case False
      with nd x obtain xf where xf: "parseSessionFileName (fst x) = Inr xf"
        using names_decode_member [of es x] by blast
      from x False have m: "?dec x \<in> set ?fileNames" by simp
      from mx m have "\<not> Before (fn_StartTime (hd ?sorted)) (fn_StartTime (?dec x))"
        by blast
      then have "\<not> Before (fn_StartTime sf) (fn_StartTime xf)"
        using hs xf by simp
      with xf show ?thesis by (simp add: decoded_StartTime_def)
    qed
  qed
  from assms(1) e(1) nb have rd: "os_ReadFile (Folder es) n = Inr b"
    by (simp add: os_ReadFile_File)
  have "FindLastSession (Folder es) =
              ([n], case json_Unmarshal b of
                      Inl err \<Rightarrow> Inl (Fatal_invalidData n)
                    | Inr session \<Rightarrow> Inr (Some session))"
    using lp ne hs sf(2) rd
    by (simp add: FindLastSession_def readFlowFolder_Folder Let_def rawFileToSession_def
        split: sum.splits)
  with e(1) nb t all show ?thesis by blast
qed

text \<open>Claim C5, as amended. In a folder with distinct names where the name of every
  regular file decodes and is the encoding of what it decodes to: when the folder has a
  regular file, \<open>FindLastSession\<close> reads exactly one file, one whose decoded start time no
  other regular file's decoded start time is after, and returns the session its body
  deserializes to (ending in \<open>log.Fatalf\<close> when the body does not deserialize); when the
  folder has no regular file, and so when it is empty, it returns \<open>nil\<close> and reads
  nothing.\<close>

theorem FindLastSession_latest:
  "FindLastSession (Folder []) = ([], Inr None)
   \<and> (distinct (map fst es) \<and> names_canonical es \<longrightarrow>
        (list_all (\<lambda>e. snd e = Dir) es \<longrightarrow> FindLastSession (Folder es) = ([], Inr None))
      \<and> (\<not> list_all (\<lambda>e. snd e = Dir) es \<longrightarrow>
           (\<exists>n b t. (n, File b) \<in> set es \<and> decoded_StartTime n = Some t \<and>
              list_all (\<lambda>e. snd e = Dir \<or>
                            (case decoded_StartTime (fst e) of
                               None \<Rightarrow> False
                             | Some t' \<Rightarrow> \<not> Before t t')) es \<and>
              FindLastSession (Folder es) =
                ([n], case json_Unmarshal b of
                        Inl err \<Rightarrow> Inl (Fatal_invalidData n)
                      | Inr session \<Rightarrow> Inr (Some session)))))"
proof (intro conjI impI)
  show "FindLastSession (Folder []) = ([], Inr None)"
    by (simp add: FindLastSession_def readFlowFolder_Folder)
next
  assume h: "distinct (map fst es) \<and> names_canonical es"
  {
    assume "list_all (\<lambda>e. snd e = Dir) es"
    with h show "FindLastSession (Folder es) = ([], Inr None)"
      by (simp add: FindLastSession_no_file)
  }
  {
    assume n: "\<not> list_all (\<lambda>e. snd e = Dir) es"
    from h have d: "distinct (map fst es)" and c: "names_canonical es" by blast+
    from FindLastSession_reads_latest [OF d c n] show "\<exists>n b t. (n,
        File b) \<in> set es \<and> decoded_StartTime n = Some t \<and>
              list_all (\<lambda>e. snd e = Dir \<or>
                            (case decoded_StartTime (fst e) of
                               None \<Rightarrow> False
                             | Some t' \<Rightarrow> \<not> Before t t')) es \<and>
              FindLastSession (Folder es) =
                ([n], case json_Unmarshal b of
                        Inl err \<Rightarrow> Inl (Fatal_invalidData n)
                      | Inr session \<Rightarrow> Inr (Some session))" .
  }
qed

theorem FindLastSession_latest_witness:
  "distinct (map fst [(''a-Flow-10.json'', File (Marshaled \<lparr>Id = ''a'',
      StartTime = time_Unix 10 0, Project = ''Flow'', Tags = []\<rparr>)), (''archive'', Dir),
      (''b-Flow-30.json'', File (Marshaled \<lparr>Id = ''b'', StartTime = time_Unix 30 7,
      Project = ''Flow'', Tags = []\<rparr>)), (''c-Flow-20.json'', File (Marshaled \<lparr>Id = ''c'',
      StartTime = time_Unix 20 0, Project = ''Flow'', Tags = []\<rparr>))])
   \<and> names_canonical [(''a-Flow-10.json'', File (Marshaled \<lparr>Id = ''a'',
       StartTime = time_Unix 10 0, Project = ''Flow'', Tags = []\<rparr>)), (''archive'', Dir),
       (''b-Flow-30.json'', File (Marshaled \<lparr>Id = ''b'', StartTime = time_Unix 30 7,
       Project = ''Flow'', Tags = []\<rparr>)), (''c-Flow-20.json'', File (Marshaled \<lparr>Id = ''c'',
       StartTime = time_Unix 20 0, Project = ''Flow'', Tags = []\<rparr>))]
   \<and> \<not> list_all (\<lambda>e. snd e = Dir) [(''a-Flow-10.json'', File (Marshaled \<lparr>Id = ''a'',
       StartTime = time_Unix 10 0, Project = ''Flow'', Tags = []\<rparr>)), (''archive'', Dir),
       (''b-Flow-30.json'', File (Marshaled \<lparr>Id = ''b'', StartTime = time_Unix 30 7,
       Project = ''Flow'', Tags = []\<rparr>)), (''c-Flow-20.json'', File (Marshaled \<lparr>Id = ''c'',
       StartTime = time_Unix 20 0, Project = ''Flow'', Tags = []\<rparr>))]
   \<and> (\<exists>n b t. (n, File b) \<in> set [(''a-Flow-10.json'', File (Marshaled \<lparr>Id = ''a'',
       StartTime = time_Unix 10 0, Project = ''Flow'', Tags = []\<rparr>)), (''archive'', Dir),
       (''b-Flow-30.json'', File (Marshaled \<lparr>Id = ''b'', StartTime = time_Unix 30 7,
       Project = ''Flow'', Tags = []\<rparr>)), (''c-Flow-20.json'', File (Marshaled \<lparr>Id = ''c'',
       StartTime = time_Unix 20 0, Project = ''Flow'',
       Tags = []\<rparr>))] \<and> decoded_StartTime n = Some t \<and>
          list_all (\<lambda>e. snd e = Dir \<or>
                        (case decoded_StartTime (fst e) of
                           None \<Rightarrow> False
                         | Some t' \<Rightarrow> \<not> Before t t')) [(''a-Flow-10.json'',
                             File (Marshaled \<lparr>Id = ''a'', StartTime = time_Unix 10 0,
                             Project = ''Flow'', Tags = []\<rparr>)), (''archive'', Dir),
                             (''b-Flow-30.json'', File (Marshaled \<lparr>Id = ''b'',
                             StartTime = time_Unix 30 7, Project = ''Flow'', Tags = []\<rparr>)),
                             (''c-Flow-20.json'', File (Marshaled \<lparr>Id = ''c'',
                             StartTime = time_Unix 20 0, Project = ''Flow'', Tags = []\<rparr>))] \<and>
          FindLastSession (Folder [(''a-Flow-10.json'', File (Marshaled \<lparr>Id = ''a'',
              StartTime = time_Unix 10 0, Project = ''Flow'', Tags = []\<rparr>)), (''archive'', Dir),
              (''b-Flow-30.json'', File (Marshaled \<lparr>Id = ''b'', StartTime = time_Unix 30 7,
              Project = ''Flow'', Tags = []\<rparr>)), (''c-Flow-20.json'', File (Marshaled \<lparr>Id = ''c'',
              StartTime = time_Unix 20 0, Project = ''Flow'', Tags = []\<rparr>))]) =
            ([n], case json_Unmarshal b of
                    Inl err \<Rightarrow> Inl (Fatal_invalidData n)
                  | Inr session \<Rightarrow> Inr (Some session)))
   \<and> FindLastSession (Folder [(''a-Flow-10.json'', File (Marshaled \<lparr>Id = ''a'',
       StartTime = time_Unix 10 0, Project = ''Flow'', Tags = []\<rparr>)), (''archive'', Dir),
       (''b-Flow-30.json'', File (Marshaled \<lparr>Id = ''b'', StartTime = time_Unix 30 7,
       Project = ''Flow'', Tags = []\<rparr>)), (''c-Flow-20.json'', File (Marshaled \<lparr>Id = ''c'',
       StartTime = time_Unix 20 0, Project = ''Flow'', Tags = []\<rparr>))]) = ([''b-Flow-30.json''],
       Inr (Some \<lparr>Id = ''b'', StartTime = time_Unix 30 7, Project = ''Flow'', Tags = []\<rparr>))
   \<and> list_all (\<lambda>e. snd e = Dir) [(''archive'', Dir)]
   \<and> FindLastSession (Folder [(''archive'', Dir)]) = ([], Inr None)"
proof -
  let ?es = "[(''a-Flow-10.json'', File (Marshaled \<lparr>Id = ''a'', StartTime = time_Unix 10 0,
      Project = ''Flow'', Tags = []\<rparr>)), (''archive'', Dir), (''b-Flow-30.json'',
      File (Marshaled \<lparr>Id = ''b'', StartTime = time_Unix 30 7, Project = ''Flow'', Tags = []\<rparr>)),
      (''c-Flow-20.json'', File (Marshaled \<lparr>Id = ''c'', StartTime = time_Unix 20 0,
      Project = ''Flow'', Tags = []\<rparr>))]"
  have a: "distinct (map fst ?es) \<and> names_canonical ?es" by code_simp
  have b: "\<not> list_all (\<lambda>e. snd e = Dir) ?es" by simp
  have c: "FindLastSession (Folder ?es) = ([''b-Flow-30.json''], Inr (Some \<lparr>Id = ''b'',
      StartTime = time_Unix 30 7, Project = ''Flow'', Tags = []\<rparr>))"
    by code_simp
  have d: "distinct (map fst [(''archive'', Dir)]) \<and> names_canonical [(''archive'',
      Dir)]" by code_simp
  have e: "list_all (\<lambda>e. snd e = Dir) [(''archive'', Dir)]" by simp
  note t = FindLastSession_latest [of ?es, THEN conjunct2, rule_format, OF a]
  note u = FindLastSession_latest [of "[(''archive'', Dir)]", THEN conjunct2, rule_format, OF d]
  from t [THEN conjunct2, rule_format, OF b] u [THEN conjunct1, rule_format, OF e] a b c e
  show ?thesis by blast
qed

theorem FindLastSession_latest_counterexample:
  "parseSessionFileName ''a-Flow-10.json'' =
     Inr \<lparr>fn_StartTime = time_Unix 10 0, fn_Id = ''a'', fn_Project = ''Flow''\<rparr>
   \<and> FindLastSession (Folder [(''a-Flow-10.json'', File (Marshaled \<lparr>Id = ''a'',
       StartTime = time_Unix 10 0, Project = ''Flow'', Tags = []\<rparr>)), (''notes.txt'',
       File Malformed)])
       = ([], Inl (Fatal_parseFileName ''notes.txt'' InvalidSessionFileName))
   \<and> parseSessionFileName ''a-Flow-010.json'' =
     Inr \<lparr>fn_StartTime = time_Unix 10 0, fn_Id = ''a'', fn_Project = ''Flow''\<rparr>
   \<and> FindLastSession (Folder [(''a-Flow-010.json'', File (Marshaled \<lparr>Id = ''a'',
       StartTime = time_Unix 10 0, Project = ''Flow'', Tags = []\<rparr>))])
       = ([''a-Flow-10.json''], Inl (Fatal_readFile ''a-Flow-10.json'' PathError))"
proof (intro conjI)
  show "parseSessionFileName ''a-Flow-10.json'' =
     Inr \<lparr>fn_StartTime = time_Unix 10 0, fn_Id = ''a'', fn_Project = ''Flow''\<rparr>"
    by code_simp
  show "FindLastSession (Folder [(''a-Flow-10.json'', File (Marshaled \<lparr>Id = ''a'',
      StartTime = time_Unix 10 0, Project = ''Flow'', Tags = []\<rparr>)), (''notes.txt'',
      File Malformed)])
       = ([], Inl (Fatal_parseFileName ''notes.txt'' InvalidSessionFileName))"
    by code_simp
  show "parseSessionFileName ''a-Flow-010.json'' =
     Inr \<lparr>fn_StartTime = time_Unix 10 0, fn_Id = ''a'', fn_Project = ''Flow''\<rparr>"
    by code_simp
  show "FindLastSession (Folder [(''a-Flow-010.json'', File (Marshaled \<lparr>Id = ''a'',
      StartTime = time_Unix 10 0, Project = ''Flow'', Tags = []\<rparr>))])
       = ([''a-Flow-10.json''], Inl (Fatal_readFile ''a-Flow-10.json'' PathError))"
    by code_simp
qed

subsection \<open>Starting a session\<close>

lemma latest_fileI:
  assumes "(n, File b) \<in> set es" "decoded_StartTime n = Some t"
    "list_all (\<lambda>e. snd e = Dir \<or>
                  (case decoded_StartTime (fst e) of
                     None \<Rightarrow> False
                   | Some t' \<Rightarrow> \<not> Before t t')) es"
  shows "latest_file es (n, File b)"
proof -
  from assms(1) have m: "list_ex (\<lambda>e'. e' = (n, File b)) es" by (auto simp: list_ex_iff)
  from assms(3) have "list_all (\<lambda>e'. case snd e' of
                                 Dir \<Rightarrow> True
                               | File b' \<Rightarrow>
                                   (case decoded_StartTime (fst e') of
                                      None \<Rightarrow> False
                                    | Some t' \<Rightarrow> \<not> Before t t')) es"
    by (auto simp: list_all_iff split: node.splits)
  with m assms(2) show ?thesis by (simp add: latest_file_def)
qed

lemma Save_new_file:
  assumes "plain_name (getSessionFileName s)" "map_of es (getSessionFileName s) = None"
    "json_MarshalIndent zone s = Inr b"
  shows "Save place zone (Folder es) s =
     Some (None, Folder (take place es @ (getSessionFileName s, File b) # drop place es))"
  using assms by (simp add: Save_def os_WriteFile_plain [OF assms(1) dash_in_getSessionFileName])

text \<open>Claim C3, as amended. In a folder with distinct names where the name of every
  regular file is the encoding of what it decodes to (as the names that \<open>Save\<close> writes for
  an id without \<open>-\<close> and a start time not before the Unix epoch are): when the folder has
  a regular file and every most recent file (one whose decoded start time no other
  file's is after) holds an active session, \<open>start\<close> returns \<open>ErrSessionAlreadyStarted\<close>
  and the folder is as it was; when the folder has no regular file, or every most recent
  file holds a session that has ended, and the new session's file name is one path
  element that the folder does not have yet, and the JSON encoder accepts the session,
  \<open>start\<close> returns the session with the generated id, the current time and the command's
  project and tags, and the folder is as it was but for one new file, the bytes of that
  session under its file name.\<close>

theorem start_single_active:
  "distinct (map fst es) \<and> names_canonical es \<longrightarrow>
     (\<not> list_all (\<lambda>e. snd e = Dir) es \<and>
      list_all (\<lambda>e. latest_file es e \<longrightarrow> holds_active active e) es
      \<longrightarrow> start active now zone newId place (Folder es) command =
            Some (Inr (Inl ErrSessionAlreadyStarted, Folder es)))
   \<and> ((list_all (\<lambda>e. snd e = Dir) es \<or>
        list_all (\<lambda>e. latest_file es e \<longrightarrow> holds_ended active e) es) \<and>
       s = \<lparr>Id = newId, StartTime = now,
            Project = c_Project command, Tags = c_Tags command\<rparr> \<and>
       plain_name (getSessionFileName s) \<and>
       map_of es (getSessionFileName s) = None \<and>
       json_MarshalIndent zone s = Inr b
       \<longrightarrow> start active now zone newId place (Folder es) command =
            Some (Inr (Inr s,
              Folder (take place es @ (getSessionFileName s, File b) # drop place es))))"
proof (intro impI conjI)
  assume h: "distinct (map fst es) \<and> names_canonical es"
  have latest: "\<exists>n b. (n, File b) \<in> set es \<and> latest_file es (n, File b) \<and>
      FindLastSession (Folder es) =
                ([n], case json_Unmarshal b of
                        Inl err \<Rightarrow> Inl (Fatal_invalidData n)
                      | Inr session \<Rightarrow> Inr (Some session))"
    if "\<not> list_all (\<lambda>e. snd e = Dir) es"
  proof -
    from h that obtain n b t where "(n, File b) \<in> set es" "decoded_StartTime n = Some t"
      "list_all (\<lambda>e. snd e = Dir \<or>
                            (case decoded_StartTime (fst e) of
                               None \<Rightarrow> False
                             | Some t' \<Rightarrow> \<not> Before t t')) es"
      "FindLastSession (Folder es) =
                ([n], case json_Unmarshal b of
                        Inl err \<Rightarrow> Inl (Fatal_invalidData n)
                      | Inr session \<Rightarrow> Inr (Some session))"
      using FindLastSession_reads_latest [of es] by blast
    then show ?thesis using latest_fileI [of n b es t] by blast
  qed
  {
    assume a: "\<not> list_all (\<lambda>e. snd e = Dir) es \<and>
      list_all (\<lambda>e. latest_file es e \<longrightarrow> holds_active active e) es"
    with latest obtain n b0 where m: "(n, File b0) \<in> set es"
      and l: "latest_file es (n, File b0)"
      and f: "FindLastSession (Folder es) =
                ([n], case json_Unmarshal b0 of
                        Inl err \<Rightarrow> Inl (Fatal_invalidData n)
                      | Inr session \<Rightarrow> Inr (Some session))"
      by blast
    from a m l have "holds_active active (n, File b0)" by (auto simp: list_all_iff)
    then obtain l0 where "json_Unmarshal b0 = Inr l0" "active l0"
      by (auto simp: holds_active_def split: sum.splits)
    with f show "start active now zone newId place (Folder es) command =
            Some (Inr (Inl ErrSessionAlreadyStarted, Folder es))"
      by (simp add: start_def)
  }
  {
    assume c: "(list_all (\<lambda>e. snd e = Dir) es \<or>
        list_all (\<lambda>e. latest_file es e \<longrightarrow> holds_ended active e) es) \<and>
       s = \<lparr>Id = newId, StartTime = now,
            Project = c_Project command, Tags = c_Tags command\<rparr> \<and>
       plain_name (getSessionFileName s) \<and>
       map_of es (getSessionFileName s) = None \<and>
       json_MarshalIndent zone s = Inr b"
    then have s: "\<lparr>Id = newId, StartTime = now,
            Project = c_Project command, Tags = c_Tags command\<rparr> = s"
      by blast
    from c have p: "plain_name (getSessionFileName s)"
      and m: "map_of es (getSessionFileName s) = None"
      and j: "json_MarshalIndent zone s = Inr b"
      by blast+
    have sv: "Save place zone (Folder es) s =
       Some (None, Folder (take place es @ (getSessionFileName s, File b) # drop place es))"
      by (rule Save_new_file [OF p m j])
    have "\<exists>lastSession. snd (FindLastSession (Folder es)) = Inr lastSession \<and>
       \<not> (case lastSession of Some l \<Rightarrow> active l | None \<Rightarrow> False)"
    proof (cases "list_all (\<lambda>e. snd e = Dir) es")
      case True
      with h show ?thesis by (simp add: FindLastSession_no_file)
    next
      case False
      with latest obtain n b0 where m: "(n, File b0) \<in> set es"
        and l: "latest_file es (n, File b0)"
        and f: "FindLastSession (Folder es) =
                ([n], case json_Unmarshal b0 of
                        Inl err \<Rightarrow> Inl (Fatal_invalidData n)
                      | Inr session \<Rightarrow> Inr (Some session))"
        by blast
      from c False m l have "holds_ended active (n, File b0)" by (auto simp: list_all_iff)
      then obtain l0 where "json_Unmarshal b0 = Inr l0" "\<not> active l0"
        by (auto simp: holds_ended_def split: sum.splits)
      with f show ?thesis by simp
    qed
    then obtain lastSession where "snd (FindLastSession (Folder es)) = Inr lastSession"
      "\<not> (case lastSession of Some l \<Rightarrow> active l | None \<Rightarrow> False)"
      by blast
    with sv show "start active now zone newId place (Folder es) command =
            Some (Inr (Inr s,
              Folder (take place es @ (getSessionFileName s, File b) # drop place es)))"
      by (simp add: start_def s)
  }
qed

theorem start_single_active_witness:
  "distinct (map fst [(''1-A-10.json'', File (Marshaled \<lparr>Id = ''1'', StartTime = time_Unix 10 0,
      Project = ''A'', Tags = []\<rparr>)), (''2-B-20.json'', File (Marshaled \<lparr>Id = ''2'',
      StartTime = time_Unix 20 0, Project = ''B'',
      Tags = []\<rparr>))]) \<and> names_canonical [(''1-A-10.json'', File (Marshaled \<lparr>Id = ''1'',
      StartTime = time_Unix 10 0, Project = ''A'', Tags = []\<rparr>)), (''2-B-20.json'',
      File (Marshaled \<lparr>Id = ''2'', StartTime = time_Unix 20 0, Project = ''B'', Tags = []\<rparr>))]
   \<and> \<not> list_all (\<lambda>e. snd e = Dir) [(''1-A-10.json'', File (Marshaled \<lparr>Id = ''1'',
       StartTime = time_Unix 10 0, Project = ''A'', Tags = []\<rparr>)), (''2-B-20.json'',
       File (Marshaled \<lparr>Id = ''2'', StartTime = time_Unix 20 0, Project = ''B'', Tags = []\<rparr>))]
   \<and> latest_file [(''1-A-10.json'', File (Marshaled \<lparr>Id = ''1'', StartTime = time_Unix 10 0,
       Project = ''A'', Tags = []\<rparr>)), (''2-B-20.json'', File (Marshaled \<lparr>Id = ''2'',
       StartTime = time_Unix 20 0, Project = ''B'', Tags = []\<rparr>))] (''2-B-20.json'',
       File (Marshaled \<lparr>Id = ''2'', StartTime = time_Unix 20 0, Project = ''B'', Tags = []\<rparr>))
   \<and> list_all (\<lambda>e. latest_file [(''1-A-10.json'', File (Marshaled \<lparr>Id = ''1'',
       StartTime = time_Unix 10 0, Project = ''A'', Tags = []\<rparr>)), (''2-B-20.json'',
       File (Marshaled \<lparr>Id = ''2'', StartTime = time_Unix 20 0, Project = ''B'',
       Tags = []\<rparr>))] e \<longrightarrow> holds_active (\<lambda>l. Id l = ''2'') e) [(''1-A-10.json'',
       File (Marshaled \<lparr>Id = ''1'', StartTime = time_Unix 10 0, Project = ''A'', Tags = []\<rparr>)),
       (''2-B-20.json'', File (Marshaled \<lparr>Id = ''2'', StartTime = time_Unix 20 0,
       Project = ''B'', Tags = []\<rparr>))]
   \<and> start (\<lambda>l. Id l = ''2'') (time_Unix 1713028800 0) 0 ''3'' 1 (Folder [(''1-A-10.json'',
       File (Marshaled \<lparr>Id = ''1'', StartTime = time_Unix 10 0, Project = ''A'', Tags = []\<rparr>)),
       (''2-B-20.json'', File (Marshaled \<lparr>Id = ''2'', StartTime = time_Unix 20 0,
       Project = ''B'', Tags = []\<rparr>))]) \<lparr>c_Project = ''Flow'', c_Tags = [''start'']\<rparr> =
       Some (Inr (Inl ErrSessionAlreadyStarted, Folder [(''1-A-10.json'',
           File (Marshaled \<lparr>Id = ''1'', StartTime = time_Unix 10 0, Project = ''A'',
           Tags = []\<rparr>)), (''2-B-20.json'', File (Marshaled \<lparr>Id = ''2'',
           StartTime = time_Unix 20 0, Project = ''B'', Tags = []\<rparr>))]))
   \<and> list_all (\<lambda>e. latest_file [(''1-A-10.json'', File (Marshaled \<lparr>Id = ''1'',
       StartTime = time_Unix 10 0, Project = ''A'', Tags = []\<rparr>)), (''2-B-20.json'',
       File (Marshaled \<lparr>Id = ''2'', StartTime = time_Unix 20 0, Project = ''B'',
       Tags = []\<rparr>))] e \<longrightarrow> holds_ended (\<lambda>l. Id l = ''1'') e) [(''1-A-10.json'',
       File (Marshaled \<lparr>Id = ''1'', StartTime = time_Unix 10 0, Project = ''A'', Tags = []\<rparr>)),
       (''2-B-20.json'', File (Marshaled \<lparr>Id = ''2'', StartTime = time_Unix 20 0,
       Project = ''B'', Tags = []\<rparr>))]
   \<and> plain_name (getSessionFileName \<lparr>Id = ''3'', StartTime = time_Unix 1713028800 0,
       Project = ''Flow'', Tags = [''start'']\<rparr>)
   \<and> map_of [(''1-A-10.json'', File (Marshaled \<lparr>Id = ''1'', StartTime = time_Unix 10 0,
       Project = ''A'', Tags = []\<rparr>)), (''2-B-20.json'', File (Marshaled \<lparr>Id = ''2'',
       StartTime = time_Unix 20 0, Project = ''B'',
       Tags = []\<rparr>))] (getSessionFileName \<lparr>Id = ''3'', StartTime = time_Unix 1713028800 0,
       Project = ''Flow'', Tags = [''start'']\<rparr>) = None
   \<and> json_MarshalIndent 0 \<lparr>Id = ''3'', StartTime = time_Unix 1713028800 0, Project = ''Flow'',
       Tags = [''start'']\<rparr> = Inr (Marshaled \<lparr>Id = ''3'', StartTime = time_Unix 1713028800 0,
       Project = ''Flow'', Tags = [''start'']\<rparr>)
   \<and> start (\<lambda>l. Id l = ''1'') (time_Unix 1713028800 0) 0 ''3'' 1 (Folder [(''1-A-10.json'',
       File (Marshaled \<lparr>Id = ''1'', StartTime = time_Unix 10 0, Project = ''A'', Tags = []\<rparr>)),
       (''2-B-20.json'', File (Marshaled \<lparr>Id = ''2'', StartTime = time_Unix 20 0,
       Project = ''B'', Tags = []\<rparr>))]) \<lparr>c_Project = ''Flow'', c_Tags = [''start'']\<rparr> =
       Some (Inr (Inr \<lparr>Id = ''3'', StartTime = time_Unix 1713028800 0, Project = ''Flow'',
           Tags = [''start'']\<rparr>, Folder [(''1-A-10.json'', File (Marshaled \<lparr>Id = ''1'',
           StartTime = time_Unix 10 0, Project = ''A'', Tags = []\<rparr>)),
           (''3-Flow-1713028800.json'', File (Marshaled \<lparr>Id = ''3'',
           StartTime = time_Unix 1713028800 0, Project = ''Flow'', Tags = [''start'']\<rparr>)),
           (''2-B-20.json'', File (Marshaled \<lparr>Id = ''2'', StartTime = time_Unix 20 0,
           Project = ''B'', Tags = []\<rparr>))]))
   \<and> start (\<lambda>l. Id l = ''1'') (time_Unix 1713028800 0) 0 ''3'' 1 (Folder []) \<lparr>c_Project = ''Flow'', c_Tags = [''start'']\<rparr> =
       Some (Inr (Inr \<lparr>Id = ''3'', StartTime = time_Unix 1713028800 0, Project = ''Flow'',
           Tags = [''start'']\<rparr>, Folder [(''3-Flow-1713028800.json'', File (Marshaled \<lparr>Id = ''3'',
           StartTime = time_Unix 1713028800 0, Project = ''Flow'', Tags = [''start'']\<rparr>))]))"
proof -
  let ?es = "[(''1-A-10.json'', File (Marshaled \<lparr>Id = ''1'', StartTime = time_Unix 10 0,
      Project = ''A'', Tags = []\<rparr>)), (''2-B-20.json'', File (Marshaled \<lparr>Id = ''2'',
      StartTime = time_Unix 20 0, Project = ''B'', Tags = []\<rparr>))]"
  let ?s = "\<lparr>Id = ''3'', StartTime = time_Unix 1713028800 0, Project = ''Flow'',
      Tags = [''start'']\<rparr>"
  let ?b = "Marshaled \<lparr>Id = ''3'', StartTime = time_Unix 1713028800 0, Project = ''Flow'',
      Tags = [''start'']\<rparr>"
  have h: "distinct (map fst ?es) \<and> names_canonical ?es" by code_simp
  have h0: "distinct (map fst ([] :: (string \<times> node) list)) \<and> names_canonical []"
    by code_simp
  have f: "\<not> list_all (\<lambda>e. snd e = Dir) ?es" by code_simp
  have l2: "latest_file ?es (''2-B-20.json'', File (Marshaled \<lparr>Id = ''2'',
      StartTime = time_Unix 20 0, Project = ''B'', Tags = []\<rparr>))" by code_simp
  have a: "list_all (\<lambda>e. latest_file ?es e \<longrightarrow> holds_active (\<lambda>l. Id l = ''2'') e) ?es"
    by code_simp
  have e: "list_all (\<lambda>e. latest_file ?es e \<longrightarrow> holds_ended (\<lambda>l. Id l = ''1'') e) ?es"
    by code_simp
  have s: "?s = \<lparr>Id = ''3'', StartTime = time_Unix 1713028800 0,
            Project = c_Project \<lparr>c_Project = ''Flow'', c_Tags = [''start'']\<rparr>,
                Tags = c_Tags \<lparr>c_Project = ''Flow'', c_Tags = [''start'']\<rparr>\<rparr>"
    by simp
  have p: "plain_name (getSessionFileName ?s)" by code_simp
  have m: "map_of ?es (getSessionFileName ?s) = None" by code_simp
  have m0: "map_of ([] :: (string \<times> node) list) (getSessionFileName ?s) = None" by simp
  have d0: "list_all (\<lambda>e. snd e = Dir) ([] :: (string \<times> node) list)" by simp
  have j: "json_MarshalIndent 0 ?s = Inr ?b" by code_simp
  have n: "getSessionFileName ?s = ''3-Flow-1713028800.json''" by code_simp
  have tk: "take 1 ?es @ (''3-Flow-1713028800.json'', File ?b) # drop 1 ?es = [(''1-A-10.json'',
      File (Marshaled \<lparr>Id = ''1'', StartTime = time_Unix 10 0, Project = ''A'', Tags = []\<rparr>)),
      (''3-Flow-1713028800.json'', File (Marshaled \<lparr>Id = ''3'',
      StartTime = time_Unix 1713028800 0, Project = ''Flow'', Tags = [''start'']\<rparr>)),
      (''2-B-20.json'', File (Marshaled \<lparr>Id = ''2'', StartTime = time_Unix 20 0, Project = ''B'',
      Tags = []\<rparr>))]"
    by simp
  have tk0: "take 1 ([] :: (string \<times> node) list)
      @ (''3-Flow-1713028800.json'', File ?b) # drop 1 [] = [(''3-Flow-1713028800.json'',
          File (Marshaled \<lparr>Id = ''3'', StartTime = time_Unix 1713028800 0, Project = ''Flow'',
          Tags = [''start'']\<rparr>))]"
    by simp
  note t = start_single_active [where es = "?es" and now = "time_Unix 1713028800 0" and zone = 0
      and newId = "''3''" and place = 1 and command = "\<lparr>c_Project = ''Flow'',
          c_Tags = [''start'']\<rparr>" and s = "?s" and b = "?b"]
  note t0 = start_single_active [where es = "[]" and now = "time_Unix 1713028800 0" and zone = 0
      and newId = "''3''" and place = 1 and command = "\<lparr>c_Project = ''Flow'',
          c_Tags = [''start'']\<rparr>" and s = "?s" and b = "?b"
      and active = "\<lambda>l. Id l = ''1''"]
  from t [where active = "\<lambda>l. Id l = ''2''", rule_format, OF h, THEN conjunct1] f a
  have r1: "start (\<lambda>l. Id l = ''2'') (time_Unix 1713028800 0) 0 ''3'' 1 (Folder ?es) \<lparr>c_Project = ''Flow'', c_Tags = [''start'']\<rparr> =
       Some (Inr (Inl ErrSessionAlreadyStarted, Folder ?es))"
    by blast
  from t [where active = "\<lambda>l. Id l = ''1''", rule_format, OF h, THEN conjunct2] e s p m j
  have "start (\<lambda>l. Id l = ''1'') (time_Unix 1713028800 0) 0 ''3'' 1 (Folder ?es) \<lparr>c_Project = ''Flow'', c_Tags = [''start'']\<rparr> =
       Some (Inr (Inr ?s,
         Folder (take 1 ?es @ (getSessionFileName ?s, File ?b) # drop 1 ?es)))"
    by blast
  then have r2: "start (\<lambda>l. Id l = ''1'') (time_Unix 1713028800 0) 0 ''3'' 1 (Folder ?es) \<lparr>c_Project = ''Flow'', c_Tags = [''start'']\<rparr> =
       Some (Inr (Inr ?s, Folder [(''1-A-10.json'', File (Marshaled \<lparr>Id = ''1'',
           StartTime = time_Unix 10 0, Project = ''A'', Tags = []\<rparr>)),
           (''3-Flow-1713028800.json'', File (Marshaled \<lparr>Id = ''3'',
           StartTime = time_Unix 1713028800 0, Project = ''Flow'', Tags = [''start'']\<rparr>)),
           (''2-B-20.json'', File (Marshaled \<lparr>Id = ''2'', StartTime = time_Unix 20 0,
           Project = ''B'', Tags = []\<rparr>))]))"
    unfolding n tk .
  from t0 [rule_format, OF h0, THEN conjunct2] d0 s p m0 j
  have "start (\<lambda>l. Id l = ''1'') (time_Unix 1713028800 0) 0 ''3'' 1 (Folder []) \<lparr>c_Project = ''Flow'', c_Tags = [''start'']\<rparr> =
       Some (Inr (Inr ?s,
         Folder (take 1 [] @ (getSessionFileName ?s, File ?b) # drop 1 [])))"
    by blast
  then have r3: "start (\<lambda>l. Id l = ''1'') (time_Unix 1713028800 0) 0 ''3'' 1 (Folder []) \<lparr>c_Project = ''Flow'', c_Tags = [''start'']\<rparr> =
       Some (Inr (Inr ?s, Folder [(''3-Flow-1713028800.json'', File (Marshaled \<lparr>Id = ''3'',
           StartTime = time_Unix 1713028800 0, Project = ''Flow'', Tags = [''start'']\<rparr>))]))"
    unfolding n tk0 .
  from h f l2 a r1 e p m j r2 r3 show ?thesis by blast
qed

theorem start_single_active_counterexample:
  "start (\<lambda>l. True) (time_Unix 1713028800 0) 0 ''id-1'' 0 (Folder []) \<lparr>c_Project = ''Flow'',
      c_Tags = [''start'']\<rparr> = Some (Inr (Inr \<lparr>Id = ''id-1'', StartTime = time_Unix 1713028800 0,
      Project = ''Flow'', Tags = [''start'']\<rparr>, Folder [(''id-1-Flow-1713028800.json'',
      File (Marshaled \<lparr>Id = ''id-1'', StartTime = time_Unix 1713028800 0, Project = ''Flow'',
      Tags = [''start'']\<rparr>))]))
   \<and> holds_active (\<lambda>l. True) (''id-1-Flow-1713028800.json'', File (Marshaled \<lparr>Id = ''id-1'',
       StartTime = time_Unix 1713028800 0, Project = ''Flow'', Tags = [''start'']\<rparr>))
   \<and> start (\<lambda>l. True) (time_Unix 1713028800 0) 0 ''id-2'' 0 (Folder [(''id-1-Flow-1713028800.json'', File (Marshaled \<lparr>Id = ''id-1'', StartTime = time_Unix 1713028800 0, Project = ''Flow'', Tags = [''start'']\<rparr>))]) \<lparr>c_Project = ''Flow'', c_Tags = [''start'']\<rparr> = Some (Inl (Fatal_parseFileName ''id-1-Flow-1713028800.json'' InvalidSessionFileName))
   \<and> holds_ended (\<lambda>l. False) (''id-1-Flow-1713028800.json'', File (Marshaled \<lparr>Id = ''id-1'',
       StartTime = time_Unix 1713028800 0, Project = ''Flow'', Tags = [''start'']\<rparr>))
   \<and> start (\<lambda>l. False) (time_Unix 1713028800 0) 0 ''id-2'' 0 (Folder [(''id-1-Flow-1713028800.json'', File (Marshaled \<lparr>Id = ''id-1'', StartTime = time_Unix 1713028800 0, Project = ''Flow'', Tags = [''start'']\<rparr>))]) \<lparr>c_Project = ''Flow'', c_Tags = [''start'']\<rparr> = Some (Inl (Fatal_parseFileName ''id-1-Flow-1713028800.json'' InvalidSessionFileName))
   \<and> start (\<lambda>l. False) (time_Unix 1713028800 0) 0 ''a/b'' 0 (Folder []) \<lparr>c_Project = ''Flow'',
       c_Tags = [''start'']\<rparr> =
       Some (Inr (Inl PathError, Folder []))"
proof (intro conjI)
  show "start (\<lambda>l. True) (time_Unix 1713028800 0) 0 ''id-1'' 0 (Folder []) \<lparr>c_Project = ''Flow'',
      c_Tags = [''start'']\<rparr> = Some (Inr (Inr \<lparr>Id = ''id-1'', StartTime = time_Unix 1713028800 0,
      Project = ''Flow'', Tags = [''start'']\<rparr>, Folder [(''id-1-Flow-1713028800.json'',
      File (Marshaled \<lparr>Id = ''id-1'', StartTime = time_Unix 1713028800 0, Project = ''Flow'',
      Tags = [''start'']\<rparr>))]))"
    by code_simp
  show "holds_active (\<lambda>l. True) (''id-1-Flow-1713028800.json'', File (Marshaled \<lparr>Id = ''id-1'',
      StartTime = time_Unix 1713028800 0, Project = ''Flow'', Tags = [''start'']\<rparr>))"
    by code_simp
  show "start (\<lambda>l. True) (time_Unix 1713028800 0) 0 ''id-2'' 0 (Folder [(''id-1-Flow-1713028800.json'', File (Marshaled \<lparr>Id = ''id-1'', StartTime = time_Unix 1713028800 0, Project = ''Flow'', Tags = [''start'']\<rparr>))]) \<lparr>c_Project = ''Flow'', c_Tags = [''start'']\<rparr> = Some (Inl (Fatal_parseFileName ''id-1-Flow-1713028800.json'' InvalidSessionFileName))"
    by code_simp
  show "holds_ended (\<lambda>l. False) (''id-1-Flow-1713028800.json'', File (Marshaled \<lparr>Id = ''id-1'',
      StartTime = time_Unix 1713028800 0, Project = ''Flow'', Tags = [''start'']\<rparr>))"
    by code_simp
  show "start (\<lambda>l. False) (time_Unix 1713028800 0) 0 ''id-2'' 0 (Folder [(''id-1-Flow-1713028800.json'', File (Marshaled \<lparr>Id = ''id-1'', StartTime = time_Unix 1713028800 0, Project = ''Flow'', Tags = [''start'']\<rparr>))]) \<lparr>c_Project = ''Flow'', c_Tags = [''start'']\<rparr> = Some (Inl (Fatal_parseFileName ''id-1-Flow-1713028800.json'' InvalidSessionFileName))"
    by code_simp
  show "start (\<lambda>l. False) (time_Unix 1713028800 0) 0 ''a/b'' 0 (Folder []) \<lparr>c_Project = ''Flow'',
      c_Tags = [''start'']\<rparr> =
       Some (Inr (Inl PathError, Folder []))"
    by code_simp
qed

end
